theory Spec2Isabelle
  imports Complex_Main
begin

section \<open>Values and the functions of the runtime\<close>

text \<open>
  A worksheet cell holds a number, a text or nothing. Floating-point numbers are read as
  real numbers; the one special value the analysis ever tests for, NaN, is \<open>None\<close> of
  \<open>real option\<close>. Infinities and rounding are outside this development.
\<close>

datatype cell = Num real | Text string | Blank

text \<open>
  The functions of Python and pandas that \<open>analyzer.py\<close> calls on strings are parameters:
  \<open>py_int\<close> is \<open>int(s)\<close> (\<open>None\<close> when it raises ValueError), \<open>str_to_float\<close> is what
  \<open>pd.to_numeric(errors='coerce')\<close> makes of a text (\<open>None\<close> is NaN), \<open>float_to_str\<close> is
  \<open>astype(str)\<close> on a number, \<open>to_datetime\<close> is \<open>pd.to_datetime\<close> with format
  \<open>%d/%m/%Y %H:%M:%S\<close> and \<open>errors='coerce'\<close> (seconds since the epoch, \<open>None\<close> is NaT),
  and \<open>strftime\<close> renders a timestamp with \<open>%Y-%m-%d %H:%M:%S\<close>.
\<close>

record runtime =
  py_int :: "string \<Rightarrow> int option"
  str_to_float :: "string \<Rightarrow> real option"
  float_to_str :: "real \<Rightarrow> string"
  to_datetime :: "string \<Rightarrow> int option"
  strftime :: "int \<Rightarrow> string"

type_synonym series = "real option list"

datatype error = ValueError string | AttributeError

subsection \<open>Formatting numbers, splitting strings\<close>

definition digit_char :: "nat \<Rightarrow> char" where
  "digit_char d = ''0123456789'' ! d"

fun str_nat :: "nat \<Rightarrow> string" where
  "str_nat n = (if n < 10 then [digit_char n] else str_nat (n div 10) @ [digit_char (n mod 10)])"

declare str_nat.simps [simp del]

definition str_int :: "int \<Rightarrow> string" where
  "str_int i = (if i < 0 then CHR ''-'' # str_nat (nat (- i)) else str_nat (nat i))"

text \<open>The format \<open>{i:02d}\<close>: at least two characters, the sign counted, padded with zeros.\<close>

definition format_02d :: "int \<Rightarrow> string" where
  "format_02d i = (if 0 \<le> i \<and> i < 10 then CHR ''0'' # str_int i else str_int i)"

fun split_on :: "char \<Rightarrow> string \<Rightarrow> string list" where
  "split_on c [] = [[]]"
| "split_on c (x # xs) =
     (if x = c then [] # split_on c xs
      else (case split_on c xs of [] \<Rightarrow> [[x]] | p # ps \<Rightarrow> (x # p) # ps))"

fun join :: "string \<Rightarrow> string list \<Rightarrow> string" where
  "join sep [] = []"
| "join sep [x] = x"
| "join sep (x # y # ys) = x @ sep @ join sep (y # ys)"

section \<open>IEEE 519 limit tables\<close>

record v_limits =
  individual :: real
  thd :: real

definition VOLTAGE_LIMITS :: "(string \<times> v_limits) list" where
  "VOLTAGE_LIMITS =
    [(''V_le_1kV'',        \<lparr>individual = 5.0, thd = 8.0\<rparr>),
     (''V_1kV_to_69kV'',   \<lparr>individual = 3.0, thd = 5.0\<rparr>),
     (''V_69kV_to_161kV'', \<lparr>individual = 1.5, thd = 2.5\<rparr>),
     (''V_gt_161kV'',      \<lparr>individual = 1.0, thd = 1.5\<rparr>)]"

record c_limits =
  h_lt_11 :: real
  h_11_17 :: real
  h_17_23 :: real
  h_23_35 :: real
  h_gt_35 :: real
  tdd :: real

text \<open>The key of a row is its band \<open>(low, high)\<close>; \<open>None\<close> as the high bound is \<open>float('inf')\<close>.\<close>

type_synonym band = "real \<times> real option"

definition CURRENT_LIMITS_120V_to_69kV :: "(band \<times> c_limits) list" where
  "CURRENT_LIMITS_120V_to_69kV =
    [((0, Some 20),
        \<lparr>h_lt_11 = 4.0, h_11_17 = 2.0, h_17_23 = 1.5, h_23_35 = 0.6, h_gt_35 = 0.3, tdd = 5.0\<rparr>),
     ((20, Some 50),
        \<lparr>h_lt_11 = 7.0, h_11_17 = 3.5, h_17_23 = 2.5, h_23_35 = 1.0, h_gt_35 = 0.5, tdd = 8.0\<rparr>),
     ((50, Some 100),
        \<lparr>h_lt_11 = 10.0, h_11_17 = 4.5, h_17_23 = 4.0, h_23_35 = 1.5, h_gt_35 = 0.7, tdd = 12.0\<rparr>),
     ((100, Some 1000),
        \<lparr>h_lt_11 = 12.0, h_11_17 = 5.5, h_17_23 = 5.0, h_23_35 = 2.0, h_gt_35 = 1.0, tdd = 15.0\<rparr>),
     ((1000, None),
        \<lparr>h_lt_11 = 15.0, h_11_17 = 7.0, h_17_23 = 6.0, h_23_35 = 2.5, h_gt_35 = 1.4, tdd = 20.0\<rparr>)]"

section \<open>Helper functions\<close>

definition nan_to_zero :: "real option \<Rightarrow> real" where
  "nan_to_zero v = (case v of None \<Rightarrow> 0 | Some x \<Rightarrow> x)"

text \<open>\<open>pd.to_numeric(errors='coerce')\<close> on one cell, then the whole column with \<open>fillna(0)\<close>.\<close>

definition to_numeric :: "runtime \<Rightarrow> cell \<Rightarrow> real option" where
  "to_numeric rt c = (case c of Num r \<Rightarrow> Some r | Text s \<Rightarrow> str_to_float rt s | Blank \<Rightarrow> None)"

definition fillna :: "real \<Rightarrow> series \<Rightarrow> series" where
  "fillna d xs = map (\<lambda>v. case v of None \<Rightarrow> Some d | Some x \<Rightarrow> Some x) xs"

definition to_numeric_safe :: "runtime \<Rightarrow> cell list \<Rightarrow> series" where
  "to_numeric_safe rt col = fillna 0 (map (to_numeric rt) col)"

text \<open>The reductions of a pandas series skip NaN; with nothing left the result is NaN.\<close>

definition dropna :: "series \<Rightarrow> series" where
  "dropna xs = filter (\<lambda>v. v \<noteq> None) xs"

definition numbers :: "series \<Rightarrow> real list" where
  "numbers xs = concat (map (\<lambda>v. case v of None \<Rightarrow> [] | Some x \<Rightarrow> [x]) xs)"

definition mean :: "series \<Rightarrow> real option" where
  "mean xs = (let ys = numbers xs in if ys = [] then None else Some (sum_list ys / real (length ys)))"

definition max_series :: "series \<Rightarrow> real option" where
  "max_series xs = (let ys = numbers xs in if ys = [] then None else Some (Max (set ys)))"

text \<open>
  \<open>Series.quantile(q)\<close>: linear interpolation between the order statistics around the
  position \<open>q * (n - 1)\<close>. It is called on series with at least one number only.
\<close>

definition quantile :: "real \<Rightarrow> series \<Rightarrow> real" where
  "quantile q xs =
     (let s = sort (numbers xs);
          pos = q * real (length s - 1);
          lo = nat \<lfloor>pos\<rfloor>;
          hi = min (lo + 1) (length s - 1)
      in s ! lo + (s ! hi - s ! lo) * (pos - real lo))"

definition get_percentile_safe :: "series \<Rightarrow> real \<Rightarrow> real" where
  "get_percentile_safe xs percentile =
     (if xs = [] \<or> (\<forall>v \<in> set xs. v = None) then 0.0 else quantile (percentile / 100.0) xs)"

definition get_last_value_safe :: "series \<Rightarrow> real option" where
  "get_last_value_safe xs = (if xs = [] then Some 0.0 else last xs)"

definition get_current_limit_for_harmonic :: "nat \<Rightarrow> c_limits option \<Rightarrow> real option" where
  "get_current_limit_for_harmonic order limit_row =
     (case limit_row of
        None \<Rightarrow> None
      | Some row \<Rightarrow>
          if order < 11 then Some (h_lt_11 row)
          else if 11 \<le> order \<and> order < 17 then Some (h_11_17 row)
          else if 17 \<le> order \<and> order < 23 then Some (h_17_23 row)
          else if 23 \<le> order \<and> order < 35 then Some (h_23_35 row)
          else if order \<ge> 35 then Some (h_gt_35 row)
          else None)"

text \<open>A comparison \<open>x > limit\<close> where the limit may be \<open>float('inf')\<close> (\<open>None\<close>).\<close>

definition exceeds :: "real \<Rightarrow> real option \<Rightarrow> bool" where
  "exceeds x limit = (case limit of None \<Rightarrow> False | Some l \<Rightarrow> x > l)"

text \<open>
  \<open>thai_to_gregorian_year\<close> is applied to the column after \<open>astype(str)\<close>, so its argument
  is a string and \<open>pd.isna\<close> is false. ValueError (from \<open>int\<close>) and IndexError (fewer than
  three parts) both return the argument.
\<close>

definition thai_to_gregorian_year :: "runtime \<Rightarrow> string \<Rightarrow> string" where
  "thai_to_gregorian_year rt date_str =
     (case split_on CHR ''/'' date_str of
        p0 # p1 # p2 # rest \<Rightarrow>
          (case py_int rt p0 of None \<Rightarrow> date_str | Some day \<Rightarrow>
          (case py_int rt p1 of None \<Rightarrow> date_str | Some month \<Rightarrow>
          (case py_int rt p2 of None \<Rightarrow> date_str | Some thai_year \<Rightarrow>
             format_02d day @ ''/'' @ format_02d month @ ''/'' @ str_int (thai_year - 543))))
      | _ \<Rightarrow> date_str)"

section \<open>Tables\<close>

text \<open>
  A worksheet maps a column name to the cells of the column, one per row. The cleaned
  trend table also carries its index, the timestamps of the rows that are kept.
\<close>

type_synonym frame = "string \<rightharpoonup> cell list"

record clean_frame =
  index :: "int list"
  columns :: "string \<rightharpoonup> cell list"

definition astype_str :: "runtime \<Rightarrow> cell \<Rightarrow> string" where
  "astype_str rt c = (case c of Num r \<Rightarrow> float_to_str rt r | Text s \<Rightarrow> s | Blank \<Rightarrow> ''nan'')"

text \<open>
  The timestamp of every row. A missing \<open>Date\<close> or \<open>Time\<close> column is replaced by an empty
  series; the sum of the two string series is then NaN in every row, every timestamp is NaT
  and every row is dropped, which \<open>[]\<close> stands for.
\<close>

definition row_stamps :: "runtime \<Rightarrow> frame \<Rightarrow> int option list" where
  "row_stamps rt df =
     (case df ''Date'' of None \<Rightarrow> [] | Some date_col \<Rightarrow>
     (case df ''Time'' of None \<Rightarrow> [] | Some time_col \<Rightarrow>
        map (\<lambda>(d, t). to_datetime rt
               (thai_to_gregorian_year rt (astype_str rt d) @ '' '' @ astype_str rt t))
            (zip date_col time_col)))"

definition select :: "bool list \<Rightarrow> 'a list \<Rightarrow> 'a list" where
  "select keep xs = map snd (filter fst (zip keep xs))"

text \<open>\<open>Index.duplicated(keep='first')\<close>: true where the value occurred earlier.\<close>

fun duplicated :: "int list \<Rightarrow> int list \<Rightarrow> bool list" where
  "duplicated seen [] = []"
| "duplicated seen (t # ts) = (t \<in> set seen) # duplicated (t # seen) ts"

text \<open>
  \<open>dropna(subset=['Timestamp'])\<close>, \<open>set_index('Timestamp')\<close> (the column leaves the table),
  then the rows whose timestamp is not a duplicate.
\<close>

definition clean_trend :: "runtime \<Rightarrow> frame \<Rightarrow> clean_frame" where
  "clean_trend rt df_trend =
     (let stamps = row_stamps rt df_trend;
          notna = map (\<lambda>s. s \<noteq> None) stamps;
          stamps1 = map (\<lambda>s. case s of None \<Rightarrow> 0 | Some t \<Rightarrow> t) (filter (\<lambda>s. s \<noteq> None) stamps);
          first = map Not (duplicated [] stamps1)
      in \<lparr>index = select first stamps1,
          columns = (\<lambda>c. map_option (\<lambda>cells. select first (select notna cells))
                          ((df_trend(''Timestamp'' := None)) c))\<rparr>)"

section \<open>Percentiles\<close>

text \<open>
  \<open>series.resample('10min')\<close>: one bin per ten minutes from the first to the last
  timestamp. The function applied to a bin gives NaN for an empty one.
\<close>

definition resample_10min :: "int list \<Rightarrow> series \<Rightarrow> series" where
  "resample_10min idx xs =
     (if idx = [] then []
      else map (\<lambda>b. let x = map snd (filter (\<lambda>(t, v). t div 600 = b) (zip idx xs))
                    in if x \<noteq> [] then Some (get_percentile_safe x 95) else None)
               [Min (set idx) div 600 .. Max (set idx) div 600])"

definition thd_col_percentiles ::
  "runtime \<Rightarrow> clean_frame \<Rightarrow> bool \<Rightarrow> bool \<Rightarrow> (string \<rightharpoonup> real) \<Rightarrow> string \<Rightarrow> (string \<rightharpoonup> real)" where
  "thd_col_percentiles rt df percentile_95 percentile_99 results col =
     (case columns df col of
        None \<Rightarrow> results
      | Some cells \<Rightarrow>
          let series = to_numeric_safe rt cells in
          if series = [] then results
          else
            let results1 =
                  (if percentile_99
                   then results(col @ ''_99th_3s'' \<mapsto> get_percentile_safe series 99)
                   else results);
                resampled_10min = dropna (resample_10min (index df) series)
            in if resampled_10min = [] then results1
               else
                 let results2 =
                       (if percentile_95
                        then results1(col @ ''_95th_10min'' \<mapsto> get_percentile_safe resampled_10min 95)
                        else results1)
                 in if percentile_99
                    then results2(col @ ''_99th_10min'' \<mapsto> get_percentile_safe resampled_10min 99)
                    else results2)"

definition calculate_thd_percentiles ::
  "runtime \<Rightarrow> clean_frame \<Rightarrow> string \<Rightarrow> bool \<Rightarrow> bool \<Rightarrow> (string \<rightharpoonup> real)" where
  "calculate_thd_percentiles rt df thd_type percentile_95 percentile_99 =
     foldl (thd_col_percentiles rt df percentile_95 percentile_99) Map.empty
       (map (\<lambda>p. thd_type @ str_nat p @ '' THD'') [1, 2, 3])"

definition harmonic_col_percentile ::
  "runtime \<Rightarrow> frame \<Rightarrow> string \<Rightarrow> nat \<Rightarrow> (string \<rightharpoonup> real) \<Rightarrow> nat \<times> nat \<Rightarrow> (string \<rightharpoonup> real)" where
  "harmonic_col_percentile rt df prefix percentile results hp =
     (case hp of (h, p) \<Rightarrow>
        let col = prefix @ str_nat p @ ''h'' @ str_nat h in
        case df col of
          None \<Rightarrow> results
        | Some cells \<Rightarrow>
            let series = to_numeric_safe rt cells in
            if series = [] then results
            else results(col @ ''_'' @ str_nat percentile @ ''th''
                           \<mapsto> get_percentile_safe series (real percentile)))"

definition calculate_individual_harmonic_percentiles ::
  "runtime \<Rightarrow> frame \<Rightarrow> string \<Rightarrow> nat \<Rightarrow> (string \<rightharpoonup> real)" where
  "calculate_individual_harmonic_percentiles rt df prefix percentile =
     foldl (harmonic_col_percentile rt df prefix percentile) Map.empty
       (concat (map (\<lambda>h. map (\<lambda>p. (h, p)) [1, 2, 3]) [2..<51]))"

text \<open>\<open>d.get(key, 0)\<close> on a dictionary of percentiles.\<close>

definition get0 :: "(string \<rightharpoonup> real) \<Rightarrow> string \<Rightarrow> real" where
  "get0 d key = (case d key of None \<Rightarrow> 0 | Some v \<Rightarrow> v)"

section \<open>Failing points and verdicts\<close>

text \<open>
  \<open>failing_points\<close> is a dictionary of dictionaries, category to description to the two
  lists; dictionaries keep the order of insertion, so they are association lists here.
\<close>

record failing_entry =
  phases :: "string list"
  harmonics :: "nat list"

type_synonym failing_points = "(string \<times> (string \<times> failing_entry) list) list"

text \<open>
  \<open>upsert k d f\<close>: the value under \<open>k\<close>, first created as \<open>d\<close> at the end of the
  dictionary when the key is absent, is replaced by \<open>f\<close> of it.
\<close>

fun upsert :: "'k \<Rightarrow> 'v \<Rightarrow> ('v \<Rightarrow> 'v) \<Rightarrow> ('k \<times> 'v) list \<Rightarrow> ('k \<times> 'v) list" where
  "upsert k d f [] = [(k, f d)]"
| "upsert k d f ((k', v) # kvs) =
     (if k' = k then (k', f v) # kvs else (k', v) # upsert k d f kvs)"

text \<open>
  \<open>if phase and phase not in ...\<close>: \<open>None\<close> and the empty string are false. No caller
  passes \<open>harmonic\<close>; a harmonic order is a number and 0 is false.
\<close>

definition add_ids :: "string option \<Rightarrow> nat option \<Rightarrow> failing_entry \<Rightarrow> failing_entry" where
  "add_ids phase harmonic e =
     (let e1 = (case phase of
                  None \<Rightarrow> e
                | Some p \<Rightarrow> if p \<noteq> [] \<and> p \<notin> set (phases e)
                            then e\<lparr>phases := phases e @ [p]\<rparr> else e)
      in case harmonic of
           None \<Rightarrow> e1
         | Some h \<Rightarrow> if h \<noteq> 0 \<and> h \<notin> set (harmonics e1)
                     then e1\<lparr>harmonics := harmonics e1 @ [h]\<rparr> else e1)"

definition add_failing_point ::
  "failing_points \<Rightarrow> string \<Rightarrow> string \<Rightarrow> string option \<Rightarrow> nat option \<Rightarrow> failing_points" where
  "add_failing_point fp category description phase harmonic =
     upsert category []
       (upsert description \<lparr>phases = [], harmonics = []\<rparr> (add_ids phase harmonic)) fp"

record eval_state =
  voltage_compliance :: string
  current_compliance :: string
  failing_points :: failing_points

definition initial_state :: eval_state where
  "initial_state = \<lparr>voltage_compliance = ''Pass'', current_compliance = ''Pass'', failing_points = []\<rparr>"

definition fail_voltage :: "string \<Rightarrow> string \<Rightarrow> string option \<Rightarrow> eval_state \<Rightarrow> eval_state" where
  "fail_voltage category description phase st =
     st\<lparr>voltage_compliance := ''Fail'',
        failing_points := add_failing_point (failing_points st) category description phase None\<rparr>"

definition fail_current :: "string \<Rightarrow> string \<Rightarrow> string option \<Rightarrow> eval_state \<Rightarrow> eval_state" where
  "fail_current category description phase st =
     st\<lparr>current_compliance := ''Fail'',
        failing_points := add_failing_point (failing_points st) category description phase None\<rparr>"

subsection \<open>Voltage rules\<close>

definition v_limit_table :: "real \<Rightarrow> v_limits option" where
  "v_limit_table nominal_voltage =
     (if nominal_voltage \<le> 1000 then map_of VOLTAGE_LIMITS ''V_le_1kV''
      else if nominal_voltage \<le> 69000 then map_of VOLTAGE_LIMITS ''V_1kV_to_69kV''
      else if nominal_voltage \<le> 161000 then map_of VOLTAGE_LIMITS ''V_69kV_to_161kV''
      else map_of VOLTAGE_LIMITS ''V_gt_161kV'')"

definition check_thdv_99th_3s :: "v_limits \<Rightarrow> (string \<rightharpoonup> real) \<Rightarrow> nat \<Rightarrow> eval_state \<Rightarrow> eval_state" where
  "check_thdv_99th_3s vtab vp phase st =
     (if get0 vp (''U'' @ str_nat phase @ '' THD_99th_3s'') > thd vtab * 1.5
      then fail_voltage ''Voltage THD'' ''99th Percentile (3s) > 1.5x limit''
             (Some (''U'' @ str_nat phase)) st
      else st)"

definition check_thdv_95th_10min :: "v_limits \<Rightarrow> (string \<rightharpoonup> real) \<Rightarrow> nat \<Rightarrow> eval_state \<Rightarrow> eval_state" where
  "check_thdv_95th_10min vtab vp phase st =
     (if get0 vp (''U'' @ str_nat phase @ '' THD_95th_10min'') > thd vtab
      then fail_voltage ''Voltage THD'' ''95th Percentile (10min) > limit''
             (Some (''U'' @ str_nat phase)) st
      else st)"

text \<open>
  One harmonic order: the inner loop over the phases sets the verdict and collects
  \<open>failed_phases\<close>; the failing point is added after it.
\<close>

definition voltage_harmonic_phase ::
  "v_limits \<Rightarrow> (string \<rightharpoonup> real) \<Rightarrow> nat \<Rightarrow> eval_state \<times> string list \<Rightarrow> nat \<Rightarrow> eval_state \<times> string list" where
  "voltage_harmonic_phase vtab vhp h acc phase =
     (case acc of (st, failed_phases) \<Rightarrow>
        if get0 vhp (''V'' @ str_nat phase @ ''h'' @ str_nat h @ ''_95th'') > individual vtab
        then (st\<lparr>voltage_compliance := ''Fail''\<rparr>, failed_phases @ [''V'' @ str_nat phase])
        else (st, failed_phases))"

definition check_voltage_harmonic :: "v_limits \<Rightarrow> (string \<rightharpoonup> real) \<Rightarrow> nat \<Rightarrow> eval_state \<Rightarrow> eval_state" where
  "check_voltage_harmonic vtab vhp h st =
     (case foldl (voltage_harmonic_phase vtab vhp h) (st, []) [1, 2, 3] of
        (st1, failed_phases) \<Rightarrow>
          if failed_phases \<noteq> []
          then st1\<lparr>failing_points :=
                     add_failing_point (failing_points st1) ''Individual Voltage Harmonics''
                       (''Harmonic '' @ str_nat h @ '' > limit'')
                       (Some (join '', '' failed_phases)) None\<rparr>
          else st1)"

definition voltage_checks :: "v_limits \<Rightarrow> (string \<rightharpoonup> real) \<Rightarrow> (string \<rightharpoonup> real) \<Rightarrow> (eval_state \<Rightarrow> eval_state) list" where
  "voltage_checks vtab vp vhp =
     concat (map (\<lambda>phase. [check_thdv_99th_3s vtab vp phase, check_thdv_95th_10min vtab vp phase])
               [1, 2, 3])
     @ map (check_voltage_harmonic vtab vhp) [2..<51]"

subsection \<open>Current rules\<close>

definition isc_il_ratio :: "real \<Rightarrow> real \<Rightarrow> real" where
  "isc_il_ratio isc il = (if il > 0 then isc / il else 0)"

definition in_band :: "band \<Rightarrow> real \<Rightarrow> bool" where
  "in_band b r = (case b of (min_r, max_r) \<Rightarrow>
                    min_r \<le> r \<and> (case max_r of None \<Rightarrow> True | Some m \<Rightarrow> r < m))"

text \<open>The loop over the rows stops at the first band that contains the ratio.\<close>

definition c_limit_row :: "real \<Rightarrow> real \<Rightarrow> real \<Rightarrow> c_limits option" where
  "c_limit_row nominal_voltage isc il =
     (if nominal_voltage \<le> 69000
      then map_option snd
             (find (\<lambda>(b, limits). in_band b (isc_il_ratio isc il)) CURRENT_LIMITS_120V_to_69kV)
      else None)"

definition compute_tdd :: "real \<Rightarrow> real \<Rightarrow> real \<Rightarrow> real" where
  "compute_tdd thdi_for_tdd current_rms_avg il =
     (if thdi_for_tdd > 0 \<and> current_rms_avg > 0 \<and> il > 0
      then (let thdi_per_unit = thdi_for_tdd / 100.0;
                Ih_rms = (current_rms_avg / sqrt (1 + thdi_per_unit\<^sup>2)) * thdi_per_unit
            in if il > 0 then (Ih_rms / il) * 100.0 else 0.0)
      else 0.0)"

definition check_tdd :: "c_limits \<Rightarrow> real \<Rightarrow> eval_state \<Rightarrow> eval_state" where
  "check_tdd row tdd_value st =
     (if tdd_value > tdd row
      then fail_current ''Current TDD'' ''Overall TDD > limit'' None st
      else st)"

definition check_thdi_99th_3s :: "c_limits \<Rightarrow> (string \<rightharpoonup> real) \<Rightarrow> nat \<Rightarrow> eval_state \<Rightarrow> eval_state" where
  "check_thdi_99th_3s row cp phase st =
     (if get0 cp (''A'' @ str_nat phase @ '' THD_99th_3s'') > tdd row * 2
      then fail_current ''Current THD'' ''99th Percentile (3s) > 1.5x TDD limit''
             (Some (''A'' @ str_nat phase)) st
      else st)"

definition check_thdi_95th_10min :: "c_limits \<Rightarrow> (string \<rightharpoonup> real) \<Rightarrow> nat \<Rightarrow> eval_state \<Rightarrow> eval_state" where
  "check_thdi_95th_10min row cp phase st =
     (if get0 cp (''A'' @ str_nat phase @ '' THD_95th_10min'') > tdd row
      then fail_current ''Current THD'' ''95th Percentile (10min) > TDD limit''
             (Some (''A'' @ str_nat phase)) st
      else st)"

definition check_thdi_99th_10min :: "c_limits \<Rightarrow> (string \<rightharpoonup> real) \<Rightarrow> nat \<Rightarrow> eval_state \<Rightarrow> eval_state" where
  "check_thdi_99th_10min row cp phase st =
     (if get0 cp (''A'' @ str_nat phase @ '' THD_99th_10min'') > tdd row * 1.5
      then fail_current ''Current THD'' ''99th Percentile (10min) > 1.5x TDD limit''
             (Some (''A'' @ str_nat phase)) st
      else st)"

definition current_harmonic_phase ::
  "c_limits \<Rightarrow> (string \<rightharpoonup> real) \<Rightarrow> nat \<Rightarrow> eval_state \<times> string list \<Rightarrow> nat \<Rightarrow> eval_state \<times> string list" where
  "current_harmonic_phase row ahp h acc phase =
     (case acc of (st, failed_phases) \<Rightarrow>
        if exceeds (get0 ahp (''A'' @ str_nat phase @ ''h'' @ str_nat h @ ''_95th''))
             (get_current_limit_for_harmonic h (Some row))
        then (st\<lparr>current_compliance := ''Fail''\<rparr>, failed_phases @ [''A'' @ str_nat phase])
        else (st, failed_phases))"

definition check_current_harmonic :: "c_limits \<Rightarrow> (string \<rightharpoonup> real) \<Rightarrow> nat \<Rightarrow> eval_state \<Rightarrow> eval_state" where
  "check_current_harmonic row ahp h st =
     (case foldl (current_harmonic_phase row ahp h) (st, []) [1, 2, 3] of
        (st1, failed_phases) \<Rightarrow>
          if failed_phases \<noteq> []
          then st1\<lparr>failing_points :=
                     add_failing_point (failing_points st1) ''Individual Current Harmonics''
                       (''Harmonic '' @ str_nat h @ '' > limit'')
                       (Some (join '', '' failed_phases)) None\<rparr>
          else st1)"

definition current_checks :: "c_limits \<Rightarrow> real \<Rightarrow> (string \<rightharpoonup> real) \<Rightarrow> (string \<rightharpoonup> real) \<Rightarrow> (eval_state \<Rightarrow> eval_state) list" where
  "current_checks row tdd_value cp ahp =
     check_tdd row tdd_value
     # concat (map (\<lambda>phase. [check_thdi_99th_3s row cp phase, check_thdi_95th_10min row cp phase,
                             check_thdi_99th_10min row cp phase]) [1, 2, 3])
     @ map (check_current_harmonic row ahp) [2..<51]"

text \<open>
  The checks of one run, in the order of the source: the voltage rules when a voltage
  row applies, then the current rules when a current row was selected.
\<close>

definition all_checks ::
  "v_limits option \<Rightarrow> c_limits option \<Rightarrow> real \<Rightarrow> (string \<rightharpoonup> real) \<Rightarrow> (string \<rightharpoonup> real)
     \<Rightarrow> (string \<rightharpoonup> real) \<Rightarrow> (string \<rightharpoonup> real) \<Rightarrow> (eval_state \<Rightarrow> eval_state) list" where
  "all_checks v_table crow tdd_value vp vhp cp ahp =
     (case v_table of None \<Rightarrow> [] | Some vtab \<Rightarrow> voltage_checks vtab vp vhp)
     @ (case crow of None \<Rightarrow> [] | Some row \<Rightarrow> current_checks row tdd_value cp ahp)"

definition run_checks :: "(eval_state \<Rightarrow> eval_state) list \<Rightarrow> eval_state \<Rightarrow> eval_state" where
  "run_checks checks st = foldl (\<lambda>s check. check s) st checks"

section \<open>The report\<close>

text \<open>\<open>to_numeric_safe(clean_df.get(name, default))\<close>, the default given by its cells.\<close>

definition get_numeric :: "runtime \<Rightarrow> clean_frame \<Rightarrow> string \<Rightarrow> cell list \<Rightarrow> series" where
  "get_numeric rt df name default_cells =
     to_numeric_safe rt (case columns df name of None \<Rightarrow> default_cells | Some cells \<Rightarrow> cells)"

text \<open>
  \<open>apparent_power.where(apparent_power != 0, np.nan)\<close> leaves no zero divisor. The
  division aligns the two series on their index: two columns of the table share it, and
  so do the two defaults \<open>pd.Series([0])\<close>; a column and a default have no label in
  common, and the quotient is NaN at every label of the union.
\<close>

definition where_nonzero :: "series \<Rightarrow> series" where
  "where_nonzero xs = map (\<lambda>v. if v \<noteq> Some 0 then v else None) xs"

definition divide_series :: "series \<Rightarrow> series \<Rightarrow> series" where
  "divide_series xs ys =
     map (\<lambda>(a, b). case a of None \<Rightarrow> None
                   | Some x \<Rightarrow> (case b of None \<Rightarrow> None | Some y \<Rightarrow> Some (x / y)))
         (zip xs ys)"

definition power_factors :: "runtime \<Rightarrow> clean_frame \<Rightarrow> series" where
  "power_factors rt df =
     (let active_power = get_numeric rt df ''W Total'' [Num 0];
          apparent_power = get_numeric rt df ''VA Total'' [Num 0]
      in if (columns df ''W Total'' = None) = (columns df ''VA Total'' = None)
         then divide_series active_power (where_nonzero apparent_power)
         else replicate (length active_power + length apparent_power) None)"

record summary =
  u1_rms_avg :: real
  u2_rms_avg :: real
  u3_rms_avg :: real
  v1_rms_avg :: real
  v2_rms_avg :: real
  v3_rms_avg :: real
  a1_rms_avg :: real
  a2_rms_avg :: real
  a3_rms_avg :: real
  a1_rms_max :: real
  a2_rms_max :: real
  a3_rms_max :: real
  active_power_avg :: real
  reactive_power_avg :: real
  apparent_power_avg :: real
  active_energy_total :: real
  reactive_energy_total :: real
  apparent_energy_total :: real
  thdv_percent_avg :: real
  thdi_percent_avg :: real
  power_factor_avg :: real

definition avg_of :: "runtime \<Rightarrow> clean_frame \<Rightarrow> string \<Rightarrow> real" where
  "avg_of rt df name = nan_to_zero (mean (get_numeric rt df name []))"

definition max_of :: "runtime \<Rightarrow> clean_frame \<Rightarrow> string \<Rightarrow> real" where
  "max_of rt df name = nan_to_zero (max_series (get_numeric rt df name []))"

definition last_of :: "runtime \<Rightarrow> clean_frame \<Rightarrow> string \<Rightarrow> real" where
  "last_of rt df name = nan_to_zero (get_last_value_safe (get_numeric rt df name []))"

definition summary_of :: "runtime \<Rightarrow> clean_frame \<Rightarrow> real \<Rightarrow> real \<Rightarrow> summary" where
  "summary_of rt clean_df thdv_overall thdi_overall =
     \<lparr>u1_rms_avg = avg_of rt clean_df ''U1 RMS'',
      u2_rms_avg = avg_of rt clean_df ''U2 RMS'',
      u3_rms_avg = avg_of rt clean_df ''U3 RMS'',
      v1_rms_avg = avg_of rt clean_df ''V1 RMS'',
      v2_rms_avg = avg_of rt clean_df ''V2 RMS'',
      v3_rms_avg = avg_of rt clean_df ''V3 RMS'',
      a1_rms_avg = avg_of rt clean_df ''A1 RMS'',
      a2_rms_avg = avg_of rt clean_df ''A2 RMS'',
      a3_rms_avg = avg_of rt clean_df ''A3 RMS'',
      a1_rms_max = max_of rt clean_df ''A1 RMS'',
      a2_rms_max = max_of rt clean_df ''A2 RMS'',
      a3_rms_max = max_of rt clean_df ''A3 RMS'',
      active_power_avg = avg_of rt clean_df ''W Total'',
      reactive_power_avg = avg_of rt clean_df ''var Total'',
      apparent_power_avg = avg_of rt clean_df ''VA Total'',
      active_energy_total = last_of rt clean_df ''Wh Total'',
      reactive_energy_total = last_of rt clean_df ''varh Total'',
      apparent_energy_total = last_of rt clean_df ''VAh Total'',
      thdv_percent_avg = nan_to_zero (Some thdv_overall),
      thdi_percent_avg = nan_to_zero (Some thdi_overall),
      power_factor_avg = nan_to_zero (mean (power_factors rt clean_df))\<rparr>"

text \<open>
  \<open>generate_recommendations\<close> reads the two verdicts and the average power factor of the
  summary; \<open>None\<close> is a summary without one, for which the source takes 1.0.
\<close>

definition generate_recommendations :: "string \<Rightarrow> string \<Rightarrow> real option \<Rightarrow> string list" where
  "generate_recommendations voltage current pf =
     (let r1 = (if voltage = ''Fail''
                then [''Investigate voltage sources for harmonic distortion. Consider passive or active harmonic filters.'']
                else []);
          r2 = r1 @ (if current = ''Fail''
                then [''Identify non-linear loads causing current distortion. Consider installing harmonic filters.'']
                else []);
          r3 = r2 @ (if (case pf of None \<Rightarrow> 1.0 | Some x \<Rightarrow> x) < 0.95
                then [''Improve power factor by installing capacitor banks or using active power factor correction (PFC).'']
                else [])
      in if r3 = []
         then [''System power quality appears to be in good condition. Continuous monitoring is recommended.'']
         else r3)"

text \<open>
  \<open>series_to_json_list\<close> passes \<open>clean_df.get(col_name)\<close> on without a default: for a
  missing column \<open>pd.to_numeric(None, errors='coerce')\<close> is a scalar, which has no
  \<open>fillna\<close>, and the call raises AttributeError.
\<close>

definition series_to_json_list :: "runtime \<Rightarrow> clean_frame \<Rightarrow> string \<Rightarrow> error + series" where
  "series_to_json_list rt clean_df col_name =
     (case columns clean_df col_name of
        None \<Rightarrow> Inl AttributeError
      | Some cells \<Rightarrow> Inr (fillna 0 (to_numeric_safe rt cells)))"

text \<open>The groups of \<open>trend_data\<close> and their columns, in the order the source evaluates them.\<close>

definition TREND_GROUPS :: "(string \<times> string list) list" where
  "TREND_GROUPS =
    [(''voltage_ll'', [''U1 RMS'', ''U2 RMS'', ''U3 RMS'']),
     (''voltage_ln'', [''V1 RMS'', ''V2 RMS'', ''V3 RMS'']),
     (''current'', [''A1 RMS'', ''A2 RMS'', ''A3 RMS'']),
     (''active_power'', [''W Total'']),
     (''reactive_power'', [''var Total'']),
     (''apparent_power'', [''VA Total'']),
     (''active_energy'', [''Wh Total'']),
     (''reactive_energy'', [''varh Total'']),
     (''apparent_energy'', [''VAh Total'']),
     (''thdv_percent'', [''U1 THD'', ''U2 THD'', ''U3 THD'']),
     (''thdi_percent'', [''A1 THD'', ''A2 THD'', ''A3 THD'']),
     (''power_factor'', [''PF1'', ''PF2'', ''PF3'', ''PF Mean'']),
     (''unbalance'', [''Vunb'', ''Aunb''])]"

fun collect :: "('a \<Rightarrow> error + 'b) \<Rightarrow> 'a list \<Rightarrow> error + 'b list" where
  "collect f [] = Inr []"
| "collect f (x # xs) =
     (case f x of
        Inl e \<Rightarrow> Inl e
      | Inr y \<Rightarrow> (case collect f xs of Inl e \<Rightarrow> Inl e | Inr ys \<Rightarrow> Inr (y # ys)))"

definition trend_group ::
  "runtime \<Rightarrow> clean_frame \<Rightarrow> string \<times> string list \<Rightarrow> error + (string \<times> (string \<times> series) list)" where
  "trend_group rt clean_df g =
     (case g of (name, cols) \<Rightarrow>
        (case collect (\<lambda>c. case series_to_json_list rt clean_df c of
                              Inl e \<Rightarrow> Inl e | Inr xs \<Rightarrow> Inr (c, xs)) cols of
           Inl e \<Rightarrow> Inl e
         | Inr entries \<Rightarrow> Inr (name, entries)))"

record trend_data =
  timestamps :: "string list"
  groups :: "(string \<times> (string \<times> series) list) list"

definition build_trend_data :: "runtime \<Rightarrow> clean_frame \<Rightarrow> error + trend_data" where
  "build_trend_data rt clean_df =
     (let timestamps_list = map (strftime rt) (index clean_df)
      in case collect (trend_group rt clean_df) TREND_GROUPS of
           Inl e \<Rightarrow> Inl e
         | Inr gs \<Rightarrow> Inr \<lparr>timestamps = timestamps_list, groups = gs\<rparr>)"

text \<open>One bar per harmonic order: \<open>np.mean\<close> of the three phase values.\<close>

definition bar_chart_data :: "(string \<rightharpoonup> real) \<Rightarrow> string \<Rightarrow> real list" where
  "bar_chart_data percentiles prefix =
     map (\<lambda>h. let h_values = map (\<lambda>p. get0 percentiles (prefix @ str_nat p @ ''h'' @ str_nat h @ ''_95th''))
                                [1, 2, 3]
              in if h_values \<noteq> []
                 then nan_to_zero (Some (sum_list h_values / real (length h_values)))
                 else 0.0)
         [2..<51]"

record report = eval_state +
  thdv_percent :: real
  tdd_percent :: real
  summary_stats :: summary
  bar_labels :: "nat list"
  vh_data :: "real list"
  ah_data :: "real list"
  trend :: trend_data
  recommendations :: "string list"

section \<open>The main analysis function\<close>

definition voltage_thd_percentiles :: "runtime \<Rightarrow> clean_frame \<Rightarrow> (string \<rightharpoonup> real)" where
  "voltage_thd_percentiles rt clean_df = calculate_thd_percentiles rt clean_df ''U'' True True"

definition current_thd_percentiles :: "runtime \<Rightarrow> clean_frame \<Rightarrow> (string \<rightharpoonup> real)" where
  "current_thd_percentiles rt clean_df = calculate_thd_percentiles rt clean_df ''A'' True True"

definition vh_individual_percentiles :: "runtime \<Rightarrow> frame \<Rightarrow> (string \<rightharpoonup> real)" where
  "vh_individual_percentiles rt df_vh_harmonics =
     calculate_individual_harmonic_percentiles rt df_vh_harmonics ''V'' 95"

definition ah_individual_percentiles :: "runtime \<Rightarrow> frame \<Rightarrow> (string \<rightharpoonup> real)" where
  "ah_individual_percentiles rt df_ah_harmonics =
     calculate_individual_harmonic_percentiles rt df_ah_harmonics ''A'' 95"

definition thdv_overall_of :: "runtime \<Rightarrow> clean_frame \<Rightarrow> real" where
  "thdv_overall_of rt clean_df = get0 (voltage_thd_percentiles rt clean_df) ''U1 THD_95th_10min''"

definition thdi_overall_of :: "runtime \<Rightarrow> clean_frame \<Rightarrow> real" where
  "thdi_overall_of rt clean_df = get0 (current_thd_percentiles rt clean_df) ''A1 THD_95th_10min''"

definition tdd_of :: "runtime \<Rightarrow> clean_frame \<Rightarrow> real \<Rightarrow> real" where
  "tdd_of rt clean_df il =
     compute_tdd (get0 (current_thd_percentiles rt clean_df) ''A1 THD_95th_10min'')
       (a1_rms_avg (summary_of rt clean_df (thdv_overall_of rt clean_df) (thdi_overall_of rt clean_df)))
       il"

text \<open>The checks of a run on its inputs, and the state after the last of them.\<close>

definition checks_of_run ::
  "runtime \<Rightarrow> clean_frame \<Rightarrow> frame \<Rightarrow> frame \<Rightarrow> real \<Rightarrow> real \<Rightarrow> real
     \<Rightarrow> (eval_state \<Rightarrow> eval_state) list" where
  "checks_of_run rt clean_df df_vh_harmonics df_ah_harmonics nominal_voltage isc il =
     all_checks (v_limit_table nominal_voltage) (c_limit_row nominal_voltage isc il)
       (tdd_of rt clean_df il)
       (voltage_thd_percentiles rt clean_df) (vh_individual_percentiles rt df_vh_harmonics)
       (current_thd_percentiles rt clean_df) (ah_individual_percentiles rt df_ah_harmonics)"

definition evaluate_compliance ::
  "runtime \<Rightarrow> clean_frame \<Rightarrow> frame \<Rightarrow> frame \<Rightarrow> real \<Rightarrow> real \<Rightarrow> real \<Rightarrow> eval_state" where
  "evaluate_compliance rt clean_df df_vh_harmonics df_ah_harmonics nominal_voltage isc il =
     run_checks
       (checks_of_run rt clean_df df_vh_harmonics df_ah_harmonics nominal_voltage isc il)
       initial_state"

definition analyze_full_data ::
  "runtime \<Rightarrow> (string \<rightharpoonup> frame) \<Rightarrow> real \<Rightarrow> real \<Rightarrow> real \<Rightarrow> error + report" where
  "analyze_full_data rt dfs nominal_voltage isc il =
     (case dfs ''Trend'' of None \<Rightarrow> Inl (ValueError ''Missing required worksheets.'')
      | Some df_trend \<Rightarrow>
     (case dfs ''Vh Harmonic %'' of None \<Rightarrow> Inl (ValueError ''Missing required worksheets.'')
      | Some df_vh_harmonics \<Rightarrow>
     (case dfs ''Ah Harmonic %'' of None \<Rightarrow> Inl (ValueError ''Missing required worksheets.'')
      | Some df_ah_harmonics \<Rightarrow>
        let clean_df = clean_trend rt df_trend;
            thdv_overall = thdv_overall_of rt clean_df;
            thdi_overall = thdi_overall_of rt clean_df;
            stats = summary_of rt clean_df thdv_overall thdi_overall;
            tdd_value = tdd_of rt clean_df il;
            st = evaluate_compliance rt clean_df df_vh_harmonics df_ah_harmonics
                   nominal_voltage isc il
        in case build_trend_data rt clean_df of
             Inl e \<Rightarrow> Inl e
           | Inr td \<Rightarrow>
               Inr \<lparr>voltage_compliance = voltage_compliance st,
                    current_compliance = current_compliance st,
                    failing_points = failing_points st,
                    thdv_percent = nan_to_zero (Some thdv_overall),
                    tdd_percent = nan_to_zero (Some tdd_value),
                    summary_stats = stats,
                    bar_labels = [2..<51],
                    vh_data = bar_chart_data (vh_individual_percentiles rt df_vh_harmonics) ''V'',
                    ah_data = bar_chart_data (ah_individual_percentiles rt df_ah_harmonics) ''A'',
                    trend = td,
                    recommendations =
                      generate_recommendations (voltage_compliance st) (current_compliance st)
                        (Some (power_factor_avg stats))\<rparr>)))"

section \<open>Notions used in the statements\<close>

text \<open>The entry of a category and description, and whether a phase is listed in it.\<close>

definition lookup_entry :: "failing_points \<Rightarrow> string \<Rightarrow> string \<Rightarrow> failing_entry option" where
  "lookup_entry fp category description =
     (case map_of fp category of None \<Rightarrow> None | Some ds \<Rightarrow> map_of ds description)"

definition recorded :: "failing_points \<Rightarrow> string \<Rightarrow> string \<Rightarrow> string \<Rightarrow> bool" where
  "recorded fp category description phase =
     (case lookup_entry fp category description of
        None \<Rightarrow> False
      | Some e \<Rightarrow> phase \<in> set (phases e))"

text \<open>
  The effect of a check on the state: whether it sets the voltage verdict, whether it sets
  the current verdict, and the failing point it adds.
\<close>

definition outcome ::
  "bool \<Rightarrow> bool \<Rightarrow> (string \<times> string \<times> string option) option \<Rightarrow> eval_state \<Rightarrow> eval_state" where
  "outcome vf cf pt st =
     st\<lparr>voltage_compliance := (if vf then ''Fail'' else voltage_compliance st),
        current_compliance := (if cf then ''Fail'' else current_compliance st),
        failing_points :=
          (case pt of None \<Rightarrow> failing_points st
           | Some (c, d, ph) \<Rightarrow> add_failing_point (failing_points st) c d ph None)\<rparr>"

definition failed_voltage_phases :: "v_limits \<Rightarrow> (string \<rightharpoonup> real) \<Rightarrow> nat \<Rightarrow> string list" where
  "failed_voltage_phases vtab vhp h =
     map (\<lambda>p. ''V'' @ str_nat p)
       (filter (\<lambda>p. get0 vhp (''V'' @ str_nat p @ ''h'' @ str_nat h @ ''_95th'') > individual vtab) [1, 2, 3])"

definition failed_current_phases :: "c_limits \<Rightarrow> (string \<rightharpoonup> real) \<Rightarrow> nat \<Rightarrow> string list" where
  "failed_current_phases row ahp h =
     map (\<lambda>p. ''A'' @ str_nat p)
       (filter (\<lambda>p. exceeds (get0 ahp (''A'' @ str_nat p @ ''h'' @ str_nat h @ ''_95th''))
                      (get_current_limit_for_harmonic h (Some row))) [1, 2, 3])"

definition chart_columns :: "string list" where
  "chart_columns = concat (map snd TREND_GROUPS)"

text \<open>
  The texts that the timestamp format \<open>%d/%m/%Y %H:%M:%S\<close> of line 233 can match. The
  format has two slashes and no directive matches one, so a matching text has exactly
  three fields between slashes: a day (digits, or a space and one digit), a month (digits),
  and a year (digits) followed by white space and a time of day without white space.
  \<open>decimal_text\<close> are the texts that \<open>int\<close> accepts at least: decimal digits, white space
  around them allowed.
\<close>

definition digit_of :: "char \<Rightarrow> nat option" where
  "digit_of c = (let n = (of_char c :: nat) in if 48 \<le> n \<and> n \<le> 57 then Some (n - 48) else None)"

definition is_digit :: "char \<Rightarrow> bool" where
  "is_digit c = (digit_of c \<noteq> None)"

definition is_space :: "char \<Rightarrow> bool" where
  "is_space c = ((of_char c :: nat) \<in> set [9, 10, 11, 12, 13, 28, 29, 30, 31, 32, 133, 160])"

definition decimal_text :: "string \<Rightarrow> bool" where
  "decimal_text s =
     (let t = dropWhile is_space s
      in takeWhile is_digit t \<noteq> [] \<and> list_all is_space (dropWhile is_digit t))"





fun digits_value :: "nat \<Rightarrow> string \<Rightarrow> nat option" where
  "digits_value acc [] = Some acc"
| "digits_value acc (c # cs) =
     (case digit_of c of None \<Rightarrow> None | Some d \<Rightarrow> digits_value (10 * acc + d) cs)"

section \<open>Sample inputs\<close>

text \<open>
  A runtime for concrete runs. It agrees with Python and pandas on every string of the
  sample tables below: \<open>int\<close> on strings of ASCII digits (white space around them is
  ignored), the three timestamps of the first of January 2023 (in seconds since the epoch)
  and their renderings; every other text of the samples is neither a number nor a timestamp. No sample has a number in its \<open>Date\<close>
  or \<open>Time\<close> column, so \<open>float_to_str\<close> is never called.
\<close>

definition ascii_int :: "string \<Rightarrow> int option" where
  "ascii_int s =
     (if decimal_text s
      then map_option int (digits_value 0 (takeWhile is_digit (dropWhile is_space s)))
      else None)"

definition sample_runtime :: runtime where
  "sample_runtime =
     \<lparr>py_int = ascii_int,
      str_to_float = (\<lambda>s. None),
      float_to_str = (\<lambda>r. []),
      to_datetime = map_of [(''01/01/2023 00:00:00'', 1672531200),
                            (''01/01/2023 00:00:03'', 1672531203),
                            (''01/01/2023 00:10:00'', 1672531800)],
      strftime = (\<lambda>t. if t = 1672531200 then ''2023-01-01 00:00:00''
                      else if t = 1672531203 then ''2023-01-01 00:00:03''
                      else if t = 1672531800 then ''2023-01-01 00:10:00'' else [])\<rparr>"

text \<open>
  The rows of the raw trend table that the cleaned table keeps, row by row: a row is kept
  when its timestamp parsed and did not occur in an earlier row.
\<close>

fun kept_mask :: "int list \<Rightarrow> int option list \<Rightarrow> bool list" where
  "kept_mask seen [] = []"
| "kept_mask seen (None # ss) = False # kept_mask seen ss"
| "kept_mask seen (Some t # ss) = (t \<notin> set seen) # kept_mask (t # seen) ss"

text \<open>A dictionary of percentiles all of whose values are zero.\<close>

definition all_zero :: "(string \<rightharpoonup> real) \<Rightarrow> bool" where
  "all_zero d = (\<forall>k v. d k = Some v \<longrightarrow> v = 0)"

text \<open>
  Trend tables of two rows, three seconds apart, with every charted channel: the channels
  that are not listed hold no data.
\<close>

definition blank_channels :: "(string \<times> cell list) list" where
  "blank_channels = map (\<lambda>c. (c, [Blank, Blank])) chart_columns"

definition sample_stamps :: "(string \<times> cell list) list" where
  "sample_stamps =
     [(''Date'', [Text ''01/01/2566'', Text ''01/01/2566'']),
      (''Time'', [Text ''00:00:00'', Text ''00:00:03''])]"

definition zero_thd :: "(string \<times> cell list) list" where
  "zero_thd =
     [(''U1 THD'', [Num 0, Num 0]), (''U2 THD'', [Num 0, Num 0]), (''U3 THD'', [Num 0, Num 0]),
      (''A1 THD'', [Num 0, Num 0]), (''A2 THD'', [Num 0, Num 0]), (''A3 THD'', [Num 0, Num 0])]"

text \<open>Constant U1 RMS of 230 V, no distortion, a power factor of 0.95.\<close>

definition quiet_trend :: frame where
  "quiet_trend =
     map_of (sample_stamps @ [(''U1 RMS'', [Num 230, Num 230])] @ zero_thd
             @ [(''W Total'', [Num 950, Num 950]), (''VA Total'', [Num 1000, Num 1000])]
             @ blank_channels)"

text \<open>The same without power data.\<close>

definition powerless_trend :: frame where
  "powerless_trend =
     map_of (sample_stamps @ [(''U1 RMS'', [Num 230, Num 230])] @ zero_thd @ blank_channels)"

text \<open>The same with the measured columns only: the other charted channels are absent.\<close>

definition bare_trend :: frame where
  "bare_trend = map_of (sample_stamps @ [(''U1 RMS'', [Num 230, Num 230])] @ zero_thd)"

text \<open>Heavy distortion on every phase.\<close>

definition loud_trend :: frame where
  "loud_trend =
     map_of (sample_stamps @
       [(''U1 THD'', [Num 100, Num 100]), (''U2 THD'', [Num 100, Num 100]),
        (''U3 THD'', [Num 100, Num 100]),
        (''A1 THD'', [Num 100, Num 100]), (''A2 THD'', [Num 100, Num 100]),
        (''A3 THD'', [Num 100, Num 100]),
        (''A1 RMS'', [Num 100, Num 100])] @ blank_channels)"

definition no_harmonics :: frame where
  "no_harmonics = Map.empty"

text \<open>Harmonic tables with the orders 5 and 7 of phase 1 at 50 percent.\<close>

definition vh_5_7 :: frame where
  "vh_5_7 = map_of [(''V1h5'', [Num 50]), (''V1h7'', [Num 50])]"

definition ah_5_7 :: frame where
  "ah_5_7 = map_of [(''A1h5'', [Num 50]), (''A1h7'', [Num 50])]"

definition sheets :: "frame \<Rightarrow> frame \<Rightarrow> frame \<Rightarrow> (string \<rightharpoonup> frame)" where
  "sheets t vh ah = [''Trend'' \<mapsto> t, ''Vh Harmonic %'' \<mapsto> vh, ''Ah Harmonic %'' \<mapsto> ah]"






text \<open>Heavy distortion on phase 1 only: the table above with the other phases at zero.\<close>

definition single_phase_trend :: frame where
  "single_phase_trend =
     loud_trend(''U2 THD'' \<mapsto> [Num 0, Num 0], ''U3 THD'' \<mapsto> [Num 0, Num 0],
                ''A2 THD'' \<mapsto> [Num 0, Num 0], ''A3 THD'' \<mapsto> [Num 0, Num 0])"

section \<open>Coercion, percentiles and means\<close>

lemma numbers_Nil: "numbers [] = []"
  by (simp add: numbers_def)

lemma numbers_all_None: "\<forall>v\<in>set xs. v = None \<Longrightarrow> numbers xs = []"
  by (induction xs) (auto simp: numbers_def)

lemma numbers_replicate: "numbers (replicate n (Some x)) = replicate n x"
  by (induction n) (auto simp: numbers_def)

lemma length_to_numeric_safe: "length (to_numeric_safe rt col) = length col"
  by (simp add: to_numeric_safe_def fillna_def)

lemma to_numeric_safe_nth:
  "i < length col \<Longrightarrow>
   to_numeric_safe rt col ! i = Some (case to_numeric rt (col ! i) of None \<Rightarrow> 0 | Some x \<Rightarrow> x)"
  by (simp add: to_numeric_safe_def fillna_def split: option.splits)

lemma to_numeric_safe_all_missing:
  "\<forall>c\<in>set col. to_numeric rt c = None \<Longrightarrow>
   to_numeric_safe rt col = replicate (length col) (Some 0)"
  by (induction col) (auto simp: to_numeric_safe_def fillna_def)

lemma mean_all_zero: "nan_to_zero (mean (replicate n (Some 0))) = 0"
  by (simp add: mean_def nan_to_zero_def numbers_replicate sum_list_replicate Let_def)

lemma get_percentile_safe_missing:
  "xs = [] \<or> (\<forall>v\<in>set xs. v = None) \<Longrightarrow> get_percentile_safe xs p = 0"
  by (simp add: get_percentile_safe_def)

lemma mean_missing: "xs = [] \<or> (\<forall>v\<in>set xs. v = None) \<Longrightarrow> nan_to_zero (mean xs) = 0"
  by (auto simp: mean_def nan_to_zero_def numbers_all_None numbers_Nil)

lemma avg_of_missing:
  assumes "columns df name = None \<or> columns df name = Some [] \<or>
           (\<exists>cells. columns df name = Some cells \<and> (\<forall>c\<in>set cells. to_numeric rt c = None))"
  shows "avg_of rt df name = 0"
proof -
  have "get_numeric rt df name [] = [] \<or>
        (\<exists>n. get_numeric rt df name [] = replicate n (Some 0))"
    using assms
    by (auto simp: get_numeric_def to_numeric_safe_all_missing to_numeric_safe_def [of rt "[]"]
          fillna_def)
  then show ?thesis
    by (auto simp: avg_of_def mean_all_zero mean_missing)
qed

text \<open>
  Claim C9. For an empty series and for a series of NaN only, \<open>get_percentile_safe\<close> is
  0.0, and so is the mean followed by \<open>nan_to_zero\<close>; the same holds for the mean of a
  column that is missing, empty or without a single parsable cell, after coercion. The
  results are numbers (never NaN) and the functions are total (never an exception).
  \<open>to_numeric_safe\<close> keeps the length of the column, puts 0 where a cell does not parse
  and the number where it does.
\<close>

theorem empty_or_missing_series_give_zero:
  "(xs = [] \<or> (\<forall>v\<in>set xs. v = None) \<longrightarrow>
      get_percentile_safe xs p = 0 \<and> nan_to_zero (mean xs) = 0)
   \<and> (col = [] \<or> (\<forall>c\<in>set col. to_numeric rt c = None) \<longrightarrow>
      nan_to_zero (mean (to_numeric_safe rt col)) = 0
      \<and> get_percentile_safe (dropna (map (to_numeric rt) col)) p = 0)
   \<and> (columns df name = None \<or> columns df name = Some col \<and>
        (col = [] \<or> (\<forall>c\<in>set col. to_numeric rt c = None)) \<longrightarrow> avg_of rt df name = 0)
   \<and> length (to_numeric_safe rt cells) = length cells
   \<and> (\<forall>i < length cells.
        (to_numeric rt (cells ! i) = None \<longrightarrow> to_numeric_safe rt cells ! i = Some 0)
        \<and> (\<forall>x. to_numeric rt (cells ! i) = Some x \<longrightarrow> to_numeric_safe rt cells ! i = Some x))"
proof -
  have a: "xs = [] \<or> (\<forall>v\<in>set xs. v = None) \<longrightarrow>
      get_percentile_safe xs p = 0 \<and> nan_to_zero (mean xs) = 0"
    using get_percentile_safe_missing mean_missing by blast
  have b: "col = [] \<or> (\<forall>c\<in>set col. to_numeric rt c = None) \<longrightarrow>
      nan_to_zero (mean (to_numeric_safe rt col)) = 0
      \<and> get_percentile_safe (dropna (map (to_numeric rt) col)) p = 0"
  proof
    assume h: "col = [] \<or> (\<forall>c\<in>set col. to_numeric rt c = None)"
    then have all: "\<forall>c\<in>set col. to_numeric rt c = None" by auto
    have "dropna (map (to_numeric rt) col) = []"
      using all by (induction col) (auto simp: dropna_def)
    then show "nan_to_zero (mean (to_numeric_safe rt col)) = 0
      \<and> get_percentile_safe (dropna (map (to_numeric rt) col)) p = 0"
      using all by (simp add: to_numeric_safe_all_missing mean_all_zero get_percentile_safe_def)
  qed
  have c: "columns df name = None \<or> columns df name = Some col \<and>
        (col = [] \<or> (\<forall>c\<in>set col. to_numeric rt c = None)) \<longrightarrow> avg_of rt df name = 0"
    using avg_of_missing [of df name rt] by auto
  have d: "\<forall>i < length cells.
        (to_numeric rt (cells ! i) = None \<longrightarrow> to_numeric_safe rt cells ! i = Some 0)
        \<and> (\<forall>x. to_numeric rt (cells ! i) = Some x \<longrightarrow> to_numeric_safe rt cells ! i = Some x)"
    by (simp add: to_numeric_safe_nth)
  show ?thesis
    by (intro conjI) (rule a, rule b, rule c, rule length_to_numeric_safe, rule d)
qed

section \<open>Failing points\<close>

lemma map_of_upsert:
  "map_of (upsert k d f kvs) k' =
     (if k' = k then Some (f (case map_of kvs k of None \<Rightarrow> d | Some v \<Rightarrow> v)) else map_of kvs k')"
  by (induction kvs) auto

lemma keys_upsert: "fst ` set (upsert k d f kvs) = insert k (fst ` set kvs)"
  by (induction kvs) force+

lemma distinct_upsert: "distinct (map fst kvs) \<Longrightarrow> distinct (map fst (upsert k d f kvs))"
proof (induction kvs)
  case Nil
  then show ?case by simp
next
  case (Cons a kvs)
  obtain k' v where a: "a = (k', v)" by (cases a)
  have "fst ` set (upsert k d f kvs) = insert k (fst ` set kvs)" by (rule keys_upsert)
  with Cons a show ?case by auto
qed

lemma lookup_entry_add:
  "lookup_entry (add_failing_point fp c d ph h) c' d' =
     (if c' = c \<and> d' = d
      then Some (add_ids ph h (case lookup_entry fp c d of
                                 None \<Rightarrow> \<lparr>phases = [], harmonics = []\<rparr> | Some e \<Rightarrow> e))
      else lookup_entry fp c' d')"
  by (auto simp: lookup_entry_def add_failing_point_def map_of_upsert split: option.splits)

lemma add_ids_distinct:
  "distinct (phases e) \<Longrightarrow> distinct (harmonics e) \<Longrightarrow>
   distinct (phases (add_ids ph h e)) \<and> distinct (harmonics (add_ids ph h e))"
  by (auto simp: add_ids_def Let_def split: option.splits)

lemma add_ids_phases_mono: "p \<in> set (phases e) \<Longrightarrow> p \<in> set (phases (add_ids ph h e))"
  by (auto simp: add_ids_def Let_def split: option.splits)

lemma add_ids_phase_in: "p \<noteq> [] \<Longrightarrow> p \<in> set (phases (add_ids (Some p) h e))"
  by (auto simp: add_ids_def Let_def split: option.splits)

lemma recorded_add_mono:
  "recorded fp c' d' p \<Longrightarrow> recorded (add_failing_point fp c d ph h) c' d' p"
  by (auto simp: recorded_def lookup_entry_add add_ids_phases_mono split: option.splits)

lemma recorded_add_new:
  "p \<noteq> [] \<Longrightarrow> recorded (add_failing_point fp c d (Some p) h) c d p"
  by (auto simp: recorded_def lookup_entry_add add_ids_phase_in split: option.splits)

section \<open>The effect of each check\<close>

lemma outcome_id: "outcome False False None = (\<lambda>st. st)"
  by (rule ext) (simp add: outcome_def)

lemma check_thdv_99th_3s_outcome:
  "check_thdv_99th_3s vtab vp p =
     (let b = get0 vp (''U'' @ str_nat p @ '' THD_99th_3s'') > thd vtab * 1.5
      in outcome b False
           (if b then Some (''Voltage THD'', ''99th Percentile (3s) > 1.5x limit'', Some (''U'' @ str_nat p))
            else None))"
  by (rule ext) (simp add: check_thdv_99th_3s_def outcome_def fail_voltage_def Let_def)

lemma check_thdv_95th_10min_outcome:
  "check_thdv_95th_10min vtab vp p =
     (let b = get0 vp (''U'' @ str_nat p @ '' THD_95th_10min'') > thd vtab
      in outcome b False
           (if b then Some (''Voltage THD'', ''95th Percentile (10min) > limit'', Some (''U'' @ str_nat p))
            else None))"
  by (rule ext) (simp add: check_thdv_95th_10min_def outcome_def fail_voltage_def Let_def)

lemma foldl_voltage_harmonic_phase:
  "foldl (voltage_harmonic_phase vtab vhp h) (st, acc) ps =
     (if filter (\<lambda>p. get0 vhp (''V'' @ str_nat p @ ''h'' @ str_nat h @ ''_95th'') > individual vtab) ps = []
      then st else st\<lparr>voltage_compliance := ''Fail''\<rparr>,
      acc @ map (\<lambda>p. ''V'' @ str_nat p)
             (filter (\<lambda>p. get0 vhp (''V'' @ str_nat p @ ''h'' @ str_nat h @ ''_95th'') > individual vtab) ps))"
  by (induction ps arbitrary: st acc) (auto simp: voltage_harmonic_phase_def)

lemma check_voltage_harmonic_outcome:
  "check_voltage_harmonic vtab vhp h =
     (let fps = failed_voltage_phases vtab vhp h
      in outcome (fps \<noteq> []) False
           (if fps \<noteq> []
            then Some (''Individual Voltage Harmonics'', ''Harmonic '' @ str_nat h @ '' > limit'',
                       Some (join '', '' fps))
            else None))"
  by (rule ext)
     (simp add: check_voltage_harmonic_def foldl_voltage_harmonic_phase failed_voltage_phases_def
        outcome_def Let_def del: foldl.simps filter.simps)

lemma check_tdd_outcome:
  "check_tdd row tv =
     (let b = tv > tdd row
      in outcome False b (if b then Some (''Current TDD'', ''Overall TDD > limit'', None) else None))"
  by (rule ext) (simp add: check_tdd_def outcome_def fail_current_def Let_def)

lemma check_thdi_99th_3s_outcome:
  "check_thdi_99th_3s row cp p =
     (let b = get0 cp (''A'' @ str_nat p @ '' THD_99th_3s'') > tdd row * 2
      in outcome False b
           (if b then Some (''Current THD'', ''99th Percentile (3s) > 1.5x TDD limit'', Some (''A'' @ str_nat p))
            else None))"
  by (rule ext) (simp add: check_thdi_99th_3s_def outcome_def fail_current_def Let_def)

lemma check_thdi_95th_10min_outcome:
  "check_thdi_95th_10min row cp p =
     (let b = get0 cp (''A'' @ str_nat p @ '' THD_95th_10min'') > tdd row
      in outcome False b
           (if b then Some (''Current THD'', ''95th Percentile (10min) > TDD limit'', Some (''A'' @ str_nat p))
            else None))"
  by (rule ext) (simp add: check_thdi_95th_10min_def outcome_def fail_current_def Let_def)

lemma check_thdi_99th_10min_outcome:
  "check_thdi_99th_10min row cp p =
     (let b = get0 cp (''A'' @ str_nat p @ '' THD_99th_10min'') > tdd row * 1.5
      in outcome False b
           (if b then Some (''Current THD'', ''99th Percentile (10min) > 1.5x TDD limit'', Some (''A'' @ str_nat p))
            else None))"
  by (rule ext) (simp add: check_thdi_99th_10min_def outcome_def fail_current_def Let_def)

lemma foldl_current_harmonic_phase:
  "foldl (current_harmonic_phase row ahp h) (st, acc) ps =
     (if filter (\<lambda>p. exceeds (get0 ahp (''A'' @ str_nat p @ ''h'' @ str_nat h @ ''_95th''))
                      (get_current_limit_for_harmonic h (Some row))) ps = []
      then st else st\<lparr>current_compliance := ''Fail''\<rparr>,
      acc @ map (\<lambda>p. ''A'' @ str_nat p)
             (filter (\<lambda>p. exceeds (get0 ahp (''A'' @ str_nat p @ ''h'' @ str_nat h @ ''_95th''))
                      (get_current_limit_for_harmonic h (Some row))) ps))"
  by (induction ps arbitrary: st acc) (auto simp: current_harmonic_phase_def)

lemma check_current_harmonic_outcome:
  "check_current_harmonic row ahp h =
     (let fps = failed_current_phases row ahp h
      in outcome False (fps \<noteq> [])
           (if fps \<noteq> []
            then Some (''Individual Current Harmonics'', ''Harmonic '' @ str_nat h @ '' > limit'',
                       Some (join '', '' fps))
            else None))"
  by (rule ext)
     (simp add: check_current_harmonic_def foldl_current_harmonic_phase failed_current_phases_def
        outcome_def Let_def del: foldl.simps filter.simps)

section \<open>Witnesses of the coercion properties\<close>

theorem empty_or_missing_series_give_zero_witness:
  "get_percentile_safe [None, None] 95 = 0 \<and> nan_to_zero (mean [None, None]) = 0
   \<and> nan_to_zero (mean (to_numeric_safe sample_runtime [Blank, Text ''n/a''])) = 0
   \<and> avg_of sample_runtime \<lparr>index = [], columns = Map.empty\<rparr> ''U1 RMS'' = 0
   \<and> to_numeric_safe sample_runtime [Num 5, Text ''n/a''] ! 0 = Some 5
   \<and> to_numeric_safe sample_runtime [Num 5, Text ''n/a''] ! 1 = Some 0"
proof -
  have h1: "\<forall>v\<in>set [None, None :: real option]. v = None" by simp
  have h2: "\<forall>c\<in>set [Blank, Text ''n/a'']. to_numeric sample_runtime c = None"
    by (simp add: to_numeric_def sample_runtime_def)
  have h3: "columns \<lparr>index = [], columns = Map.empty\<rparr> ''U1 RMS'' = None" by simp
  have h4: "to_numeric sample_runtime ([Num 5, Text ''n/a''] ! 0) = Some 5"
    "to_numeric sample_runtime ([Num 5, Text ''n/a''] ! 1) = None"
    by (simp_all add: to_numeric_def sample_runtime_def)
  from empty_or_missing_series_give_zero
         [of "[None, None]" 95 "[Blank, Text ''n/a'']" sample_runtime
             "\<lparr>index = [], columns = Map.empty\<rparr>" "''U1 RMS''" "[Num 5, Text ''n/a'']"]
       h1 h2 h3 h4
  show ?thesis by auto
qed

section \<open>Limit rows\<close>

lemma v_limit_table_Some: "\<exists>vtab. v_limit_table nominal_voltage = Some vtab"
  by (simp add: v_limit_table_def VOLTAGE_LIMITS_def)


lemma c_limit_row_above_69kV: "nominal_voltage > 69000 \<Longrightarrow> c_limit_row nominal_voltage isc il = None"
  by (simp add: c_limit_row_def)







section \<open>The shape of a run\<close>

lemma collect_Inr: "\<forall>x\<in>set xs. \<exists>y. f x = Inr y \<Longrightarrow> \<exists>ys. collect f xs = Inr ys"
proof (induction xs)
  case Nil
  then show ?case by simp
next
  case (Cons x xs)
  then obtain y ys where "f x = Inr y" "collect f xs = Inr ys" by auto
  then show ?case by simp
qed

lemma collect_Inl:
  assumes "x \<in> set xs" and "f x = Inl e" and same: "\<And>z e'. f z = Inl e' \<Longrightarrow> e' = e"
  shows "collect f xs = Inl e"
  using assms(1)
proof (induction xs)
  case Nil
  then show ?case by simp
next
  case (Cons a xs)
  show ?case
  proof (cases "f a")
    case (Inl e')
    then have "e' = e" by (rule same)
    with Inl show ?thesis by simp
  next
    case (Inr y)
    with assms(2) have "a \<noteq> x" by auto
    with Cons.prems have "x \<in> set xs" by simp
    then have "collect f xs = Inl e" by (rule Cons.IH)
    with Inr show ?thesis by simp
  qed
qed

lemma series_to_json_list_error: "series_to_json_list rt df c = Inl e \<Longrightarrow> e = AttributeError"
  by (auto simp: series_to_json_list_def split: option.splits)

lemma trend_group_error: "trend_group rt df g = Inl e \<Longrightarrow> e = AttributeError"
proof -
  assume a: "trend_group rt df g = Inl e"
  obtain name cols where g: "g = (name, cols)" by (cases g)
  let ?f = "\<lambda>c. case series_to_json_list rt df c of Inl e \<Rightarrow> Inl e | Inr xs \<Rightarrow> Inr (c, xs)"
  have "\<And>cs e. collect ?f cs = Inl e \<Longrightarrow> e = AttributeError"
  proof -
    fix cs e show "collect ?f cs = Inl e \<Longrightarrow> e = AttributeError"
      by (induction cs) (auto split: sum.splits dest: series_to_json_list_error)
  qed
  with a g show ?thesis
    by (auto simp: trend_group_def split: sum.splits)
qed

lemma trend_group_Inr:
  "\<forall>c\<in>set (snd g). columns df c \<noteq> None \<Longrightarrow> \<exists>y. trend_group rt df g = Inr y"
proof -
  assume a: "\<forall>c\<in>set (snd g). columns df c \<noteq> None"
  obtain name cols where g: "g = (name, cols)" by (cases g)
  let ?f = "\<lambda>c. case series_to_json_list rt df c of Inl e \<Rightarrow> Inl e | Inr xs \<Rightarrow> Inr (c, xs)"
  have "\<forall>c\<in>set cols. \<exists>y. ?f c = Inr y"
    using a g by (auto simp: series_to_json_list_def)
  then obtain ys where "collect ?f cols = Inr ys"
    using collect_Inr [of cols ?f] by blast
  with g show ?thesis by (simp add: trend_group_def)
qed

lemma trend_group_Inl:
  "c \<in> set (snd g) \<Longrightarrow> columns df c = None \<Longrightarrow> trend_group rt df g = Inl AttributeError"
proof -
  assume c: "c \<in> set (snd g)" and n: "columns df c = None"
  obtain name cols where g: "g = (name, cols)" by (cases g)
  let ?f = "\<lambda>c. case series_to_json_list rt df c of Inl e \<Rightarrow> Inl e | Inr xs \<Rightarrow> Inr (c, xs)"
  have 1: "?f c = Inl AttributeError" using n by (simp add: series_to_json_list_def)
  have 2: "\<And>z e'. ?f z = Inl e' \<Longrightarrow> e' = AttributeError"
    by (auto split: sum.splits dest: series_to_json_list_error)
  have c': "c \<in> set cols" using c g by simp
  have "collect ?f cols = Inl AttributeError"
    using c' 1 2 by (rule collect_Inl)
  with g show ?thesis by (simp add: trend_group_def)
qed

lemma build_trend_data_returns:
  assumes "\<forall>c\<in>set chart_columns. columns df c \<noteq> None"
  shows "\<exists>td. build_trend_data rt df = Inr td"
proof -
  have "\<forall>g\<in>set TREND_GROUPS. \<exists>y. trend_group rt df g = Inr y"
  proof
    fix g assume g: "g \<in> set TREND_GROUPS"
    then have "set (snd g) \<subseteq> set chart_columns" by (auto simp: chart_columns_def)
    with assms have "\<forall>c\<in>set (snd g). columns df c \<noteq> None" by blast
    then show "\<exists>y. trend_group rt df g = Inr y" by (rule trend_group_Inr)
  qed
  then obtain gs where "collect (trend_group rt df) TREND_GROUPS = Inr gs"
    using collect_Inr [of TREND_GROUPS "trend_group rt df"] by blast
  then show ?thesis by (simp add: build_trend_data_def)
qed

lemma build_trend_data_raises:
  assumes "c \<in> set chart_columns" and "columns df c = None"
  shows "build_trend_data rt df = Inl AttributeError"
proof -
  from assms(1) obtain g where g: "g \<in> set TREND_GROUPS" and c: "c \<in> set (snd g)"
    by (auto simp: chart_columns_def)
  from c assms(2) have 1: "trend_group rt df g = Inl AttributeError" by (rule trend_group_Inl)
  have 2: "\<And>z e'. trend_group rt df z = Inl e' \<Longrightarrow> e' = AttributeError"
    by (rule trend_group_error)
  have "collect (trend_group rt df) TREND_GROUPS = Inl AttributeError"
    using g 1 2 by (rule collect_Inl)
  then show ?thesis by (simp add: build_trend_data_def)
qed

lemma columns_clean_trend:
  "columns (clean_trend rt t) c = None \<longleftrightarrow> c = ''Timestamp'' \<or> t c = None"
  by (simp add: clean_trend_def Let_def)

lemma chart_column_not_Timestamp: "c \<in> set chart_columns \<Longrightarrow> c \<noteq> ''Timestamp''"
  by (auto simp: chart_columns_def TREND_GROUPS_def)

lemma analyze_missing_sheet:
  "dfs ''Trend'' = None \<or> dfs ''Vh Harmonic %'' = None \<or> dfs ''Ah Harmonic %'' = None \<Longrightarrow>
   analyze_full_data rt dfs nominal_voltage isc il = Inl (ValueError ''Missing required worksheets.'')"
  by (auto simp: analyze_full_data_def split: option.splits)

lemma analyze_missing_channel:
  assumes "dfs ''Trend'' = Some t" "dfs ''Vh Harmonic %'' = Some vh" "dfs ''Ah Harmonic %'' = Some ah"
    and "c \<in> set chart_columns" "t c = None"
  shows "analyze_full_data rt dfs nominal_voltage isc il = Inl AttributeError"
proof -
  have "columns (clean_trend rt t) c = None" using assms(5) by (simp add: columns_clean_trend)
  with assms(4) have "build_trend_data rt (clean_trend rt t) = Inl AttributeError"
    by (rule build_trend_data_raises)
  with assms(1-3) show ?thesis by (simp add: analyze_full_data_def Let_def)
qed

lemma analyze_returns:
  assumes "dfs ''Trend'' = Some t" "dfs ''Vh Harmonic %'' = Some vh" "dfs ''Ah Harmonic %'' = Some ah"
    and "\<forall>c\<in>set chart_columns. t c \<noteq> None"
  shows "\<exists>td. build_trend_data rt (clean_trend rt t) = Inr td \<and>
    analyze_full_data rt dfs nominal_voltage isc il =
      Inr \<lparr>voltage_compliance = voltage_compliance (evaluate_compliance rt (clean_trend rt t) vh ah nominal_voltage isc il),
           current_compliance = current_compliance (evaluate_compliance rt (clean_trend rt t) vh ah nominal_voltage isc il),
           failing_points = failing_points (evaluate_compliance rt (clean_trend rt t) vh ah nominal_voltage isc il),
           thdv_percent = thdv_overall_of rt (clean_trend rt t),
           tdd_percent = tdd_of rt (clean_trend rt t) il,
           summary_stats = summary_of rt (clean_trend rt t) (thdv_overall_of rt (clean_trend rt t))
                             (thdi_overall_of rt (clean_trend rt t)),
           bar_labels = [2..<51],
           vh_data = bar_chart_data (vh_individual_percentiles rt vh) ''V'',
           ah_data = bar_chart_data (ah_individual_percentiles rt ah) ''A'',
           trend = td,
           recommendations =
             generate_recommendations
               (voltage_compliance (evaluate_compliance rt (clean_trend rt t) vh ah nominal_voltage isc il))
               (current_compliance (evaluate_compliance rt (clean_trend rt t) vh ah nominal_voltage isc il))
               (Some (power_factor_avg (summary_of rt (clean_trend rt t) (thdv_overall_of rt (clean_trend rt t))
                             (thdi_overall_of rt (clean_trend rt t)))))\<rparr>"
proof -
  have "\<forall>c\<in>set chart_columns. columns (clean_trend rt t) c \<noteq> None"
    using assms(4) chart_column_not_Timestamp by (auto simp: columns_clean_trend)
  then obtain td where "build_trend_data rt (clean_trend rt t) = Inr td"
    using build_trend_data_returns by blast
  with assms(1-3) show ?thesis
    by (simp add: analyze_full_data_def Let_def nan_to_zero_def)
qed

lemma analyze_Inr_fields:
  assumes "analyze_full_data rt dfs nominal_voltage isc il = Inr r"
  shows "\<exists>t vh ah. dfs ''Trend'' = Some t \<and> dfs ''Vh Harmonic %'' = Some vh
      \<and> dfs ''Ah Harmonic %'' = Some ah
      \<and> voltage_compliance r = voltage_compliance (evaluate_compliance rt (clean_trend rt t) vh ah nominal_voltage isc il)
      \<and> current_compliance r = current_compliance (evaluate_compliance rt (clean_trend rt t) vh ah nominal_voltage isc il)
      \<and> failing_points r = failing_points (evaluate_compliance rt (clean_trend rt t) vh ah nominal_voltage isc il)
      \<and> thdv_percent r = thdv_overall_of rt (clean_trend rt t)
      \<and> tdd_percent r = tdd_of rt (clean_trend rt t) il
      \<and> summary_stats r = summary_of rt (clean_trend rt t) (thdv_overall_of rt (clean_trend rt t))
                             (thdi_overall_of rt (clean_trend rt t))
      \<and> recommendations r = generate_recommendations (voltage_compliance r) (current_compliance r)
                             (Some (power_factor_avg (summary_stats r)))"
  using assms
  by (auto simp: analyze_full_data_def Let_def nan_to_zero_def split: option.splits sum.splits)

section \<open>Evaluating the sample inputs\<close>

lemma str_nat_digit: "n < 10 \<Longrightarrow> str_nat n = [''0123456789'' ! n]"
  by (simp add: str_nat.simps digit_char_def)

lemmas str_eval =
  str_nat_digit str_nat.simps [of "numeral n" for n] digit_char_def str_int_def format_02d_def

lemma thai_sample: "thai_to_gregorian_year sample_runtime ''01/01/2566'' = ''01/01/2023''"
  by (simp add: thai_to_gregorian_year_def sample_runtime_def ascii_int_def decimal_text_def is_digit_def is_space_def
      digit_of_def str_eval)

lemma sample_row_stamps:
  "t ''Date'' = Some [Text ''01/01/2566'', Text ''01/01/2566''] \<Longrightarrow>
   t ''Time'' = Some [Text ''00:00:00'', Text ''00:00:03''] \<Longrightarrow>
   row_stamps sample_runtime t = [Some 1672531200, Some 1672531203]"
  by (simp add: row_stamps_def astype_str_def thai_sample) (simp add: sample_runtime_def)

lemma two_rows_index:
  "row_stamps rt t = [Some a, Some b] \<Longrightarrow> a \<noteq> b \<Longrightarrow> index (clean_trend rt t) = [a, b]"
  by (simp add: clean_trend_def select_def Let_def)

lemma two_rows_column:
  "row_stamps rt t = [Some a, Some b] \<Longrightarrow> a \<noteq> b \<Longrightarrow> c \<noteq> ''Timestamp'' \<Longrightarrow>
   t c = Some [x, y] \<Longrightarrow> columns (clean_trend rt t) c = Some [x, y]"
  by (simp add: clean_trend_def select_def Let_def)

lemma chart_columns_eval:
  "chart_columns =
     [''U1 RMS'', ''U2 RMS'', ''U3 RMS'', ''V1 RMS'', ''V2 RMS'', ''V3 RMS'',
      ''A1 RMS'', ''A2 RMS'', ''A3 RMS'', ''W Total'', ''var Total'', ''VA Total'',
      ''Wh Total'', ''varh Total'', ''VAh Total'', ''U1 THD'', ''U2 THD'', ''U3 THD'',
      ''A1 THD'', ''A2 THD'', ''A3 THD'', ''PF1'', ''PF2'', ''PF3'', ''PF Mean'', ''Vunb'', ''Aunb'']"
  by (simp add: chart_columns_def TREND_GROUPS_def)

lemma blank_channels_present: "c \<in> set chart_columns \<Longrightarrow> map_of blank_channels c \<noteq> None"
proof -
  assume "c \<in> set chart_columns"
  then have "c \<in> fst ` set blank_channels" by (force simp: blank_channels_def)
  then show ?thesis by (simp add: map_of_eq_None_iff)
qed

lemma map_of_append_right: "map_of ys c \<noteq> None \<Longrightarrow> map_of (xs @ ys) c \<noteq> None"
  by (induction xs) (simp_all del: map_of_append)

lemma quiet_trend_channels: "\<forall>c\<in>set chart_columns. quiet_trend c \<noteq> None"
  unfolding quiet_trend_def by (intro ballI map_of_append_right blank_channels_present)

lemma powerless_trend_channels: "\<forall>c\<in>set chart_columns. powerless_trend c \<noteq> None"
  unfolding powerless_trend_def by (intro ballI map_of_append_right blank_channels_present)

lemma loud_trend_channels: "\<forall>c\<in>set chart_columns. loud_trend c \<noteq> None"
  unfolding loud_trend_def by (intro ballI map_of_append_right blank_channels_present)

lemma sheets_simps [simp]:
  "sheets t vh ah ''Trend'' = Some t"
  "sheets t vh ah ''Vh Harmonic %'' = Some vh"
  "sheets t vh ah ''Ah Harmonic %'' = Some ah"
  by (simp_all add: sheets_def)

lemma analyze_returns_ex:
  assumes "dfs ''Trend'' = Some t" "dfs ''Vh Harmonic %'' = Some vh" "dfs ''Ah Harmonic %'' = Some ah"
    and "\<forall>c\<in>set chart_columns. t c \<noteq> None"
  shows "\<exists>r. analyze_full_data rt dfs nominal_voltage isc il = Inr r"
  using analyze_returns [OF assms] by blast

lemma analyze_sheets_returns:
  "\<forall>c\<in>set chart_columns. t c \<noteq> None \<Longrightarrow>
   \<exists>r. analyze_full_data rt (sheets t vh ah) nominal_voltage isc il = Inr r"
  by (rule analyze_returns_ex [of "sheets t vh ah" t vh ah]) simp_all

lemma analyze_sheets_raises:
  "c \<in> set chart_columns \<Longrightarrow> t c = None \<Longrightarrow>
   analyze_full_data rt (sheets t vh ah) nominal_voltage isc il = Inl AttributeError"
  by (rule analyze_missing_channel [of "sheets t vh ah" t vh ah c]) simp_all

section \<open>Total demand distortion\<close>

lemma compute_tdd_guard: "thdi \<le> 0 \<or> avg \<le> 0 \<or> il \<le> 0 \<Longrightarrow> compute_tdd thdi avg il = 0"
  by (auto simp: compute_tdd_def)

lemma compute_tdd_formula:
  "thdi > 0 \<and> avg > 0 \<and> il > 0 \<Longrightarrow>
   compute_tdd thdi avg il = (avg * ((thdi / 100) / sqrt (1 + (thdi / 100)\<^sup>2)) / il) * 100"
  by (simp add: compute_tdd_def Let_def)

lemma report_tdd:
  assumes "analyze_full_data rt dfs nominal_voltage isc il = Inr r"
  shows "tdd_percent r =
           compute_tdd (thdi_percent_avg (summary_stats r)) (a1_rms_avg (summary_stats r)) il"
proof -
  from analyze_Inr_fields [OF assms] obtain t where
    "tdd_percent r = tdd_of rt (clean_trend rt t) il"
    "summary_stats r = summary_of rt (clean_trend rt t) (thdv_overall_of rt (clean_trend rt t))
                             (thdi_overall_of rt (clean_trend rt t))"
    by blast
  then show ?thesis
    by (simp add: tdd_of_def summary_of_def thdi_overall_of_def nan_to_zero_def)
qed

text \<open>
  Claim C4. The computed TDD is 0 when the THDi, the average RMS current or Il is not
  positive; otherwise it is \<open>(avg * (f / sqrt (1 + f\<^sup>2)) / Il) * 100\<close> with \<open>f = THDi / 100\<close>.
  In a report the TDD is this function of the reported THDi (the 95th percentile of the
  ten-minute values of phase 1), the reported average current of phase 1 and Il.
\<close>

theorem tdd_guard_and_formula:
  "(thdi \<le> 0 \<or> avg \<le> 0 \<or> il \<le> 0 \<longrightarrow> compute_tdd thdi avg il = 0)
   \<and> (thdi > 0 \<and> avg > 0 \<and> il > 0 \<longrightarrow>
        compute_tdd thdi avg il = (avg * ((thdi / 100) / sqrt (1 + (thdi / 100)\<^sup>2)) / il) * 100)
   \<and> (analyze_full_data rt dfs nominal_voltage isc il = Inr r \<longrightarrow>
        tdd_percent r =
          compute_tdd (thdi_percent_avg (summary_stats r)) (a1_rms_avg (summary_stats r)) il)"
  using compute_tdd_guard compute_tdd_formula report_tdd by blast

theorem tdd_guard_and_formula_witness:
  "compute_tdd 0 100 120 = 0
   \<and> compute_tdd 5 100 120 = (100 * ((5 / 100) / sqrt (1 + (5 / 100)\<^sup>2)) / 120) * 100
   \<and> (\<exists>r. analyze_full_data sample_runtime (sheets quiet_trend no_harmonics no_harmonics) 400 1000 50
              = Inr r
          \<and> tdd_percent r =
              compute_tdd (thdi_percent_avg (summary_stats r)) (a1_rms_avg (summary_stats r)) 50)"
proof -
  obtain r where r: "analyze_full_data sample_runtime (sheets quiet_trend no_harmonics no_harmonics)
      400 1000 50 = Inr r"
    using analyze_sheets_returns [OF quiet_trend_channels] by blast
  have a: "compute_tdd 0 100 120 = 0"
    using tdd_guard_and_formula [of 0 100 120] by simp
  have b: "compute_tdd 5 100 120 = (100 * ((5 / 100) / sqrt (1 + (5 / 100)\<^sup>2)) / 120) * 100"
    using tdd_guard_and_formula [of 5 100 120] by simp
  have c: "tdd_percent r =
      compute_tdd (thdi_percent_avg (summary_stats r)) (a1_rms_avg (summary_stats r)) 50"
    using tdd_guard_and_formula [of _ _ 50 sample_runtime _ 400 1000 r] r by blast
  from a b c r show ?thesis by blast
qed

section \<open>Errors of a run\<close>

text \<open>
  Claim C1, at an input the code can receive: the three worksheets are present and the
  trend table has the columns Date, Time, U1 RMS and the six THD columns only. The run
  raises AttributeError when it converts the first absent channel for the charts.
\<close>

theorem analyze_raises_with_all_sheets_present:
  "analyze_full_data sample_runtime (sheets bare_trend no_harmonics no_harmonics) 400 1000 50
     = Inl AttributeError"
proof -
  have "''U2 RMS'' \<in> set chart_columns" by (simp add: chart_columns_eval)
  moreover have "bare_trend ''U2 RMS'' = None"
    by (simp add: bare_trend_def sample_stamps_def zero_thd_def)
  ultimately show ?thesis
    by (rule analyze_sheets_raises)
qed

section \<open>Dates and dropped rows\<close>



lemma select_Nil [simp]: "select m [] = []" "select [] xs = []"
  by (simp_all add: select_def)

lemma select_Cons [simp]:
  "select (b # m) (x # xs) = (if b then x # select m xs else select m xs)"
  by (simp add: select_def)

lemma select_kept_mask:
  "select (map Not (duplicated seen
             (map (\<lambda>s. case s of None \<Rightarrow> 0 | Some t \<Rightarrow> t) (filter (\<lambda>s. s \<noteq> None) ss))))
          (select (map (\<lambda>s. s \<noteq> None) ss) cells)
   = select (kept_mask seen ss) cells"
proof (induction ss arbitrary: seen cells)
  case Nil
  then show ?case by simp
next
  case (Cons a ss)
  show ?case
  proof (cases cells)
    case Nil
    then show ?thesis by simp
  next
    case (Cons x xs)
    then show ?thesis using Cons.IH by (cases a) simp_all
  qed
qed

lemma clean_column_kept:
  "columns (clean_trend rt t) c =
     map_option (select (kept_mask [] (row_stamps rt t))) ((t(''Timestamp'' := None)) c)"
  by (simp only: clean_trend_def Let_def select_kept_mask clean_frame.select_convs)



subsection \<open>Texts that the timestamp format cannot match\<close>








lemma space_not_digit [simp]: "\<not> is_digit CHR '' ''" "is_space CHR '' ''"
  by (simp_all add: is_digit_def is_space_def digit_of_def)














subsection \<open>The sample runtime\<close>








section \<open>Rendering numbers is injective\<close>

lemma str_nat_nonempty: "str_nat n \<noteq> []"
  by (subst str_nat.simps) simp

lemma digit_char_code: "d < 10 \<Longrightarrow> (of_char (digit_char d) :: nat) = 48 + d"
proof -
  assume "d < 10"
  then have "d \<in> {0, 1, 2, 3, 4, 5, 6, 7, 8, 9}" by auto
  then show ?thesis by (auto simp: digit_char_def)
qed

lemma digit_char_inj:
  assumes "a < 10" "b < 10" "digit_char a = digit_char b"
  shows "a = b"
proof -
  have "48 + a = (of_char (digit_char a) :: nat)" using assms(1) by (simp only: digit_char_code)
  also have "\<dots> = (of_char (digit_char b) :: nat)" by (simp only: assms(3))
  also have "\<dots> = 48 + b" using assms(2) by (simp only: digit_char_code)
  finally show ?thesis by simp
qed

lemma str_nat_inj: "str_nat n = str_nat m \<Longrightarrow> n = m"
proof (induction n arbitrary: m rule: str_nat.induct)
  case (1 n)
  have long: "\<And>k. \<not> k < 10 \<Longrightarrow> length (str_nat k) \<ge> 2"
  proof -
    fix k :: nat assume k: "\<not> k < 10"
    have "length (str_nat (k div 10)) \<ge> 1"
      using str_nat_nonempty [of "k div 10"] by (cases "str_nat (k div 10)") simp_all
    with k show "length (str_nat k) \<ge> 2" by (subst str_nat.simps) simp
  qed
  show ?case
  proof (cases "n < 10")
    case True
    then have n: "str_nat n = [digit_char n]" by (subst str_nat.simps) simp
    have m10: "m < 10"
    proof (rule ccontr)
      assume "\<not> m < 10"
      then have "length (str_nat m) \<ge> 2" by (rule long)
      with n "1.prems" show False by simp
    qed
    then have "str_nat m = [digit_char m]" by (subst str_nat.simps) simp
    with n "1.prems" True m10 show ?thesis by (simp add: digit_char_inj)
  next
    case False
    then have n: "str_nat n = str_nat (n div 10) @ [digit_char (n mod 10)]"
      by (subst str_nat.simps) simp
    have m10: "\<not> m < 10"
    proof
      assume "m < 10"
      then have "str_nat m = [digit_char m]" by (subst str_nat.simps) simp
      moreover have "length (str_nat n) \<ge> 2" using False by (rule long)
      ultimately show False using "1.prems" by simp
    qed
    then have m: "str_nat m = str_nat (m div 10) @ [digit_char (m mod 10)]"
      by (subst str_nat.simps) simp
    from n m "1.prems" have eq: "str_nat (n div 10) = str_nat (m div 10)"
      and d: "digit_char (n mod 10) = digit_char (m mod 10)" by simp_all
    from "1.IH" [OF False eq] have "n div 10 = m div 10" .
    moreover from d have "n mod 10 = m mod 10" by (simp add: digit_char_inj)
    ultimately show ?thesis by (metis div_mult_mod_eq)
  qed
qed

lemma harmonic_description_inj:
  "''Harmonic '' @ str_nat h @ '' > limit'' = ''Harmonic '' @ str_nat h' @ '' > limit'' \<longleftrightarrow> h = h'"
  using str_nat_inj by auto

lemma join_nonempty: "xs \<noteq> [] \<Longrightarrow> hd xs \<noteq> [] \<Longrightarrow> join sep xs \<noteq> []"
  by (cases "(sep, xs)" rule: join.cases) simp_all

lemma failed_voltage_phases_join:
  "failed_voltage_phases vtab vhp h \<noteq> [] \<Longrightarrow> join '', '' (failed_voltage_phases vtab vhp h) \<noteq> []"
proof (rule join_nonempty)
  assume ne: "failed_voltage_phases vtab vhp h \<noteq> []"
  then have "hd (failed_voltage_phases vtab vhp h) \<in> set (failed_voltage_phases vtab vhp h)"
    by simp
  then show "hd (failed_voltage_phases vtab vhp h) \<noteq> []"
    by (auto simp: failed_voltage_phases_def)
qed

lemma failed_current_phases_join:
  "failed_current_phases row ahp h \<noteq> [] \<Longrightarrow> join '', '' (failed_current_phases row ahp h) \<noteq> []"
proof (rule join_nonempty)
  assume ne: "failed_current_phases row ahp h \<noteq> []"
  then have "hd (failed_current_phases row ahp h) \<in> set (failed_current_phases row ahp h)"
    by simp
  then show "hd (failed_current_phases row ahp h) \<noteq> []"
    by (auto simp: failed_current_phases_def)
qed

section \<open>Runs of checks\<close>

lemma run_checks_append: "run_checks (pre @ post) st = run_checks post (run_checks pre st)"
  by (simp add: run_checks_def)

lemma run_checks_Nil [simp]: "run_checks [] st = st"
  by (simp add: run_checks_def)

lemma run_checks_Cons [simp]: "run_checks (c # cs) st = run_checks cs (c st)"
  by (simp add: run_checks_def)

lemma run_checks_invariant:
  assumes "\<And>c s. c \<in> set cs \<Longrightarrow> P s \<Longrightarrow> P (c s)" and "P st"
  shows "P (run_checks cs st)"
  using assms by (induction cs arbitrary: st) simp_all

lemma run_checks_establish:
  assumes c: "c \<in> set cs" and est: "\<And>s. P (c s)"
    and inv: "\<And>c' s. c' \<in> set cs \<Longrightarrow> P s \<Longrightarrow> P (c' s)"
  shows "P (run_checks cs st)"
proof -
  from c obtain pre post where cs: "cs = pre @ c # post" by (auto dest: split_list)
  have "P (c (run_checks pre st))" by (rule est)
  moreover have "\<And>c' s. c' \<in> set post \<Longrightarrow> P s \<Longrightarrow> P (c' s)" using inv cs by simp
  ultimately have "P (run_checks post (c (run_checks pre st)))"
    using run_checks_invariant [of post P] by blast
  with cs show ?thesis by (simp add: run_checks_append)
qed

lemma outcome_voltage [simp]:
  "voltage_compliance (outcome vf cf pt st) = (if vf then ''Fail'' else voltage_compliance st)"
  by (simp add: outcome_def)

lemma outcome_current [simp]:
  "current_compliance (outcome vf cf pt st) = (if cf then ''Fail'' else current_compliance st)"
  by (simp add: outcome_def)

lemma outcome_points [simp]:
  "failing_points (outcome vf cf pt st) =
     (case pt of None \<Rightarrow> failing_points st
      | Some (c, d, ph) \<Rightarrow> add_failing_point (failing_points st) c d ph None)"
  by (simp add: outcome_def)

lemma outcome_recorded_mono:
  "recorded (failing_points st) c d p \<Longrightarrow> recorded (failing_points (outcome vf cf pt st)) c d p"
  by (auto simp: recorded_add_mono split: option.splits)

text \<open>Every check is an outcome; the voltage checks leave the current verdict alone.\<close>

lemma voltage_checks_outcome:
  assumes "c \<in> set (voltage_checks vtab vp vhp)"
  shows "\<exists>vf pt. c = outcome vf False pt \<and>
           (\<forall>cat d ph. pt = Some (cat, d, ph) \<longrightarrow>
              cat = ''Voltage THD'' \<or> cat = ''Individual Voltage Harmonics'')"
proof -
  from assms consider
      (a) p where "c = check_thdv_99th_3s vtab vp p"
    | (b) p where "c = check_thdv_95th_10min vtab vp p"
    | (h) h where "c = check_voltage_harmonic vtab vhp h"
    by (auto simp: voltage_checks_def)
  then show ?thesis
  proof cases
    case a
    then show ?thesis
      by (simp only: check_thdv_99th_3s_outcome Let_def) (rule exI, rule exI, rule conjI, rule refl, simp)
  next
    case b
    then show ?thesis
      by (simp only: check_thdv_95th_10min_outcome Let_def) (rule exI, rule exI, rule conjI, rule refl, simp)
  next
    case h
    then show ?thesis
      by (simp only: check_voltage_harmonic_outcome Let_def) (rule exI, rule exI, rule conjI, rule refl, simp)
  qed
qed

lemma current_checks_outcome:
  assumes "c \<in> set (current_checks row tv cp ahp)"
  shows "\<exists>cf pt. c = outcome False cf pt \<and>
           (\<forall>cat d ph. pt = Some (cat, d, ph) \<longrightarrow>
              cat = ''Current TDD'' \<or> cat = ''Current THD'' \<or> cat = ''Individual Current Harmonics'')"
proof -
  from assms consider
      (t) "c = check_tdd row tv"
    | (a) p where "c = check_thdi_99th_3s row cp p"
    | (b) p where "c = check_thdi_95th_10min row cp p"
    | (d) p where "c = check_thdi_99th_10min row cp p"
    | (h) h where "c = check_current_harmonic row ahp h"
    by (auto simp: current_checks_def)
  then show ?thesis
  proof cases
    case t
    then show ?thesis
      by (simp only: check_tdd_outcome Let_def) (rule exI, rule exI, rule conjI, rule refl, simp)
  next
    case a
    then show ?thesis
      by (simp only: check_thdi_99th_3s_outcome Let_def) (rule exI, rule exI, rule conjI, rule refl, simp)
  next
    case b
    then show ?thesis
      by (simp only: check_thdi_95th_10min_outcome Let_def) (rule exI, rule exI, rule conjI, rule refl, simp)
  next
    case d
    then show ?thesis
      by (simp only: check_thdi_99th_10min_outcome Let_def) (rule exI, rule exI, rule conjI, rule refl, simp)
  next
    case h
    then show ?thesis
      by (simp only: check_current_harmonic_outcome Let_def) (rule exI, rule exI, rule conjI, rule refl, simp)
  qed
qed

lemma all_checks_outcome:
  assumes "c \<in> set (all_checks v_table crow tv vp vhp cp ahp)"
  shows "\<exists>vf cf pt. c = outcome vf cf pt"
proof -
  from assms have "(\<exists>vtab. c \<in> set (voltage_checks vtab vp vhp))
      \<or> (\<exists>row. c \<in> set (current_checks row tv cp ahp))"
    by (auto simp: all_checks_def split: option.splits)
  then show ?thesis
    using voltage_checks_outcome current_checks_outcome by blast
qed

lemma checks_keep_fail:
  assumes "c \<in> set (all_checks v_table crow tv vp vhp cp ahp)"
  shows "(voltage_compliance s = ''Fail'' \<longrightarrow> voltage_compliance (c s) = ''Fail'')
       \<and> (current_compliance s = ''Fail'' \<longrightarrow> current_compliance (c s) = ''Fail'')"
proof -
  from all_checks_outcome [OF assms] obtain vf cf pt where "c = outcome vf cf pt" by blast
  then show ?thesis by simp
qed

lemma checks_keep_recorded:
  assumes "c \<in> set (all_checks v_table crow tv vp vhp cp ahp)"
    and "recorded (failing_points s) cat d p"
  shows "recorded (failing_points (c s)) cat d p"
proof -
  from all_checks_outcome [OF assms(1)] obtain vf cf pt where "c = outcome vf cf pt" by blast
  with assms(2) show ?thesis by (simp only: outcome_recorded_mono)
qed

section \<open>Verdicts never revert and every rule is evaluated\<close>

lemma evaluate_compliance_run:
  "evaluate_compliance rt df vh ah nominal_voltage isc il =
     run_checks (checks_of_run rt df vh ah nominal_voltage isc il) initial_state"
  by (simp add: evaluate_compliance_def)

lemma prefix_keeps_fail:
  assumes "checks_of_run rt df vh ah nominal_voltage isc il = pre @ post"
  shows "(voltage_compliance (run_checks pre st) = ''Fail'' \<longrightarrow>
            voltage_compliance (run_checks (pre @ post) st) = ''Fail'')
       \<and> (current_compliance (run_checks pre st) = ''Fail'' \<longrightarrow>
            current_compliance (run_checks (pre @ post) st) = ''Fail'')"
proof -
  have keep: "\<And>c s. c \<in> set post \<Longrightarrow>
      (voltage_compliance s = ''Fail'' \<longrightarrow> voltage_compliance (c s) = ''Fail'')
      \<and> (current_compliance s = ''Fail'' \<longrightarrow> current_compliance (c s) = ''Fail'')"
  proof -
    fix c s assume "c \<in> set post"
    then have "c \<in> set (checks_of_run rt df vh ah nominal_voltage isc il)"
      using assms by simp
    then show "(voltage_compliance s = ''Fail'' \<longrightarrow> voltage_compliance (c s) = ''Fail'')
      \<and> (current_compliance s = ''Fail'' \<longrightarrow> current_compliance (c s) = ''Fail'')"
      unfolding checks_of_run_def by (rule checks_keep_fail)
  qed
  have v: "voltage_compliance (run_checks post (run_checks pre st)) = ''Fail''"
    if a: "voltage_compliance (run_checks pre st) = ''Fail''"
  proof (rule run_checks_invariant [where P = "\<lambda>s. voltage_compliance s = ''Fail''"])
    fix c :: "eval_state \<Rightarrow> eval_state" and s :: eval_state
    assume "c \<in> set post" "voltage_compliance s = ''Fail''"
    then show "voltage_compliance (c s) = ''Fail''" using keep by blast
  next
    show "voltage_compliance (run_checks pre st) = ''Fail''" by (rule a)
  qed
  have c: "current_compliance (run_checks post (run_checks pre st)) = ''Fail''"
    if a: "current_compliance (run_checks pre st) = ''Fail''"
  proof (rule run_checks_invariant [where P = "\<lambda>s. current_compliance s = ''Fail''"])
    fix c :: "eval_state \<Rightarrow> eval_state" and s :: eval_state
    assume "c \<in> set post" "current_compliance s = ''Fail''"
    then show "current_compliance (c s) = ''Fail''" using keep by blast
  next
    show "current_compliance (run_checks pre st) = ''Fail''" by (rule a)
  qed
  from v c show ?thesis by (simp add: run_checks_append)
qed

lemma violation_in_final_state:
  assumes c: "c \<in> set (checks_of_run rt df vh ah nominal_voltage isc il)"
    and est: "\<And>s. Q (c s)"
    and inv: "\<And>vf cf pt s. Q s \<Longrightarrow> Q (outcome vf cf pt s)"
  shows "Q (evaluate_compliance rt df vh ah nominal_voltage isc il)"
  unfolding evaluate_compliance_run
proof (rule run_checks_establish [where P = Q and c = c])
  show "c \<in> set (checks_of_run rt df vh ah nominal_voltage isc il)" by (rule c)
next
  fix s show "Q (c s)" by (rule est)
next
  fix c' s assume c': "c' \<in> set (checks_of_run rt df vh ah nominal_voltage isc il)" and q: "Q s"
  from c' obtain vf cf pt where "c' = outcome vf cf pt"
    using all_checks_outcome unfolding checks_of_run_def by blast
  with q inv show "Q (c' s)" by simp
qed

lemma harmonic_check_member: "h \<in> {a..<b} \<Longrightarrow> f h \<in> set (xs @ map f [a..<b])"
  by simp

lemma harmonic_check_member_Cons: "h \<in> {a..<b} \<Longrightarrow> f h \<in> set (x # xs @ map f [a..<b])"
  by simp

lemma voltage_check_in_run:
  assumes "v_limit_table nominal_voltage = Some vtab"
    and "c \<in> set (voltage_checks vtab (voltage_thd_percentiles rt df) (vh_individual_percentiles rt vh))"
  shows "c \<in> set (checks_of_run rt df vh ah nominal_voltage isc il)"
  using assms by (simp add: checks_of_run_def all_checks_def)

lemma current_check_in_run:
  assumes "c_limit_row nominal_voltage isc il = Some row"
    and "c \<in> set (current_checks row (tdd_of rt df il) (current_thd_percentiles rt df)
                     (ah_individual_percentiles rt ah))"
  shows "c \<in> set (checks_of_run rt df vh ah nominal_voltage isc il)"
  using assms by (simp add: checks_of_run_def all_checks_def)

lemma phase_cases: "p \<in> {1, 2, 3} \<Longrightarrow> p \<in> set [1, 2, 3 :: nat]"
  by simp

lemma voltage_fail_recorded_inv:
  "voltage_compliance s = ''Fail'' \<and> recorded (failing_points s) cat d ph \<Longrightarrow>
   voltage_compliance (outcome vf cf pt s) = ''Fail''
     \<and> recorded (failing_points (outcome vf cf pt s)) cat d ph"
  using outcome_recorded_mono by simp

lemma current_fail_recorded_inv:
  "current_compliance s = ''Fail'' \<and> recorded (failing_points s) cat d ph \<Longrightarrow>
   current_compliance (outcome vf cf pt s) = ''Fail''
     \<and> recorded (failing_points (outcome vf cf pt s)) cat d ph"
  using outcome_recorded_mono by simp

lemma current_fail_entry_inv:
  "current_compliance s = ''Fail'' \<and> lookup_entry (failing_points s) cat d \<noteq> None \<Longrightarrow>
   current_compliance (outcome vf cf pt s) = ''Fail''
     \<and> lookup_entry (failing_points (outcome vf cf pt s)) cat d \<noteq> None"
  by (auto simp: lookup_entry_add split: option.splits)

lemma rule_thdv_99th_3s:
  assumes "v_limit_table nominal_voltage = Some vtab" "p \<in> {1, 2, 3}"
    and "get0 (voltage_thd_percentiles rt df) (''U'' @ str_nat p @ '' THD_99th_3s'') > thd vtab * 1.5"
  shows "voltage_compliance (evaluate_compliance rt df vh ah nominal_voltage isc il) = ''Fail''
       \<and> recorded (failing_points (evaluate_compliance rt df vh ah nominal_voltage isc il))
           ''Voltage THD'' ''99th Percentile (3s) > 1.5x limit'' (''U'' @ str_nat p)"
proof (rule violation_in_final_state
    [where c = "check_thdv_99th_3s vtab (voltage_thd_percentiles rt df) p"])
  show "check_thdv_99th_3s vtab (voltage_thd_percentiles rt df) p
      \<in> set (checks_of_run rt df vh ah nominal_voltage isc il)"
    using assms(2) by (intro voltage_check_in_run [OF assms(1)]) (auto simp: voltage_checks_def)
next
  fix s
  show "voltage_compliance (check_thdv_99th_3s vtab (voltage_thd_percentiles rt df) p s) = ''Fail''
       \<and> recorded (failing_points (check_thdv_99th_3s vtab (voltage_thd_percentiles rt df) p s))
           ''Voltage THD'' ''99th Percentile (3s) > 1.5x limit'' (''U'' @ str_nat p)"
    using assms(3) by (simp add: check_thdv_99th_3s_outcome recorded_add_new)
qed (rule voltage_fail_recorded_inv)

lemma rule_thdv_95th_10min:
  assumes "v_limit_table nominal_voltage = Some vtab" "p \<in> {1, 2, 3}"
    and "get0 (voltage_thd_percentiles rt df) (''U'' @ str_nat p @ '' THD_95th_10min'') > thd vtab"
  shows "voltage_compliance (evaluate_compliance rt df vh ah nominal_voltage isc il) = ''Fail''
       \<and> recorded (failing_points (evaluate_compliance rt df vh ah nominal_voltage isc il))
           ''Voltage THD'' ''95th Percentile (10min) > limit'' (''U'' @ str_nat p)"
proof (rule violation_in_final_state
    [where c = "check_thdv_95th_10min vtab (voltage_thd_percentiles rt df) p"])
  show "check_thdv_95th_10min vtab (voltage_thd_percentiles rt df) p
      \<in> set (checks_of_run rt df vh ah nominal_voltage isc il)"
    using assms(2) by (intro voltage_check_in_run [OF assms(1)]) (auto simp: voltage_checks_def)
next
  fix s
  show "voltage_compliance (check_thdv_95th_10min vtab (voltage_thd_percentiles rt df) p s) = ''Fail''
       \<and> recorded (failing_points (check_thdv_95th_10min vtab (voltage_thd_percentiles rt df) p s))
           ''Voltage THD'' ''95th Percentile (10min) > limit'' (''U'' @ str_nat p)"
    using assms(3) by (simp add: check_thdv_95th_10min_outcome recorded_add_new)
qed (rule voltage_fail_recorded_inv)

lemma failed_voltage_phases_nonempty:
  "p \<in> {1, 2, 3} \<Longrightarrow>
   get0 vhp (''V'' @ str_nat p @ ''h'' @ str_nat h @ ''_95th'') > individual vtab \<Longrightarrow>
   ''V'' @ str_nat p \<in> set (failed_voltage_phases vtab vhp h)"
  by (auto simp: failed_voltage_phases_def)

lemma failed_current_phases_nonempty:
  "p \<in> {1, 2, 3} \<Longrightarrow>
   exceeds (get0 ahp (''A'' @ str_nat p @ ''h'' @ str_nat h @ ''_95th''))
     (get_current_limit_for_harmonic h (Some row)) \<Longrightarrow>
   ''A'' @ str_nat p \<in> set (failed_current_phases row ahp h)"
  by (auto simp: failed_current_phases_def)

lemma rule_voltage_harmonic:
  assumes "v_limit_table nominal_voltage = Some vtab" "p \<in> {1, 2, 3}" "h \<in> {2..<51}"
    and "get0 (vh_individual_percentiles rt vh) (''V'' @ str_nat p @ ''h'' @ str_nat h @ ''_95th'')
           > individual vtab"
  shows "voltage_compliance (evaluate_compliance rt df vh ah nominal_voltage isc il) = ''Fail''
       \<and> recorded (failing_points (evaluate_compliance rt df vh ah nominal_voltage isc il))
           ''Individual Voltage Harmonics'' (''Harmonic '' @ str_nat h @ '' > limit'')
           (join '', '' (failed_voltage_phases vtab (vh_individual_percentiles rt vh) h))"
proof (rule violation_in_final_state
    [where c = "check_voltage_harmonic vtab (vh_individual_percentiles rt vh) h"])
  show "check_voltage_harmonic vtab (vh_individual_percentiles rt vh) h
      \<in> set (checks_of_run rt df vh ah nominal_voltage isc il)"
    by (rule voltage_check_in_run [OF assms(1)])
       (unfold voltage_checks_def, rule harmonic_check_member [OF assms(3)])
next
  fix s
  have ne: "failed_voltage_phases vtab (vh_individual_percentiles rt vh) h \<noteq> []"
    using failed_voltage_phases_nonempty [OF assms(2) assms(4)] by auto
  then show "voltage_compliance (check_voltage_harmonic vtab (vh_individual_percentiles rt vh) h s) = ''Fail''
       \<and> recorded (failing_points (check_voltage_harmonic vtab (vh_individual_percentiles rt vh) h s))
           ''Individual Voltage Harmonics'' (''Harmonic '' @ str_nat h @ '' > limit'')
           (join '', '' (failed_voltage_phases vtab (vh_individual_percentiles rt vh) h))"
    by (simp add: check_voltage_harmonic_outcome recorded_add_new failed_voltage_phases_join)
qed (rule voltage_fail_recorded_inv)

lemma rule_tdd:
  assumes "c_limit_row nominal_voltage isc il = Some row" "tdd_of rt df il > tdd row"
  shows "current_compliance (evaluate_compliance rt df vh ah nominal_voltage isc il) = ''Fail''
       \<and> lookup_entry (failing_points (evaluate_compliance rt df vh ah nominal_voltage isc il))
           ''Current TDD'' ''Overall TDD > limit'' \<noteq> None"
proof (rule violation_in_final_state [where c = "check_tdd row (tdd_of rt df il)"])
  show "check_tdd row (tdd_of rt df il) \<in> set (checks_of_run rt df vh ah nominal_voltage isc il)"
    by (intro current_check_in_run [OF assms(1)]) (simp add: current_checks_def)
next
  fix s
  show "current_compliance (check_tdd row (tdd_of rt df il) s) = ''Fail''
       \<and> lookup_entry (failing_points (check_tdd row (tdd_of rt df il) s))
           ''Current TDD'' ''Overall TDD > limit'' \<noteq> None"
    using assms(2) by (simp add: check_tdd_outcome lookup_entry_add)
qed (rule current_fail_entry_inv)

lemma rule_thdi_99th_3s:
  assumes "c_limit_row nominal_voltage isc il = Some row" "p \<in> {1, 2, 3}"
    and "get0 (current_thd_percentiles rt df) (''A'' @ str_nat p @ '' THD_99th_3s'') > tdd row * 2"
  shows "current_compliance (evaluate_compliance rt df vh ah nominal_voltage isc il) = ''Fail''
       \<and> recorded (failing_points (evaluate_compliance rt df vh ah nominal_voltage isc il))
           ''Current THD'' ''99th Percentile (3s) > 1.5x TDD limit'' (''A'' @ str_nat p)"
proof (rule violation_in_final_state
    [where c = "check_thdi_99th_3s row (current_thd_percentiles rt df) p"])
  show "check_thdi_99th_3s row (current_thd_percentiles rt df) p
      \<in> set (checks_of_run rt df vh ah nominal_voltage isc il)"
    using assms(2) by (intro current_check_in_run [OF assms(1)]) (auto simp: current_checks_def)
next
  fix s
  show "current_compliance (check_thdi_99th_3s row (current_thd_percentiles rt df) p s) = ''Fail''
       \<and> recorded (failing_points (check_thdi_99th_3s row (current_thd_percentiles rt df) p s))
           ''Current THD'' ''99th Percentile (3s) > 1.5x TDD limit'' (''A'' @ str_nat p)"
    using assms(3) by (simp add: check_thdi_99th_3s_outcome recorded_add_new)
qed (rule current_fail_recorded_inv)

lemma rule_thdi_95th_10min:
  assumes "c_limit_row nominal_voltage isc il = Some row" "p \<in> {1, 2, 3}"
    and "get0 (current_thd_percentiles rt df) (''A'' @ str_nat p @ '' THD_95th_10min'') > tdd row"
  shows "current_compliance (evaluate_compliance rt df vh ah nominal_voltage isc il) = ''Fail''
       \<and> recorded (failing_points (evaluate_compliance rt df vh ah nominal_voltage isc il))
           ''Current THD'' ''95th Percentile (10min) > TDD limit'' (''A'' @ str_nat p)"
proof (rule violation_in_final_state
    [where c = "check_thdi_95th_10min row (current_thd_percentiles rt df) p"])
  show "check_thdi_95th_10min row (current_thd_percentiles rt df) p
      \<in> set (checks_of_run rt df vh ah nominal_voltage isc il)"
    using assms(2) by (intro current_check_in_run [OF assms(1)]) (auto simp: current_checks_def)
next
  fix s
  show "current_compliance (check_thdi_95th_10min row (current_thd_percentiles rt df) p s) = ''Fail''
       \<and> recorded (failing_points (check_thdi_95th_10min row (current_thd_percentiles rt df) p s))
           ''Current THD'' ''95th Percentile (10min) > TDD limit'' (''A'' @ str_nat p)"
    using assms(3) by (simp add: check_thdi_95th_10min_outcome recorded_add_new)
qed (rule current_fail_recorded_inv)

lemma rule_thdi_99th_10min:
  assumes "c_limit_row nominal_voltage isc il = Some row" "p \<in> {1, 2, 3}"
    and "get0 (current_thd_percentiles rt df) (''A'' @ str_nat p @ '' THD_99th_10min'') > tdd row * 1.5"
  shows "current_compliance (evaluate_compliance rt df vh ah nominal_voltage isc il) = ''Fail''
       \<and> recorded (failing_points (evaluate_compliance rt df vh ah nominal_voltage isc il))
           ''Current THD'' ''99th Percentile (10min) > 1.5x TDD limit'' (''A'' @ str_nat p)"
proof (rule violation_in_final_state
    [where c = "check_thdi_99th_10min row (current_thd_percentiles rt df) p"])
  show "check_thdi_99th_10min row (current_thd_percentiles rt df) p
      \<in> set (checks_of_run rt df vh ah nominal_voltage isc il)"
    using assms(2) by (intro current_check_in_run [OF assms(1)]) (auto simp: current_checks_def)
next
  fix s
  show "current_compliance (check_thdi_99th_10min row (current_thd_percentiles rt df) p s) = ''Fail''
       \<and> recorded (failing_points (check_thdi_99th_10min row (current_thd_percentiles rt df) p s))
           ''Current THD'' ''99th Percentile (10min) > 1.5x TDD limit'' (''A'' @ str_nat p)"
    using assms(3) by (simp add: check_thdi_99th_10min_outcome recorded_add_new)
qed (rule current_fail_recorded_inv)

lemma rule_current_harmonic:
  assumes "c_limit_row nominal_voltage isc il = Some row" "p \<in> {1, 2, 3}" "h \<in> {2..<51}"
    and "exceeds (get0 (ah_individual_percentiles rt ah) (''A'' @ str_nat p @ ''h'' @ str_nat h @ ''_95th''))
           (get_current_limit_for_harmonic h (Some row))"
  shows "current_compliance (evaluate_compliance rt df vh ah nominal_voltage isc il) = ''Fail''
       \<and> recorded (failing_points (evaluate_compliance rt df vh ah nominal_voltage isc il))
           ''Individual Current Harmonics'' (''Harmonic '' @ str_nat h @ '' > limit'')
           (join '', '' (failed_current_phases row (ah_individual_percentiles rt ah) h))"
proof (rule violation_in_final_state
    [where c = "check_current_harmonic row (ah_individual_percentiles rt ah) h"])
  show "check_current_harmonic row (ah_individual_percentiles rt ah) h
      \<in> set (checks_of_run rt df vh ah nominal_voltage isc il)"
    by (rule current_check_in_run [OF assms(1)])
       (unfold current_checks_def, rule harmonic_check_member_Cons [OF assms(3)])
next
  fix s
  have ne: "failed_current_phases row (ah_individual_percentiles rt ah) h \<noteq> []"
    using failed_current_phases_nonempty [OF assms(2) assms(4)] by auto
  then show "current_compliance (check_current_harmonic row (ah_individual_percentiles rt ah) h s) = ''Fail''
       \<and> recorded (failing_points (check_current_harmonic row (ah_individual_percentiles rt ah) h s))
           ''Individual Current Harmonics'' (''Harmonic '' @ str_nat h @ '' > limit'')
           (join '', '' (failed_current_phases row (ah_individual_percentiles rt ah) h))"
    by (simp add: check_current_harmonic_outcome recorded_add_new failed_current_phases_join)
qed (rule current_fail_recorded_inv)

section \<open>Percentiles of a constant series\<close>

lemma numbers_set: "x \<in> set (numbers xs) \<longleftrightarrow> Some x \<in> set xs"
  by (induction xs) (auto simp: numbers_def split: option.splits)

lemma numbers_empty_iff: "numbers xs = [] \<longleftrightarrow> (\<forall>v\<in>set xs. v = None)"
  by (induction xs) (auto simp: numbers_def split: option.splits)

lemma quantile_constant:
  assumes c: "\<forall>x\<in>set (numbers xs). x = v" and ne: "numbers xs \<noteq> []"
    and q: "0 \<le> q" "q \<le> 1"
  shows "quantile q xs = v"
proof -
  let ?s = "sort (numbers xs)"
  let ?n = "length ?s"
  have n: "?n > 0" using ne by simp
  have all: "\<And>i. i < ?n \<Longrightarrow> ?s ! i = v"
  proof -
    fix i assume "i < ?n"
    then have "?s ! i \<in> set ?s" by (rule nth_mem)
    then show "?s ! i = v" using c by simp
  qed
  have pos: "q * real (?n - 1) \<le> real (?n - 1)" "0 \<le> q * real (?n - 1)"
    using q by (simp_all add: mult_left_le_one_le)
  then have "\<lfloor>q * real (?n - 1)\<rfloor> \<le> int (?n - 1)" by linarith
  then have lo: "nat \<lfloor>q * real (?n - 1)\<rfloor> < ?n" using n by linarith
  have "?n - 1 < ?n" using n by simp
  then have hi: "min (nat \<lfloor>q * real (?n - 1)\<rfloor> + 1) (?n - 1) < ?n"
    by (simp only: min_less_iff_disj) simp
  show ?thesis
    unfolding quantile_def Let_def using all [OF lo] all [OF hi] by simp
qed

lemma numbers_constant: "set xs \<subseteq> {Some v} \<Longrightarrow> numbers xs = replicate (length xs) v"
  by (induction xs) (auto simp: numbers_def)

lemma get_percentile_safe_constant:
  assumes "set xs \<subseteq> {Some v}" "xs \<noteq> []" "0 \<le> p" "p \<le> 100"
  shows "get_percentile_safe xs p = v"
proof -
  have num: "numbers xs = replicate (length xs) v" using assms(1) by (rule numbers_constant)
  have cond: "(xs = [] \<or> (\<forall>v\<in>set xs. v = None)) = False"
    using assms(1,2) by (cases xs) auto
  have "quantile (p / 100) xs = v"
    using assms num by (intro quantile_constant) simp_all
  then show ?thesis unfolding get_percentile_safe_def cond by simp
qed

lemma bin_values_subset: "set (map snd (filter P (zip idx xs))) \<subseteq> set xs"
  by (auto dest: set_zip_rightD)

lemma resample_constant:
  assumes "set xs \<subseteq> {Some v}"
  shows "set (dropna (resample_10min idx xs)) \<subseteq> {Some v}"
proof
  fix y assume "y \<in> set (dropna (resample_10min idx xs))"
  then have y: "y \<in> set (resample_10min idx xs)" "y \<noteq> None" by (simp_all add: dropna_def)
  define g where "g = (\<lambda>b. let x = map snd (filter (\<lambda>(t, v). t div 600 = b) (zip idx xs))
        in if x \<noteq> [] then Some (get_percentile_safe x 95) else None)"
  have "resample_10min idx xs =
      (if idx = [] then [] else map g [Min (set idx) div 600 .. Max (set idx) div 600])"
    by (simp only: resample_10min_def g_def)
  with y(1) obtain b where "y = g b" by (auto split: if_splits)
  then have yb: "y = (let x = map snd (filter (\<lambda>(t, v). t div 600 = b) (zip idx xs))
        in if x \<noteq> [] then Some (get_percentile_safe x 95) else None)"
    by (simp only: g_def)
  let ?x = "map snd (filter (\<lambda>(t, v). t div 600 = b) (zip idx xs))"
  from yb y(2) have ne: "?x \<noteq> []" and yv: "y = Some (get_percentile_safe ?x 95)"
    by (auto simp: Let_def split: if_splits)
  have "set ?x \<subseteq> {Some v}" using bin_values_subset [of _ idx xs] assms by blast
  then have "get_percentile_safe ?x 95 = v" using ne by (intro get_percentile_safe_constant) simp_all
  with yv show "y \<in> {Some v}" by simp
qed

lemma resample_nonempty:
  assumes "idx \<noteq> []" "xs \<noteq> []"
  shows "dropna (resample_10min idx xs) \<noteq> []"
proof -
  from assms obtain t0 ts x0 xs' where idx: "idx = t0 # ts" and xs: "xs = x0 # xs'"
    by (cases idx; cases xs) auto
  let ?b = "t0 div 600"
  let ?x = "map snd (filter (\<lambda>(t, v). t div 600 = ?b) (zip idx xs))"
  have "Min (set idx) \<le> t0" "t0 \<le> Max (set idx)" using idx by simp_all
  then have "Min (set idx) div 600 \<le> ?b" "?b \<le> Max (set idx) div 600"
    by (simp_all add: zdiv_mono1)
  then have b: "?b \<in> set [Min (set idx) div 600 .. Max (set idx) div 600]" by simp
  have ne: "?x \<noteq> []" using idx xs by simp
  have "Some (get_percentile_safe ?x 95) \<in> set (resample_10min idx xs)"
    unfolding resample_10min_def using assms(1) b ne
    by (simp only: if_False set_map Let_def) (rule image_eqI [where x = ?b], simp_all)
  then have "Some (get_percentile_safe ?x 95) \<in> set (dropna (resample_10min idx xs))"
    by (simp add: dropna_def)
  then show ?thesis by auto
qed

lemma thd_col_percentiles_constant:
  assumes "columns df col = Some cells" "set (to_numeric_safe rt cells) \<subseteq> {Some v}"
    and "cells \<noteq> []" "index df \<noteq> []"
  shows "thd_col_percentiles rt df True True results col =
           results(col @ ''_99th_3s'' \<mapsto> v, col @ ''_95th_10min'' \<mapsto> v, col @ ''_99th_10min'' \<mapsto> v)"
proof -
  let ?series = "to_numeric_safe rt cells"
  let ?r = "dropna (resample_10min (index df) ?series)"
  have s: "?series \<noteq> []" using assms(3) length_to_numeric_safe [of rt cells] by auto
  have r: "?r \<noteq> []" using assms(4) s by (rule resample_nonempty)
  have rc: "set ?r \<subseteq> {Some v}" using assms(2) by (rule resample_constant)
  have p1: "get_percentile_safe ?series 99 = v"
    using assms(2) s by (intro get_percentile_safe_constant) simp_all
  have p2: "get_percentile_safe ?r 95 = v" "get_percentile_safe ?r 99 = v"
    using rc r by (intro get_percentile_safe_constant; simp)+
  show ?thesis
    using assms(1) s r p1 p2 by (simp add: thd_col_percentiles_def Let_def)
qed

lemma all_zero_upd: "all_zero d \<Longrightarrow> all_zero (d(k \<mapsto> 0))"
  by (simp add: all_zero_def)

lemma get0_all_zero: "all_zero d \<Longrightarrow> get0 d k = 0"
  by (auto simp: all_zero_def get0_def split: option.splits)

lemma thd_col_percentiles_zero:
  assumes "all_zero results"
    and "\<And>cells. columns df col = Some cells \<Longrightarrow> set (to_numeric_safe rt cells) \<subseteq> {Some 0}"
  shows "all_zero (thd_col_percentiles rt df p95 p99 results col)"
proof (cases "columns df col")
  case None
  with assms(1) show ?thesis by (simp add: thd_col_percentiles_def)
next
  case (Some cells)
  let ?series = "to_numeric_safe rt cells"
  let ?r = "dropna (resample_10min (index df) ?series)"
  have c: "set ?series \<subseteq> {Some 0}" using assms(2) Some by blast
  have rc: "set ?r \<subseteq> {Some 0}" using c by (rule resample_constant)
  have p1: "?series \<noteq> [] \<Longrightarrow> get_percentile_safe ?series 99 = 0"
    using c by (intro get_percentile_safe_constant) simp_all
  have p2: "?r \<noteq> [] \<Longrightarrow> get_percentile_safe ?r 95 = 0"
    "?r \<noteq> [] \<Longrightarrow> get_percentile_safe ?r 99 = 0"
    using rc by (intro get_percentile_safe_constant; simp)+
  show ?thesis
    using Some assms(1) p1 p2
    by (auto simp: thd_col_percentiles_def Let_def all_zero_upd)
qed

lemma calculate_thd_percentiles_zero:
  assumes "\<And>p cells. p \<in> {1, 2, 3} \<Longrightarrow> columns df (thd_type @ str_nat p @ '' THD'') = Some cells
             \<Longrightarrow> set (to_numeric_safe rt cells) \<subseteq> {Some 0}"
  shows "all_zero (calculate_thd_percentiles rt df thd_type p95 p99)"
proof -
  have e: "all_zero Map.empty" by (simp add: all_zero_def)
  have z: "\<And>p results. p \<in> {1, 2, 3} \<Longrightarrow> all_zero results \<Longrightarrow>
      all_zero (thd_col_percentiles rt df p95 p99 results (thd_type @ str_nat p @ '' THD''))"
  proof -
    fix p :: nat and results :: "string \<rightharpoonup> real"
    assume p: "p \<in> {1, 2, 3}" and r: "all_zero results"
    show "all_zero (thd_col_percentiles rt df p95 p99 results (thd_type @ str_nat p @ '' THD''))"
      using r
    proof (rule thd_col_percentiles_zero)
      fix cells assume "columns df (thd_type @ str_nat p @ '' THD'') = Some cells"
      with p show "set (to_numeric_safe rt cells) \<subseteq> {Some 0}" by (rule assms)
    qed
  qed
  have "all_zero (thd_col_percentiles rt df p95 p99
             (thd_col_percentiles rt df p95 p99
               (thd_col_percentiles rt df p95 p99 Map.empty (thd_type @ str_nat 1 @ '' THD''))
               (thd_type @ str_nat 2 @ '' THD''))
             (thd_type @ str_nat 3 @ '' THD''))"
    by (intro z e) simp_all
  then show ?thesis by (simp add: calculate_thd_percentiles_def)
qed

section \<open>The dictionary of individual harmonic percentiles\<close>

lemma harmonic_key_inj:
  assumes "p < 10" "p' < 10"
    and "prefix @ str_nat p @ ''h'' @ str_nat h @ suffix
           = prefix @ str_nat p' @ ''h'' @ str_nat h' @ suffix"
  shows "p = p' \<and> h = h'"
proof -
  have p: "str_nat p = [digit_char p]" "str_nat p' = [digit_char p']"
    using assms(1,2) by (simp_all add: str_nat.simps [of p] str_nat.simps [of p'])
  with assms(3) have "digit_char p = digit_char p'" "str_nat h = str_nat h'" by simp_all
  with assms(1,2) show ?thesis by (auto dest: digit_char_inj str_nat_inj)
qed

lemma foldl_harmonic_other:
  assumes "\<And>h p. (h, p) \<in> set xs \<Longrightarrow>
             prefix @ str_nat p @ ''h'' @ str_nat h @ ''_'' @ str_nat percentile @ ''th'' \<noteq> k"
  shows "foldl (harmonic_col_percentile rt df prefix percentile) m xs k = m k"
  using assms
proof (induction xs arbitrary: m)
  case Nil
  then show ?case by simp
next
  case (Cons x xs)
  obtain h p where x: "x = (h, p)" by (cases x)
  have "harmonic_col_percentile rt df prefix percentile m x k = m k"
    using Cons.prems [of h p] x
    by (auto simp: harmonic_col_percentile_def Let_def split: option.splits)
  moreover have "foldl (harmonic_col_percentile rt df prefix percentile)
      (harmonic_col_percentile rt df prefix percentile m x) xs k
      = harmonic_col_percentile rt df prefix percentile m x k"
    using Cons.prems by (intro Cons.IH) simp
  ultimately show ?case by simp
qed

lemma foldl_harmonic_at:
  assumes "(h, p) \<in> set xs" "distinct xs" "\<forall>(h', p')\<in>set xs. p' < 10"
  shows "foldl (harmonic_col_percentile rt df prefix percentile) m xs
           (prefix @ str_nat p @ ''h'' @ str_nat h @ ''_'' @ str_nat percentile @ ''th'')
         = (case df (prefix @ str_nat p @ ''h'' @ str_nat h) of
              None \<Rightarrow> m (prefix @ str_nat p @ ''h'' @ str_nat h @ ''_'' @ str_nat percentile @ ''th'')
            | Some cells \<Rightarrow>
                if to_numeric_safe rt cells = []
                then m (prefix @ str_nat p @ ''h'' @ str_nat h @ ''_'' @ str_nat percentile @ ''th'')
                else Some (get_percentile_safe (to_numeric_safe rt cells) (real percentile)))"
  using assms
proof (induction xs arbitrary: m)
  case Nil
  then show ?case by simp
next
  case (Cons x xs)
  let ?k = "prefix @ str_nat p @ ''h'' @ str_nat h @ ''_'' @ str_nat percentile @ ''th''"
  let ?f = "harmonic_col_percentile rt df prefix percentile"
  show ?case
  proof (cases "x = (h, p)")
    case True
    have p10: "p < 10" using Cons.prems(1,3) by auto
    have other: "\<And>h' p'. (h', p') \<in> set xs \<Longrightarrow>
        prefix @ str_nat p' @ ''h'' @ str_nat h' @ ''_'' @ str_nat percentile @ ''th'' \<noteq> ?k"
    proof
      fix h' p' assume in_xs: "(h', p') \<in> set xs"
        and eq: "prefix @ str_nat p' @ ''h'' @ str_nat h' @ ''_'' @ str_nat percentile @ ''th'' = ?k"
      have "p' < 10" using in_xs Cons.prems(3) by auto
      from harmonic_key_inj [OF this p10 eq] have "(h', p') = (h, p)" by simp
      with in_xs True Cons.prems(2) show False by simp
    qed
    have fx: "?f m x ?k =
        (case df (prefix @ str_nat p @ ''h'' @ str_nat h) of
              None \<Rightarrow> m ?k
            | Some cells \<Rightarrow>
                if to_numeric_safe rt cells = [] then m ?k
                else Some (get_percentile_safe (to_numeric_safe rt cells) (real percentile)))"
      using True by (simp add: harmonic_col_percentile_def Let_def split: option.splits)
    have "foldl ?f m (x # xs) ?k = foldl ?f (?f m x) xs ?k" by simp
    also have "\<dots> = ?f m x ?k" using other by (rule foldl_harmonic_other)
    also note fx
    finally show ?thesis .
  next
    case False
    then have in_xs: "(h, p) \<in> set xs" using Cons.prems(1) by simp
    have p10: "p < 10" using Cons.prems(1,3) by auto
    obtain h' p' where x: "x = (h', p')" by (cases x)
    have p'10: "p' < 10" using x Cons.prems(3) by simp
    have ne: "prefix @ str_nat p' @ ''h'' @ str_nat h' @ ''_'' @ str_nat percentile @ ''th'' \<noteq> ?k"
      using harmonic_key_inj [OF p'10 p10] False x by blast
    have keep: "?f m x ?k = m ?k"
      using ne x by (auto simp: harmonic_col_percentile_def Let_def split: option.splits)
    have "foldl ?f (?f m x) xs ?k =
        (case df (prefix @ str_nat p @ ''h'' @ str_nat h) of
              None \<Rightarrow> (?f m x) ?k
            | Some cells \<Rightarrow>
                if to_numeric_safe rt cells = [] then (?f m x) ?k
                else Some (get_percentile_safe (to_numeric_safe rt cells) (real percentile)))"
      using in_xs Cons.prems(2,3) by (intro Cons.IH) simp_all
    then have "foldl ?f (?f m x) xs ?k =
        (case df (prefix @ str_nat p @ ''h'' @ str_nat h) of
              None \<Rightarrow> m ?k
            | Some cells \<Rightarrow>
                if to_numeric_safe rt cells = [] then m ?k
                else Some (get_percentile_safe (to_numeric_safe rt cells) (real percentile)))"
      by (simp only: keep)
    moreover have "foldl ?f m (x # xs) ?k = foldl ?f (?f m x) xs ?k" by simp
    ultimately show ?thesis by (simp only:)
  qed
qed

lemma pairs_member:
  "h \<in> set hs \<Longrightarrow> p \<in> set ps \<Longrightarrow> (h, p) \<in> set (concat (map (\<lambda>h. map (\<lambda>p. (h, p)) ps) hs))"
  by auto

lemma pairs_distinct:
  "distinct hs \<Longrightarrow> distinct ps \<Longrightarrow> distinct (concat (map (\<lambda>h. map (\<lambda>p. (h, p)) ps) hs))"
  by (induction hs) (auto simp: distinct_map inj_on_def)

lemma harmonic_pairs:
  assumes "h \<in> {2..<51}" "p \<in> {1, 2, 3}"
  shows "(h, p) \<in> set (concat (map (\<lambda>h. map (\<lambda>p. (h, p)) [1, 2, 3]) [2..<51]))"
proof (rule pairs_member)
  show "h \<in> set [2..<51]" using assms(1) by (simp only: atLeastLessThan_upt)
  show "p \<in> set [1, 2, 3]" using assms(2) by simp
qed

lemma harmonic_pairs_distinct:
  "distinct (concat (map (\<lambda>h. map (\<lambda>p. (h, p)) [1, 2, 3 :: nat]) [a..<b]))"
  by (rule pairs_distinct) simp_all

lemma harmonic_pairs_small:
  "\<forall>(h', p')\<in>set (concat (map (\<lambda>h. map (\<lambda>p. (h, p)) [1, 2, 3 :: nat]) hs)). p' < 10"
  by auto

lemma individual_percentile_at:
  assumes "h \<in> {2..<51}" "p \<in> {1, 2, 3}"
  shows "calculate_individual_harmonic_percentiles rt df prefix percentile
           (prefix @ str_nat p @ ''h'' @ str_nat h @ ''_'' @ str_nat percentile @ ''th'')
         = (case df (prefix @ str_nat p @ ''h'' @ str_nat h) of
              None \<Rightarrow> None
            | Some cells \<Rightarrow>
                if cells = [] then None
                else Some (get_percentile_safe (to_numeric_safe rt cells) (real percentile)))"
proof -
  have e: "to_numeric_safe rt cells = [] \<longleftrightarrow> cells = []" for cells
    using length_to_numeric_safe [of rt cells] by auto
  show ?thesis
    unfolding calculate_individual_harmonic_percentiles_def
    by (subst foldl_harmonic_at [OF harmonic_pairs [OF assms] harmonic_pairs_distinct
          harmonic_pairs_small])
       (simp add: e split: option.splits)
qed

lemma str_nat_95: "str_nat 95 = ''95''"
  by (simp add: str_eval)

lemma vh_percentile_at:
  assumes "h \<in> {2..<51}" "p \<in> {1, 2, 3}"
  shows "get0 (vh_individual_percentiles rt vh) (''V'' @ str_nat p @ ''h'' @ str_nat h @ ''_95th'')
         = (case vh (''V'' @ str_nat p @ ''h'' @ str_nat h) of
              None \<Rightarrow> 0
            | Some cells \<Rightarrow>
                if cells = [] then 0 else get_percentile_safe (to_numeric_safe rt cells) 95)"
  using individual_percentile_at [OF assms, of rt vh "''V''" 95]
  by (simp add: vh_individual_percentiles_def get0_def str_nat_95 split: option.splits)

lemma ah_percentile_at:
  assumes "h \<in> {2..<51}" "p \<in> {1, 2, 3}"
  shows "get0 (ah_individual_percentiles rt ah) (''A'' @ str_nat p @ ''h'' @ str_nat h @ ''_95th'')
         = (case ah (''A'' @ str_nat p @ ''h'' @ str_nat h) of
              None \<Rightarrow> 0
            | Some cells \<Rightarrow>
                if cells = [] then 0 else get_percentile_safe (to_numeric_safe rt cells) 95)"
  using individual_percentile_at [OF assms, of rt ah "''A''" 95]
  by (simp add: ah_individual_percentiles_def get0_def str_nat_95 split: option.splits)

section \<open>The sample with heavy distortion\<close>

lemma loud_stamps: "row_stamps sample_runtime loud_trend = [Some 1672531200, Some 1672531203]"
  by (rule sample_row_stamps) (simp_all add: loud_trend_def sample_stamps_def)

lemma loud_index: "index (clean_trend sample_runtime loud_trend) = [1672531200, 1672531203]"
  by (rule two_rows_index [OF loud_stamps]) simp

lemma loud_column:
  "c \<in> {''U1 THD'', ''U2 THD'', ''U3 THD'', ''A1 THD'', ''A2 THD'', ''A3 THD'', ''A1 RMS''} \<Longrightarrow>
   columns (clean_trend sample_runtime loud_trend) c = Some [Num 100, Num 100]"
  by (rule two_rows_column [OF loud_stamps]) (auto simp: loud_trend_def sample_stamps_def)

lemma loud_series: "set (to_numeric_safe rt [Num 100, Num 100]) \<subseteq> {Some 100}"
  by (simp add: to_numeric_safe_def fillna_def to_numeric_def)

lemma loud_thd_col:
  assumes "c \<in> {''U1 THD'', ''U2 THD'', ''U3 THD'', ''A1 THD'', ''A2 THD'', ''A3 THD''}"
  shows "thd_col_percentiles sample_runtime (clean_trend sample_runtime loud_trend) True True results c
         = results(c @ ''_99th_3s'' \<mapsto> 100, c @ ''_95th_10min'' \<mapsto> 100, c @ ''_99th_10min'' \<mapsto> 100)"
proof (rule thd_col_percentiles_constant)
  show "columns (clean_trend sample_runtime loud_trend) c = Some [Num 100, Num 100]"
    using assms by (intro loud_column) auto
  show "set (to_numeric_safe sample_runtime [Num 100, Num 100]) \<subseteq> {Some 100}" by (rule loud_series)
  show "[Num 100, Num 100] \<noteq> []" by simp
  show "index (clean_trend sample_runtime loud_trend) \<noteq> []" by (simp add: loud_index)
qed

lemma loud_voltage_percentiles:
  "p \<in> {1, 2, 3} \<Longrightarrow>
   get0 (voltage_thd_percentiles sample_runtime (clean_trend sample_runtime loud_trend))
        (''U'' @ str_nat p @ '' THD_99th_3s'') = 100
   \<and> get0 (voltage_thd_percentiles sample_runtime (clean_trend sample_runtime loud_trend))
        (''U'' @ str_nat p @ '' THD_95th_10min'') = 100"
  by (auto simp: voltage_thd_percentiles_def calculate_thd_percentiles_def str_eval loud_thd_col
        get0_def)

lemma loud_current_percentiles:
  "p \<in> {1, 2, 3} \<Longrightarrow>
   get0 (current_thd_percentiles sample_runtime (clean_trend sample_runtime loud_trend))
        (''A'' @ str_nat p @ '' THD_99th_3s'') = 100
   \<and> get0 (current_thd_percentiles sample_runtime (clean_trend sample_runtime loud_trend))
        (''A'' @ str_nat p @ '' THD_95th_10min'') = 100
   \<and> get0 (current_thd_percentiles sample_runtime (clean_trend sample_runtime loud_trend))
        (''A'' @ str_nat p @ '' THD_99th_10min'') = 100"
  by (auto simp: current_thd_percentiles_def calculate_thd_percentiles_def str_eval loud_thd_col
        get0_def)

lemma loud_a1_rms_avg: "avg_of sample_runtime (clean_trend sample_runtime loud_trend) ''A1 RMS'' = 100"
  by (simp add: avg_of_def get_numeric_def loud_column to_numeric_safe_def fillna_def
        to_numeric_def mean_def numbers_def nan_to_zero_def)

lemma loud_tdd: "tdd_of sample_runtime (clean_trend sample_runtime loud_trend) 50 = 200 / sqrt 2"
proof -
  have "get0 (current_thd_percentiles sample_runtime (clean_trend sample_runtime loud_trend))
      ''A1 THD_95th_10min'' = 100"
    using loud_current_percentiles [of 1] by (simp add: str_eval)
  then show ?thesis
    by (simp add: tdd_of_def summary_of_def loud_a1_rms_avg compute_tdd_def Let_def)
qed

lemma loud_tdd_large: "tdd_of sample_runtime (clean_trend sample_runtime loud_trend) 50 > 100"
proof -
  have "sqrt 2 < 2" by (rule real_less_lsqrt) simp_all
  moreover have "sqrt 2 > 0" by simp
  ultimately have "200 / sqrt 2 > 100" by (simp add: pos_less_divide_eq)
  then show ?thesis by (simp only: loud_tdd)
qed

lemma sample_limits:
  "v_limit_table 400 = Some \<lparr>individual = 5, thd = 8\<rparr>"
  "c_limit_row 400 1000 50 =
     Some \<lparr>h_lt_11 = 7.0, h_11_17 = 3.5, h_17_23 = 2.5, h_23_35 = 1.0, h_gt_35 = 0.5, tdd = 8.0\<rparr>"
  by (simp_all add: v_limit_table_def VOLTAGE_LIMITS_def c_limit_row_def isc_il_ratio_def
        CURRENT_LIMITS_120V_to_69kV_def in_band_def)

lemma harmonics_5_7:
  "h \<in> {5, 7} \<Longrightarrow>
   get0 (vh_individual_percentiles rt vh_5_7) (''V'' @ str_nat 1 @ ''h'' @ str_nat h @ ''_95th'') = 50
   \<and> get0 (ah_individual_percentiles rt ah_5_7) (''A'' @ str_nat 1 @ ''h'' @ str_nat h @ ''_95th'') = 50"
proof -
  assume h: "h \<in> {5, 7}"
  then have hr: "h \<in> {2..<51}" by auto
  have p: "(1::nat) \<in> {1, 2, 3}" by simp
  have g: "get_percentile_safe (to_numeric_safe rt [Num 50]) 95 = 50"
    by (rule get_percentile_safe_constant)
       (simp_all add: to_numeric_safe_def fillna_def to_numeric_def)
  from h show ?thesis
    unfolding vh_percentile_at [OF hr p] ah_percentile_at [OF hr p]
    by (auto simp: str_eval vh_5_7_def ah_5_7_def g)
qed

text \<open>
  Claim C5. Both verdicts start as Pass. Along the checks of a run, a verdict that is Fail
  after some of the checks is Fail after all of them. No check is skipped after a failure:
  whenever a rule is violated, the verdict of its side is Fail in the final state and the
  violation is recorded in the failing points, whatever the other rules found. The voltage
  rules are evaluated with the row of the nominal voltage, the current rules whenever a
  current row was selected. The verdicts and failing points of the report are those of
  the final state.
\<close>

theorem verdicts_never_revert_and_all_rules_run:
  "voltage_compliance initial_state = ''Pass'' \<and> current_compliance initial_state = ''Pass''
   \<and> (checks_of_run rt df vh ah nominal_voltage isc il = pre @ post \<longrightarrow>
        (voltage_compliance (run_checks pre initial_state) = ''Fail'' \<longrightarrow>
           voltage_compliance (evaluate_compliance rt df vh ah nominal_voltage isc il) = ''Fail'')
        \<and> (current_compliance (run_checks pre initial_state) = ''Fail'' \<longrightarrow>
           current_compliance (evaluate_compliance rt df vh ah nominal_voltage isc il) = ''Fail''))
   \<and> (v_limit_table nominal_voltage = Some vtab \<and> p \<in> {1, 2, 3} \<longrightarrow>
        (get0 (voltage_thd_percentiles rt df) (''U'' @ str_nat p @ '' THD_99th_3s'') > thd vtab * 1.5 \<longrightarrow>
           voltage_compliance (evaluate_compliance rt df vh ah nominal_voltage isc il) = ''Fail''
           \<and> recorded (failing_points (evaluate_compliance rt df vh ah nominal_voltage isc il))
                ''Voltage THD'' ''99th Percentile (3s) > 1.5x limit'' (''U'' @ str_nat p))
        \<and> (get0 (voltage_thd_percentiles rt df) (''U'' @ str_nat p @ '' THD_95th_10min'') > thd vtab \<longrightarrow>
           voltage_compliance (evaluate_compliance rt df vh ah nominal_voltage isc il) = ''Fail''
           \<and> recorded (failing_points (evaluate_compliance rt df vh ah nominal_voltage isc il))
                ''Voltage THD'' ''95th Percentile (10min) > limit'' (''U'' @ str_nat p))
        \<and> (h \<in> {2..<51}
            \<and> get0 (vh_individual_percentiles rt vh) (''V'' @ str_nat p @ ''h'' @ str_nat h @ ''_95th'')
                > individual vtab \<longrightarrow>
           voltage_compliance (evaluate_compliance rt df vh ah nominal_voltage isc il) = ''Fail''
           \<and> recorded (failing_points (evaluate_compliance rt df vh ah nominal_voltage isc il))
                ''Individual Voltage Harmonics'' (''Harmonic '' @ str_nat h @ '' > limit'')
                (join '', '' (failed_voltage_phases vtab (vh_individual_percentiles rt vh) h))))
   \<and> (c_limit_row nominal_voltage isc il = Some row \<longrightarrow>
        (tdd_of rt df il > tdd row \<longrightarrow>
           current_compliance (evaluate_compliance rt df vh ah nominal_voltage isc il) = ''Fail''
           \<and> lookup_entry (failing_points (evaluate_compliance rt df vh ah nominal_voltage isc il))
                ''Current TDD'' ''Overall TDD > limit'' \<noteq> None)
        \<and> (p \<in> {1, 2, 3}
            \<and> get0 (current_thd_percentiles rt df) (''A'' @ str_nat p @ '' THD_99th_3s'') > tdd row * 2 \<longrightarrow>
           current_compliance (evaluate_compliance rt df vh ah nominal_voltage isc il) = ''Fail''
           \<and> recorded (failing_points (evaluate_compliance rt df vh ah nominal_voltage isc il))
                ''Current THD'' ''99th Percentile (3s) > 1.5x TDD limit'' (''A'' @ str_nat p))
        \<and> (p \<in> {1, 2, 3}
            \<and> get0 (current_thd_percentiles rt df) (''A'' @ str_nat p @ '' THD_95th_10min'') > tdd row \<longrightarrow>
           current_compliance (evaluate_compliance rt df vh ah nominal_voltage isc il) = ''Fail''
           \<and> recorded (failing_points (evaluate_compliance rt df vh ah nominal_voltage isc il))
                ''Current THD'' ''95th Percentile (10min) > TDD limit'' (''A'' @ str_nat p))
        \<and> (p \<in> {1, 2, 3}
            \<and> get0 (current_thd_percentiles rt df) (''A'' @ str_nat p @ '' THD_99th_10min'') > tdd row * 1.5 \<longrightarrow>
           current_compliance (evaluate_compliance rt df vh ah nominal_voltage isc il) = ''Fail''
           \<and> recorded (failing_points (evaluate_compliance rt df vh ah nominal_voltage isc il))
                ''Current THD'' ''99th Percentile (10min) > 1.5x TDD limit'' (''A'' @ str_nat p))
        \<and> (p \<in> {1, 2, 3} \<and> h \<in> {2..<51}
            \<and> exceeds (get0 (ah_individual_percentiles rt ah)
                          (''A'' @ str_nat p @ ''h'' @ str_nat h @ ''_95th''))
                  (get_current_limit_for_harmonic h (Some row)) \<longrightarrow>
           current_compliance (evaluate_compliance rt df vh ah nominal_voltage isc il) = ''Fail''
           \<and> recorded (failing_points (evaluate_compliance rt df vh ah nominal_voltage isc il))
                ''Individual Current Harmonics'' (''Harmonic '' @ str_nat h @ '' > limit'')
                (join '', '' (failed_current_phases row (ah_individual_percentiles rt ah) h))))
   \<and> (analyze_full_data rt dfs nominal_voltage isc il = Inr r \<and> dfs ''Trend'' = Some t
        \<and> dfs ''Vh Harmonic %'' = Some vh \<and> dfs ''Ah Harmonic %'' = Some ah \<longrightarrow>
        voltage_compliance r
          = voltage_compliance (evaluate_compliance rt (clean_trend rt t) vh ah nominal_voltage isc il)
        \<and> current_compliance r
          = current_compliance (evaluate_compliance rt (clean_trend rt t) vh ah nominal_voltage isc il)
        \<and> failing_points r
          = failing_points (evaluate_compliance rt (clean_trend rt t) vh ah nominal_voltage isc il))"
proof -
  have init: "voltage_compliance initial_state = ''Pass''" "current_compliance initial_state = ''Pass''"
    by (simp_all add: initial_state_def)
  have mono: "checks_of_run rt df vh ah nominal_voltage isc il = pre @ post \<longrightarrow>
        (voltage_compliance (run_checks pre initial_state) = ''Fail'' \<longrightarrow>
           voltage_compliance (evaluate_compliance rt df vh ah nominal_voltage isc il) = ''Fail'')
        \<and> (current_compliance (run_checks pre initial_state) = ''Fail'' \<longrightarrow>
           current_compliance (evaluate_compliance rt df vh ah nominal_voltage isc il) = ''Fail'')"
  proof
    assume a: "checks_of_run rt df vh ah nominal_voltage isc il = pre @ post"
    from prefix_keeps_fail [OF a, of initial_state] a
    show "(voltage_compliance (run_checks pre initial_state) = ''Fail'' \<longrightarrow>
           voltage_compliance (evaluate_compliance rt df vh ah nominal_voltage isc il) = ''Fail'')
        \<and> (current_compliance (run_checks pre initial_state) = ''Fail'' \<longrightarrow>
           current_compliance (evaluate_compliance rt df vh ah nominal_voltage isc il) = ''Fail'')"
      by (simp only: evaluate_compliance_run)
  qed
  have report: "analyze_full_data rt dfs nominal_voltage isc il = Inr r \<and> dfs ''Trend'' = Some t
        \<and> dfs ''Vh Harmonic %'' = Some vh \<and> dfs ''Ah Harmonic %'' = Some ah \<longrightarrow>
        voltage_compliance r
          = voltage_compliance (evaluate_compliance rt (clean_trend rt t) vh ah nominal_voltage isc il)
        \<and> current_compliance r
          = current_compliance (evaluate_compliance rt (clean_trend rt t) vh ah nominal_voltage isc il)
        \<and> failing_points r
          = failing_points (evaluate_compliance rt (clean_trend rt t) vh ah nominal_voltage isc il)"
    using analyze_Inr_fields [of rt dfs nominal_voltage isc il r] by auto
  show ?thesis
    apply (intro conjI impI)
    subgoal by (rule init)
    subgoal by (rule init)
    subgoal using mono by blast
    subgoal using mono by blast
    subgoal using rule_thdv_99th_3s by blast
    subgoal using rule_thdv_99th_3s by blast
    subgoal using rule_thdv_95th_10min by blast
    subgoal using rule_thdv_95th_10min by blast
    subgoal using rule_voltage_harmonic by blast
    subgoal using rule_voltage_harmonic by blast
    subgoal using rule_tdd by blast
    subgoal using rule_tdd by blast
    subgoal using rule_thdi_99th_3s by blast
    subgoal using rule_thdi_99th_3s by blast
    subgoal using rule_thdi_95th_10min by blast
    subgoal using rule_thdi_95th_10min by blast
    subgoal using rule_thdi_99th_10min by blast
    subgoal using rule_thdi_99th_10min by blast
    subgoal using rule_current_harmonic by blast
    subgoal using rule_current_harmonic by blast
    subgoal using report by blast
    subgoal using report by blast
    subgoal using report by blast
    done
qed

lemma failed_phases_5_7:
  "failed_voltage_phases \<lparr>individual = 5, thd = 8\<rparr> (vh_individual_percentiles rt vh_5_7) 5 = [''V1'']"
  "failed_current_phases
     \<lparr>h_lt_11 = 7.0, h_11_17 = 3.5, h_17_23 = 2.5, h_23_35 = 1.0, h_gt_35 = 0.5, tdd = 8.0\<rparr>
     (ah_individual_percentiles rt ah_5_7) 7 = [''A1'']"
proof -
  have h5: "(5::nat) \<in> {2..<51}" and h7: "(7::nat) \<in> {2..<51}" by simp_all
  have p: "(1::nat) \<in> {1, 2, 3}" "(2::nat) \<in> {1, 2, 3}" "(3::nat) \<in> {1, 2, 3}" by simp_all
  have g: "get_percentile_safe (to_numeric_safe rt [Num 50]) 95 = 50"
    by (rule get_percentile_safe_constant)
       (simp_all add: to_numeric_safe_def fillna_def to_numeric_def)
  show "failed_voltage_phases \<lparr>individual = 5, thd = 8\<rparr> (vh_individual_percentiles rt vh_5_7) 5
      = [''V1'']"
    unfolding failed_voltage_phases_def filter.simps list.map
      vh_percentile_at [OF h5 p(1)] vh_percentile_at [OF h5 p(2)] vh_percentile_at [OF h5 p(3)]
    by (simp add: str_eval vh_5_7_def g)
  show "failed_current_phases
     \<lparr>h_lt_11 = 7.0, h_11_17 = 3.5, h_17_23 = 2.5, h_23_35 = 1.0, h_gt_35 = 0.5, tdd = 8.0\<rparr>
     (ah_individual_percentiles rt ah_5_7) 7 = [''A1'']"
    unfolding failed_current_phases_def filter.simps list.map
      ah_percentile_at [OF h7 p(1)] ah_percentile_at [OF h7 p(2)] ah_percentile_at [OF h7 p(3)]
    by (simp add: str_eval ah_5_7_def g exceeds_def get_current_limit_for_harmonic_def)
qed

theorem verdicts_never_revert_and_all_rules_run_witness:
  "voltage_compliance
     (run_checks
        (take 1 (checks_of_run sample_runtime (clean_trend sample_runtime loud_trend) vh_5_7 ah_5_7
                   400 1000 50))
        initial_state) = ''Fail''
   \<and> voltage_compliance (evaluate_compliance sample_runtime (clean_trend sample_runtime loud_trend)
         vh_5_7 ah_5_7 400 1000 50) = ''Fail''
   \<and> current_compliance (evaluate_compliance sample_runtime (clean_trend sample_runtime loud_trend)
         vh_5_7 ah_5_7 400 1000 50) = ''Fail''
   \<and> recorded (failing_points (evaluate_compliance sample_runtime
         (clean_trend sample_runtime loud_trend) vh_5_7 ah_5_7 400 1000 50))
        ''Voltage THD'' ''99th Percentile (3s) > 1.5x limit'' ''U1''
   \<and> recorded (failing_points (evaluate_compliance sample_runtime
         (clean_trend sample_runtime loud_trend) vh_5_7 ah_5_7 400 1000 50))
        ''Voltage THD'' ''95th Percentile (10min) > limit'' ''U3''
   \<and> recorded (failing_points (evaluate_compliance sample_runtime
         (clean_trend sample_runtime loud_trend) vh_5_7 ah_5_7 400 1000 50))
        ''Individual Voltage Harmonics'' ''Harmonic 5 > limit'' ''V1''
   \<and> lookup_entry (failing_points (evaluate_compliance sample_runtime
         (clean_trend sample_runtime loud_trend) vh_5_7 ah_5_7 400 1000 50))
        ''Current TDD'' ''Overall TDD > limit'' \<noteq> None
   \<and> recorded (failing_points (evaluate_compliance sample_runtime
         (clean_trend sample_runtime loud_trend) vh_5_7 ah_5_7 400 1000 50))
        ''Current THD'' ''99th Percentile (3s) > 1.5x TDD limit'' ''A1''
   \<and> recorded (failing_points (evaluate_compliance sample_runtime
         (clean_trend sample_runtime loud_trend) vh_5_7 ah_5_7 400 1000 50))
        ''Current THD'' ''95th Percentile (10min) > TDD limit'' ''A2''
   \<and> recorded (failing_points (evaluate_compliance sample_runtime
         (clean_trend sample_runtime loud_trend) vh_5_7 ah_5_7 400 1000 50))
        ''Current THD'' ''99th Percentile (10min) > 1.5x TDD limit'' ''A3''
   \<and> recorded (failing_points (evaluate_compliance sample_runtime
         (clean_trend sample_runtime loud_trend) vh_5_7 ah_5_7 400 1000 50))
        ''Individual Current Harmonics'' ''Harmonic 7 > limit'' ''A1''
   \<and> (\<exists>r. analyze_full_data sample_runtime (sheets loud_trend vh_5_7 ah_5_7) 400 1000 50 = Inr r
          \<and> voltage_compliance r = ''Fail'' \<and> current_compliance r = ''Fail'')"
proof -
  let ?L = "clean_trend sample_runtime loud_trend"
  let ?V = "\<lparr>individual = 5, thd = 8\<rparr> :: v_limits"
  let ?R = "\<lparr>h_lt_11 = 7.0, h_11_17 = 3.5, h_17_23 = 2.5, h_23_35 = 1.0, h_gt_35 = 0.5, tdd = 8.0\<rparr>
            :: c_limits"
  let ?cs = "checks_of_run sample_runtime ?L vh_5_7 ah_5_7 400 1000 50"
  let ?final = "evaluate_compliance sample_runtime ?L vh_5_7 ah_5_7 400 1000 50"
  note main = verdicts_never_revert_and_all_rules_run
    [where rt = sample_runtime and df = ?L and vh = vh_5_7 and ah = ah_5_7
       and nominal_voltage = 400 and isc = 1000 and il = 50 and vtab = ?V and row = ?R
       and pre = "take 1 ?cs" and post = "drop 1 ?cs"
       and dfs = "sheets loud_trend vh_5_7 ah_5_7" and t = loud_trend]
  have lim: "v_limit_table 400 = Some ?V" "c_limit_row 400 1000 50 = Some ?R"
    by (rule sample_limits)+
  note current_rules = main [THEN conjunct2, THEN conjunct2, THEN conjunct2, THEN conjunct2,
      THEN conjunct1, THEN mp, OF lim(2)]
  have split: "?cs = take 1 ?cs @ drop 1 ?cs" by simp
  have p: "(1::nat) \<in> {1, 2, 3}" "(2::nat) \<in> {1, 2, 3}" "(3::nat) \<in> {1, 2, 3}" by simp_all
  have h: "(5::nat) \<in> {2..<51}" "(7::nat) \<in> {2..<51}" by simp_all
  have u: "get0 (voltage_thd_percentiles sample_runtime ?L) (''U'' @ str_nat 1 @ '' THD_99th_3s'') > thd ?V * 1.5"
    "get0 (voltage_thd_percentiles sample_runtime ?L) (''U'' @ str_nat 3 @ '' THD_95th_10min'') > thd ?V"
    using loud_voltage_percentiles [OF p(1)] loud_voltage_percentiles [OF p(3)] by simp_all
  have a: "get0 (current_thd_percentiles sample_runtime ?L) (''A'' @ str_nat 1 @ '' THD_99th_3s'') > tdd ?R * 2"
    "get0 (current_thd_percentiles sample_runtime ?L) (''A'' @ str_nat 2 @ '' THD_95th_10min'') > tdd ?R"
    "get0 (current_thd_percentiles sample_runtime ?L) (''A'' @ str_nat 3 @ '' THD_99th_10min'') > tdd ?R * 1.5"
    using loud_current_percentiles [OF p(1)] loud_current_percentiles [OF p(2)]
      loud_current_percentiles [OF p(3)] by simp_all
  have vh: "get0 (vh_individual_percentiles sample_runtime vh_5_7)
        (''V'' @ str_nat 1 @ ''h'' @ str_nat 5 @ ''_95th'') > individual ?V"
    using harmonics_5_7 [of 5 sample_runtime] by simp
  have ah: "exceeds (get0 (ah_individual_percentiles sample_runtime ah_5_7)
        (''A'' @ str_nat 1 @ ''h'' @ str_nat 7 @ ''_95th'')) (get_current_limit_for_harmonic 7 (Some ?R))"
    using harmonics_5_7 [of 7 sample_runtime]
    by (simp add: exceeds_def get_current_limit_for_harmonic_def)
  have t: "tdd_of sample_runtime ?L 50 > tdd ?R" using loud_tdd_large by simp
  have first: "take 1 ?cs = [check_thdv_99th_3s ?V (voltage_thd_percentiles sample_runtime ?L) 1]"
    by (simp add: checks_of_run_def all_checks_def lim voltage_checks_def del: upt_rec_numeral)
  have c0: "voltage_compliance (run_checks (take 1 ?cs) initial_state) = ''Fail''"
    unfolding first using u(1) by (simp add: check_thdv_99th_3s_outcome)
  have c1: "voltage_compliance ?final = ''Fail''"
    using main [where p = 1] split c0 by blast
  have c2: "recorded (failing_points ?final) ''Voltage THD'' ''99th Percentile (3s) > 1.5x limit''
      (''U'' @ str_nat 1)"
    using main [where p = 1] lim p u(1) by blast
  have c3: "recorded (failing_points ?final) ''Voltage THD'' ''95th Percentile (10min) > limit''
      (''U'' @ str_nat 3)"
    using main [where p = 3] lim p u(2) by blast
  have c4: "recorded (failing_points ?final) ''Individual Voltage Harmonics''
      (''Harmonic '' @ str_nat 5 @ '' > limit'')
      (join '', '' (failed_voltage_phases ?V (vh_individual_percentiles sample_runtime vh_5_7) 5))"
    using main [where p = 1 and h = 5] lim p h vh by blast
  have c5: "current_compliance ?final = ''Fail''
      \<and> lookup_entry (failing_points ?final) ''Current TDD'' ''Overall TDD > limit'' \<noteq> None"
    using current_rules [THEN conjunct1] t by blast
  have c6: "recorded (failing_points ?final) ''Current THD'' ''99th Percentile (3s) > 1.5x TDD limit''
      (''A'' @ str_nat 1)"
    using current_rules [THEN conjunct2, THEN conjunct1] p a(1) by blast
  have c7: "recorded (failing_points ?final) ''Current THD'' ''95th Percentile (10min) > TDD limit''
      (''A'' @ str_nat 2)"
    using current_rules [THEN conjunct2, THEN conjunct2, THEN conjunct1] p a(2) by blast
  have c8: "recorded (failing_points ?final) ''Current THD'' ''99th Percentile (10min) > 1.5x TDD limit''
      (''A'' @ str_nat 3)"
    using current_rules [THEN conjunct2, THEN conjunct2, THEN conjunct2, THEN conjunct1] p a(3) by blast
  have c9: "recorded (failing_points ?final) ''Individual Current Harmonics''
      (''Harmonic '' @ str_nat 7 @ '' > limit'')
      (join '', '' (failed_current_phases ?R (ah_individual_percentiles sample_runtime ah_5_7) 7))"
    using current_rules [THEN conjunct2, THEN conjunct2, THEN conjunct2, THEN conjunct2] p h ah by blast
  obtain r where r: "analyze_full_data sample_runtime (sheets loud_trend vh_5_7 ah_5_7) 400 1000 50 = Inr r"
    using analyze_sheets_returns [OF loud_trend_channels] by blast
  have c10: "voltage_compliance r = voltage_compliance ?final
      \<and> current_compliance r = current_compliance ?final"
    using main [where r = r, THEN conjunct2, THEN conjunct2, THEN conjunct2, THEN conjunct2, THEN conjunct2] r by simp
  from c2 c3 c4 [unfolded failed_phases_5_7(1)] c6 c7 c8 c9 [unfolded failed_phases_5_7(2)] have rec:
    "recorded (failing_points ?final) ''Voltage THD'' ''99th Percentile (3s) > 1.5x limit'' ''U1''"
    "recorded (failing_points ?final) ''Voltage THD'' ''95th Percentile (10min) > limit'' ''U3''"
    "recorded (failing_points ?final) ''Individual Voltage Harmonics'' ''Harmonic 5 > limit'' ''V1''"
    "recorded (failing_points ?final) ''Current THD'' ''99th Percentile (3s) > 1.5x TDD limit'' ''A1''"
    "recorded (failing_points ?final) ''Current THD'' ''95th Percentile (10min) > TDD limit'' ''A2''"
    "recorded (failing_points ?final) ''Current THD'' ''99th Percentile (10min) > 1.5x TDD limit'' ''A3''"
    "recorded (failing_points ?final) ''Individual Current Harmonics'' ''Harmonic 7 > limit'' ''A1''"
    by (simp_all add: str_eval)
  from c0 c1 c5 c10 r rec show ?thesis by (intro conjI exI [of _ r]) simp_all
qed

section \<open>Which entries a check touches\<close>

lemma map_of_add_failing_point:
  "map_of (add_failing_point fp c d ph h) c' = None \<longleftrightarrow> c' \<noteq> c \<and> map_of fp c' = None"
  by (simp add: add_failing_point_def map_of_upsert)

lemma outcome_untouched:
  assumes "\<And>ph. pt \<noteq> Some (cat, d, ph)"
  shows "lookup_entry (failing_points (outcome vf cf pt s)) cat d = lookup_entry (failing_points s) cat d"
proof (cases pt)
  case None
  then show ?thesis by simp
next
  case (Some x)
  obtain c' d' ph where x: "x = (c', d', ph)" by (cases x)
  with Some assms [of ph] have "\<not> (cat = c' \<and> d = d')" by auto
  with Some x show ?thesis by (auto simp: lookup_entry_add)
qed

lemma run_untouched:
  assumes "\<And>c s. c \<in> set cs \<Longrightarrow>
     lookup_entry (failing_points (c s)) cat d = lookup_entry (failing_points s) cat d"
  shows "lookup_entry (failing_points (run_checks cs st)) cat d = lookup_entry (failing_points st) cat d"
  using assms by (induction cs arbitrary: st) simp_all

lemma thd_checks_touch:
  assumes "c \<in> set (concat (map (\<lambda>phase. [check_thdv_99th_3s vtab vp phase,
                                              check_thdv_95th_10min vtab vp phase]) ps))"
  shows "\<exists>vf pt. c = outcome vf False pt \<and> (\<forall>cat d ph. pt = Some (cat, d, ph) \<longrightarrow> cat = ''Voltage THD'')"
proof -
  from assms consider (a) p where "c = check_thdv_99th_3s vtab vp p"
    | (b) p where "c = check_thdv_95th_10min vtab vp p" by auto
  then show ?thesis
  proof cases
    case a
    then show ?thesis
      by (simp only: check_thdv_99th_3s_outcome Let_def) (rule exI, rule exI, rule conjI, rule refl, simp)
  next
    case b
    then show ?thesis
      by (simp only: check_thdv_95th_10min_outcome Let_def) (rule exI, rule exI, rule conjI, rule refl, simp)
  qed
qed

lemma tdd_thdi_checks_touch:
  assumes "c \<in> set (check_tdd row tv #
             concat (map (\<lambda>phase. [check_thdi_99th_3s row cp phase, check_thdi_95th_10min row cp phase,
                                     check_thdi_99th_10min row cp phase]) ps))"
  shows "\<exists>cf pt. c = outcome False cf pt \<and>
           (\<forall>cat d ph. pt = Some (cat, d, ph) \<longrightarrow> cat = ''Current TDD'' \<or> cat = ''Current THD'')"
proof -
  from assms consider (t) "c = check_tdd row tv"
    | (a) p where "c = check_thdi_99th_3s row cp p"
    | (b) p where "c = check_thdi_95th_10min row cp p"
    | (d) p where "c = check_thdi_99th_10min row cp p" by auto
  then show ?thesis
  proof cases
    case t
    then show ?thesis
      by (simp only: check_tdd_outcome Let_def) (rule exI, rule exI, rule conjI, rule refl, simp)
  next
    case a
    then show ?thesis
      by (simp only: check_thdi_99th_3s_outcome Let_def) (rule exI, rule exI, rule conjI, rule refl, simp)
  next
    case b
    then show ?thesis
      by (simp only: check_thdi_95th_10min_outcome Let_def) (rule exI, rule exI, rule conjI, rule refl, simp)
  next
    case d
    then show ?thesis
      by (simp only: check_thdi_99th_10min_outcome Let_def) (rule exI, rule exI, rule conjI, rule refl, simp)
  qed
qed

lemma voltage_harmonic_other_untouched:
  assumes "h' \<noteq> h"
  shows "lookup_entry (failing_points (check_voltage_harmonic vtab vhp h' s)) cat
           (''Harmonic '' @ str_nat h @ '' > limit'')
         = lookup_entry (failing_points s) cat (''Harmonic '' @ str_nat h @ '' > limit'')"
  unfolding check_voltage_harmonic_outcome Let_def
  using assms by (intro outcome_untouched) (auto dest: str_nat_inj)

lemma current_harmonic_other_untouched:
  assumes "h' \<noteq> h"
  shows "lookup_entry (failing_points (check_current_harmonic row ahp h' s)) cat
           (''Harmonic '' @ str_nat h @ '' > limit'')
         = lookup_entry (failing_points s) cat (''Harmonic '' @ str_nat h @ '' > limit'')"
  unfolding check_current_harmonic_outcome Let_def
  using assms by (intro outcome_untouched) (auto dest: str_nat_inj)

lemma upt_split: "a \<le> h \<Longrightarrow> h < b \<Longrightarrow> [a..<b] = [a..<h] @ h # [Suc h..<b]"
  by (metis le_add_diff_inverse less_imp_le_nat upt_add_eq_append upt_conv_Cons)

lemma voltage_harmonic_entry_in_run:
  assumes h: "h \<in> {2..<51}" and ne: "failed_voltage_phases vtab vhp h \<noteq> []"
    and pre: "\<And>c s. c \<in> set A \<Longrightarrow>
       lookup_entry (failing_points (c s)) ''Individual Voltage Harmonics''
           (''Harmonic '' @ str_nat h @ '' > limit'')
       = lookup_entry (failing_points s) ''Individual Voltage Harmonics''
           (''Harmonic '' @ str_nat h @ '' > limit'')"
    and post: "\<And>c s. c \<in> set C \<Longrightarrow>
       lookup_entry (failing_points (c s)) ''Individual Voltage Harmonics''
           (''Harmonic '' @ str_nat h @ '' > limit'')
       = lookup_entry (failing_points s) ''Individual Voltage Harmonics''
           (''Harmonic '' @ str_nat h @ '' > limit'')"
  shows "lookup_entry
           (failing_points (run_checks (A @ map (check_voltage_harmonic vtab vhp) [2..<51] @ C)
              initial_state))
           ''Individual Voltage Harmonics'' (''Harmonic '' @ str_nat h @ '' > limit'')
         = Some \<lparr>phases = [join '', '' (failed_voltage_phases vtab vhp h)], harmonics = []\<rparr>"
proof -
  let ?f = "check_voltage_harmonic vtab vhp"
  let ?cat = "''Individual Voltage Harmonics''"
  let ?d = "''Harmonic '' @ str_nat h @ '' > limit''"
  from h have split: "[2..<51] = [2..<h] @ h # [Suc h..<51]" by (intro upt_split) simp_all
  let ?pre = "A @ map ?f [2..<h]"
  let ?post = "map ?f [Suc h..<51] @ C"
  have cs: "A @ map ?f [2..<51] @ C = ?pre @ ?f h # ?post" by (simp only: split) simp
  have u1: "\<And>c s. c \<in> set ?pre \<Longrightarrow>
      lookup_entry (failing_points (c s)) ?cat ?d = lookup_entry (failing_points s) ?cat ?d"
    using pre voltage_harmonic_other_untouched by auto
  have u2: "\<And>c s. c \<in> set ?post \<Longrightarrow>
      lookup_entry (failing_points (c s)) ?cat ?d = lookup_entry (failing_points s) ?cat ?d"
    using post voltage_harmonic_other_untouched by auto
  have before: "lookup_entry (failing_points (run_checks ?pre initial_state)) ?cat ?d = None"
    using run_untouched [of ?pre ?cat ?d initial_state] u1
    by (simp add: initial_state_def lookup_entry_def)
  have at: "lookup_entry (failing_points (?f h (run_checks ?pre initial_state))) ?cat ?d
      = Some \<lparr>phases = [join '', '' (failed_voltage_phases vtab vhp h)], harmonics = []\<rparr>"
    using ne failed_voltage_phases_join [OF ne] before
    by (simp add: check_voltage_harmonic_outcome lookup_entry_add add_ids_def)
  have "lookup_entry (failing_points (run_checks ?post (?f h (run_checks ?pre initial_state)))) ?cat ?d
      = lookup_entry (failing_points (?f h (run_checks ?pre initial_state))) ?cat ?d"
    using u2 by (rule run_untouched)
  with at show ?thesis by (simp only: cs run_checks_append run_checks_Cons)
qed

lemma current_harmonic_entry_in_run:
  assumes h: "h \<in> {2..<51}" and ne: "failed_current_phases row ahp h \<noteq> []"
    and pre: "\<And>c s. c \<in> set A \<Longrightarrow>
       lookup_entry (failing_points (c s)) ''Individual Current Harmonics''
           (''Harmonic '' @ str_nat h @ '' > limit'')
       = lookup_entry (failing_points s) ''Individual Current Harmonics''
           (''Harmonic '' @ str_nat h @ '' > limit'')"
  shows "lookup_entry
           (failing_points (run_checks (A @ map (check_current_harmonic row ahp) [2..<51])
              initial_state))
           ''Individual Current Harmonics'' (''Harmonic '' @ str_nat h @ '' > limit'')
         = Some \<lparr>phases = [join '', '' (failed_current_phases row ahp h)], harmonics = []\<rparr>"
proof -
  let ?f = "check_current_harmonic row ahp"
  let ?cat = "''Individual Current Harmonics''"
  let ?d = "''Harmonic '' @ str_nat h @ '' > limit''"
  from h have split: "[2..<51] = [2..<h] @ h # [Suc h..<51]" by (intro upt_split) simp_all
  let ?pre = "A @ map ?f [2..<h]"
  let ?post = "map ?f [Suc h..<51]"
  have cs: "A @ map ?f [2..<51] = ?pre @ ?f h # ?post" by (simp only: split) simp
  have u1: "\<And>c s. c \<in> set ?pre \<Longrightarrow>
      lookup_entry (failing_points (c s)) ?cat ?d = lookup_entry (failing_points s) ?cat ?d"
    using pre current_harmonic_other_untouched by auto
  have u2: "\<And>c s. c \<in> set ?post \<Longrightarrow>
      lookup_entry (failing_points (c s)) ?cat ?d = lookup_entry (failing_points s) ?cat ?d"
    using current_harmonic_other_untouched by auto
  have before: "lookup_entry (failing_points (run_checks ?pre initial_state)) ?cat ?d = None"
    using run_untouched [of ?pre ?cat ?d initial_state] u1
    by (simp add: initial_state_def lookup_entry_def)
  have at: "lookup_entry (failing_points (?f h (run_checks ?pre initial_state))) ?cat ?d
      = Some \<lparr>phases = [join '', '' (failed_current_phases row ahp h)], harmonics = []\<rparr>"
    using ne failed_current_phases_join [OF ne] before
    by (simp add: check_current_harmonic_outcome lookup_entry_add add_ids_def)
  have "lookup_entry (failing_points (run_checks ?post (?f h (run_checks ?pre initial_state)))) ?cat ?d
      = lookup_entry (failing_points (?f h (run_checks ?pre initial_state))) ?cat ?d"
    using u2 by (rule run_untouched)
  with at show ?thesis by (simp only: cs run_checks_append run_checks_Cons)
qed

section \<open>Grouping of the failing points\<close>

lemma final_entries_clean:
  assumes "lookup_entry (failing_points (evaluate_compliance rt df vh ah nominal_voltage isc il)) cat d
             = Some e"
  shows "distinct (phases e) \<and> harmonics e = []"
proof -
  let ?P = "\<lambda>s. \<forall>cat d e. lookup_entry (failing_points s) cat d = Some e \<longrightarrow>
                distinct (phases e) \<and> harmonics e = []"
  have "?P (run_checks (checks_of_run rt df vh ah nominal_voltage isc il) initial_state)"
  proof (rule run_checks_invariant [where P = ?P])
    show "?P initial_state" by (simp add: initial_state_def lookup_entry_def)
  next
    fix c :: "eval_state \<Rightarrow> eval_state" and s :: eval_state
    assume c: "c \<in> set (checks_of_run rt df vh ah nominal_voltage isc il)" and s: "?P s"
    from c obtain vf cf pt where o: "c = outcome vf cf pt"
      using all_checks_outcome unfolding checks_of_run_def by blast
    show "?P (c s)"
    proof (cases pt)
      case None
      with o s show ?thesis by simp
    next
      case (Some x)
      obtain c' d' ph where x: "x = (c', d', ph)" by (cases x)
      show ?thesis
      proof (intro allI impI)
        fix cat d e assume l: "lookup_entry (failing_points (c s)) cat d = Some e"
        show "distinct (phases e) \<and> harmonics e = []"
        proof (cases "cat = c' \<and> d = d'")
          case False
          with l o Some x have "lookup_entry (failing_points s) cat d = Some e"
            by (auto simp: lookup_entry_add split: if_splits)
          with s show ?thesis by blast
        next
          case True
          let ?e0 = "case lookup_entry (failing_points s) c' d' of
                       None \<Rightarrow> \<lparr>phases = [], harmonics = []\<rparr> | Some e \<Rightarrow> e"
          have e0: "distinct (phases ?e0) \<and> harmonics ?e0 = []"
            using s by (auto split: option.splits)
          from True l o Some x have "e = add_ids ph None ?e0"
            by (simp add: lookup_entry_add)
          with e0 show ?thesis by (auto simp: add_ids_def Let_def split: option.splits)
        qed
      qed
    qed
  qed
  with assms show ?thesis unfolding evaluate_compliance_run by blast
qed

lemma voltage_harmonic_entry:
  assumes "v_limit_table nominal_voltage = Some vtab" "h \<in> {2..<51}"
    and "failed_voltage_phases vtab (vh_individual_percentiles rt vh) h \<noteq> []"
  shows "lookup_entry (failing_points (evaluate_compliance rt df vh ah nominal_voltage isc il))
           ''Individual Voltage Harmonics'' (''Harmonic '' @ str_nat h @ '' > limit'')
         = Some \<lparr>phases = [join '', '' (failed_voltage_phases vtab (vh_individual_percentiles rt vh) h)],
                 harmonics = []\<rparr>"
proof -
  let ?A = "concat (map (\<lambda>phase. [check_thdv_99th_3s vtab (voltage_thd_percentiles rt df) phase,
                check_thdv_95th_10min vtab (voltage_thd_percentiles rt df) phase]) [1, 2, 3])"
  let ?C = "case c_limit_row nominal_voltage isc il of None \<Rightarrow> []
            | Some row \<Rightarrow> current_checks row (tdd_of rt df il) (current_thd_percentiles rt df)
                           (ah_individual_percentiles rt ah)"
  have cs: "checks_of_run rt df vh ah nominal_voltage isc il
      = ?A @ map (check_voltage_harmonic vtab (vh_individual_percentiles rt vh)) [2..<51] @ ?C"
    using assms(1) by (simp add: checks_of_run_def all_checks_def voltage_checks_def del: upt_rec_numeral)
  have pre: "\<And>c s. c \<in> set ?A \<Longrightarrow>
       lookup_entry (failing_points (c s)) ''Individual Voltage Harmonics''
           (''Harmonic '' @ str_nat h @ '' > limit'')
       = lookup_entry (failing_points s) ''Individual Voltage Harmonics''
           (''Harmonic '' @ str_nat h @ '' > limit'')"
  proof -
    fix c s assume "c \<in> set ?A"
    from thd_checks_touch [OF this] obtain vf pt where
      o: "c = outcome vf False pt" and cat: "\<forall>cat d ph. pt = Some (cat, d, ph) \<longrightarrow> cat = ''Voltage THD''"
      by blast
    show "lookup_entry (failing_points (c s)) ''Individual Voltage Harmonics''
           (''Harmonic '' @ str_nat h @ '' > limit'')
       = lookup_entry (failing_points s) ''Individual Voltage Harmonics''
           (''Harmonic '' @ str_nat h @ '' > limit'')"
      unfolding o using cat by (intro outcome_untouched) auto
  qed
  have post: "\<And>c s. c \<in> set ?C \<Longrightarrow>
       lookup_entry (failing_points (c s)) ''Individual Voltage Harmonics''
           (''Harmonic '' @ str_nat h @ '' > limit'')
       = lookup_entry (failing_points s) ''Individual Voltage Harmonics''
           (''Harmonic '' @ str_nat h @ '' > limit'')"
  proof -
    fix c s assume "c \<in> set ?C"
    then obtain row where "c \<in> set (current_checks row (tdd_of rt df il)
        (current_thd_percentiles rt df) (ah_individual_percentiles rt ah))"
      by (auto split: option.splits)
    from current_checks_outcome [OF this] obtain cf pt where
      o: "c = outcome False cf pt" and cat: "\<forall>cat d ph. pt = Some (cat, d, ph) \<longrightarrow>
        cat = ''Current TDD'' \<or> cat = ''Current THD'' \<or> cat = ''Individual Current Harmonics''"
      by blast
    show "lookup_entry (failing_points (c s)) ''Individual Voltage Harmonics''
           (''Harmonic '' @ str_nat h @ '' > limit'')
       = lookup_entry (failing_points s) ''Individual Voltage Harmonics''
           (''Harmonic '' @ str_nat h @ '' > limit'')"
      unfolding o using cat by (intro outcome_untouched) auto
  qed
  show ?thesis
    unfolding evaluate_compliance_run cs
    using assms(2,3) pre post by (rule voltage_harmonic_entry_in_run)
qed

lemma current_harmonic_entry:
  assumes "c_limit_row nominal_voltage isc il = Some row" "h \<in> {2..<51}"
    and "failed_current_phases row (ah_individual_percentiles rt ah) h \<noteq> []"
  shows "lookup_entry (failing_points (evaluate_compliance rt df vh ah nominal_voltage isc il))
           ''Individual Current Harmonics'' (''Harmonic '' @ str_nat h @ '' > limit'')
         = Some \<lparr>phases = [join '', '' (failed_current_phases row (ah_individual_percentiles rt ah) h)],
                 harmonics = []\<rparr>"
proof -
  obtain vtab where vtab: "v_limit_table nominal_voltage = Some vtab"
    using v_limit_table_Some by blast
  let ?V = "voltage_checks vtab (voltage_thd_percentiles rt df) (vh_individual_percentiles rt vh)"
  let ?B = "check_tdd row (tdd_of rt df il) #
            concat (map (\<lambda>phase. [check_thdi_99th_3s row (current_thd_percentiles rt df) phase,
                                   check_thdi_95th_10min row (current_thd_percentiles rt df) phase,
                                   check_thdi_99th_10min row (current_thd_percentiles rt df) phase])
                      [1, 2, 3])"
  have cs: "checks_of_run rt df vh ah nominal_voltage isc il
      = (?V @ ?B) @ map (check_current_harmonic row (ah_individual_percentiles rt ah)) [2..<51]"
    using assms(1) vtab
    by (simp add: checks_of_run_def all_checks_def current_checks_def del: upt_rec_numeral)
  have pre: "\<And>c s. c \<in> set (?V @ ?B) \<Longrightarrow>
       lookup_entry (failing_points (c s)) ''Individual Current Harmonics''
           (''Harmonic '' @ str_nat h @ '' > limit'')
       = lookup_entry (failing_points s) ''Individual Current Harmonics''
           (''Harmonic '' @ str_nat h @ '' > limit'')"
  proof -
    fix c s assume "c \<in> set (?V @ ?B)"
    then consider (v) "c \<in> set ?V" | (b) "c \<in> set ?B" by auto
    then show "lookup_entry (failing_points (c s)) ''Individual Current Harmonics''
           (''Harmonic '' @ str_nat h @ '' > limit'')
       = lookup_entry (failing_points s) ''Individual Current Harmonics''
           (''Harmonic '' @ str_nat h @ '' > limit'')"
    proof cases
      case v
      from voltage_checks_outcome [OF this] obtain vf pt where
        o: "c = outcome vf False pt" and cat: "\<forall>cat d ph. pt = Some (cat, d, ph) \<longrightarrow>
          cat = ''Voltage THD'' \<or> cat = ''Individual Voltage Harmonics''"
        by blast
      show ?thesis unfolding o using cat by (intro outcome_untouched) auto
    next
      case b
      from tdd_thdi_checks_touch [OF this] obtain cf pt where
        o: "c = outcome False cf pt" and cat: "\<forall>cat d ph. pt = Some (cat, d, ph) \<longrightarrow>
          cat = ''Current TDD'' \<or> cat = ''Current THD''"
        by blast
      show ?thesis unfolding o using cat by (intro outcome_untouched) auto
    qed
  qed
  show ?thesis
    unfolding evaluate_compliance_run cs
    using assms(2,3) pre by (rule current_harmonic_entry_in_run)
qed

text \<open>
  Claim C3, as amended. Two distinct harmonic orders that violate the individual limit on
  the same phase are recorded under one category (Individual Voltage Harmonics, or
  Individual Current Harmonics) as two entries with two distinct descriptions,
  \<open>Harmonic h > limit\<close> for each order: the order is part of the description. The one
  phase identifier of such an entry is the comma-separated list of the failing phases of
  that order, which lists the phase. In every entry of the failing points the phase
  identifiers are without duplicates and the list of harmonics is empty, since no rule
  passes a harmonic. The failing points of the report are those of the final state.
\<close>

theorem harmonic_orders_grouped_by_description:
  "(v_limit_table nominal_voltage = Some vtab \<and> p \<in> {1, 2, 3} \<and> h \<in> {2..<51} \<and> h' \<in> {2..<51}
      \<and> h \<noteq> h'
      \<and> get0 (vh_individual_percentiles rt vh) (''V'' @ str_nat p @ ''h'' @ str_nat h @ ''_95th'')
           > individual vtab
      \<and> get0 (vh_individual_percentiles rt vh) (''V'' @ str_nat p @ ''h'' @ str_nat h' @ ''_95th'')
           > individual vtab \<longrightarrow>
      ''Harmonic '' @ str_nat h @ '' > limit'' \<noteq> ''Harmonic '' @ str_nat h' @ '' > limit''
      \<and> lookup_entry (failing_points (evaluate_compliance rt df vh ah nominal_voltage isc il))
            ''Individual Voltage Harmonics'' (''Harmonic '' @ str_nat h @ '' > limit'')
          = Some \<lparr>phases = [join '', '' (failed_voltage_phases vtab (vh_individual_percentiles rt vh) h)],
                  harmonics = []\<rparr>
      \<and> lookup_entry (failing_points (evaluate_compliance rt df vh ah nominal_voltage isc il))
            ''Individual Voltage Harmonics'' (''Harmonic '' @ str_nat h' @ '' > limit'')
          = Some \<lparr>phases = [join '', '' (failed_voltage_phases vtab (vh_individual_percentiles rt vh) h')],
                  harmonics = []\<rparr>
      \<and> ''V'' @ str_nat p \<in> set (failed_voltage_phases vtab (vh_individual_percentiles rt vh) h)
      \<and> ''V'' @ str_nat p \<in> set (failed_voltage_phases vtab (vh_individual_percentiles rt vh) h'))
   \<and> (c_limit_row nominal_voltage isc il = Some row \<and> p \<in> {1, 2, 3} \<and> h \<in> {2..<51}
      \<and> h' \<in> {2..<51} \<and> h \<noteq> h'
      \<and> exceeds (get0 (ah_individual_percentiles rt ah) (''A'' @ str_nat p @ ''h'' @ str_nat h @ ''_95th''))
           (get_current_limit_for_harmonic h (Some row))
      \<and> exceeds (get0 (ah_individual_percentiles rt ah) (''A'' @ str_nat p @ ''h'' @ str_nat h' @ ''_95th''))
           (get_current_limit_for_harmonic h' (Some row)) \<longrightarrow>
      ''Harmonic '' @ str_nat h @ '' > limit'' \<noteq> ''Harmonic '' @ str_nat h' @ '' > limit''
      \<and> lookup_entry (failing_points (evaluate_compliance rt df vh ah nominal_voltage isc il))
            ''Individual Current Harmonics'' (''Harmonic '' @ str_nat h @ '' > limit'')
          = Some \<lparr>phases = [join '', '' (failed_current_phases row (ah_individual_percentiles rt ah) h)],
                  harmonics = []\<rparr>
      \<and> lookup_entry (failing_points (evaluate_compliance rt df vh ah nominal_voltage isc il))
            ''Individual Current Harmonics'' (''Harmonic '' @ str_nat h' @ '' > limit'')
          = Some \<lparr>phases = [join '', '' (failed_current_phases row (ah_individual_percentiles rt ah) h')],
                  harmonics = []\<rparr>
      \<and> ''A'' @ str_nat p \<in> set (failed_current_phases row (ah_individual_percentiles rt ah) h)
      \<and> ''A'' @ str_nat p \<in> set (failed_current_phases row (ah_individual_percentiles rt ah) h'))
   \<and> (lookup_entry (failing_points (evaluate_compliance rt df vh ah nominal_voltage isc il)) cat d
        = Some e \<longrightarrow>
      distinct (phases e) \<and> distinct (harmonics e) \<and> harmonics e = [])
   \<and> (analyze_full_data rt dfs nominal_voltage isc il = Inr r \<and> dfs ''Trend'' = Some t
        \<and> dfs ''Vh Harmonic %'' = Some vh \<and> dfs ''Ah Harmonic %'' = Some ah \<longrightarrow>
      failing_points r
        = failing_points (evaluate_compliance rt (clean_trend rt t) vh ah nominal_voltage isc il))"
proof (intro conjI)
  show "v_limit_table nominal_voltage = Some vtab \<and> p \<in> {1, 2, 3} \<and> h \<in> {2..<51} \<and> h' \<in> {2..<51}
      \<and> h \<noteq> h'
      \<and> get0 (vh_individual_percentiles rt vh) (''V'' @ str_nat p @ ''h'' @ str_nat h @ ''_95th'')
           > individual vtab
      \<and> get0 (vh_individual_percentiles rt vh) (''V'' @ str_nat p @ ''h'' @ str_nat h' @ ''_95th'')
           > individual vtab \<longrightarrow>
      ''Harmonic '' @ str_nat h @ '' > limit'' \<noteq> ''Harmonic '' @ str_nat h' @ '' > limit''
      \<and> lookup_entry (failing_points (evaluate_compliance rt df vh ah nominal_voltage isc il))
            ''Individual Voltage Harmonics'' (''Harmonic '' @ str_nat h @ '' > limit'')
          = Some \<lparr>phases = [join '', '' (failed_voltage_phases vtab (vh_individual_percentiles rt vh) h)],
                  harmonics = []\<rparr>
      \<and> lookup_entry (failing_points (evaluate_compliance rt df vh ah nominal_voltage isc il))
            ''Individual Voltage Harmonics'' (''Harmonic '' @ str_nat h' @ '' > limit'')
          = Some \<lparr>phases = [join '', '' (failed_voltage_phases vtab (vh_individual_percentiles rt vh) h')],
                  harmonics = []\<rparr>
      \<and> ''V'' @ str_nat p \<in> set (failed_voltage_phases vtab (vh_individual_percentiles rt vh) h)
      \<and> ''V'' @ str_nat p \<in> set (failed_voltage_phases vtab (vh_individual_percentiles rt vh) h')"
  proof
    assume a: "v_limit_table nominal_voltage = Some vtab \<and> p \<in> {1, 2, 3} \<and> h \<in> {2..<51}
      \<and> h' \<in> {2..<51} \<and> h \<noteq> h'
      \<and> get0 (vh_individual_percentiles rt vh) (''V'' @ str_nat p @ ''h'' @ str_nat h @ ''_95th'')
           > individual vtab
      \<and> get0 (vh_individual_percentiles rt vh) (''V'' @ str_nat p @ ''h'' @ str_nat h' @ ''_95th'')
           > individual vtab"
    then have m1: "''V'' @ str_nat p \<in> set (failed_voltage_phases vtab (vh_individual_percentiles rt vh) h)"
      and m2: "''V'' @ str_nat p \<in> set (failed_voltage_phases vtab (vh_individual_percentiles rt vh) h')"
      using failed_voltage_phases_nonempty by blast+
    then have n1: "failed_voltage_phases vtab (vh_individual_percentiles rt vh) h \<noteq> []"
      and n2: "failed_voltage_phases vtab (vh_individual_percentiles rt vh) h' \<noteq> []" by auto
    from a have d: "''Harmonic '' @ str_nat h @ '' > limit'' \<noteq> ''Harmonic '' @ str_nat h' @ '' > limit''"
      by (auto dest: str_nat_inj)
    from a n1 n2 m1 m2 d show "''Harmonic '' @ str_nat h @ '' > limit'' \<noteq> ''Harmonic '' @ str_nat h' @ '' > limit''
      \<and> lookup_entry (failing_points (evaluate_compliance rt df vh ah nominal_voltage isc il))
            ''Individual Voltage Harmonics'' (''Harmonic '' @ str_nat h @ '' > limit'')
          = Some \<lparr>phases = [join '', '' (failed_voltage_phases vtab (vh_individual_percentiles rt vh) h)],
                  harmonics = []\<rparr>
      \<and> lookup_entry (failing_points (evaluate_compliance rt df vh ah nominal_voltage isc il))
            ''Individual Voltage Harmonics'' (''Harmonic '' @ str_nat h' @ '' > limit'')
          = Some \<lparr>phases = [join '', '' (failed_voltage_phases vtab (vh_individual_percentiles rt vh) h')],
                  harmonics = []\<rparr>
      \<and> ''V'' @ str_nat p \<in> set (failed_voltage_phases vtab (vh_individual_percentiles rt vh) h)
      \<and> ''V'' @ str_nat p \<in> set (failed_voltage_phases vtab (vh_individual_percentiles rt vh) h')"
      by (simp only: voltage_harmonic_entry simp_thms)
  qed
next
  show "c_limit_row nominal_voltage isc il = Some row \<and> p \<in> {1, 2, 3} \<and> h \<in> {2..<51}
      \<and> h' \<in> {2..<51} \<and> h \<noteq> h'
      \<and> exceeds (get0 (ah_individual_percentiles rt ah) (''A'' @ str_nat p @ ''h'' @ str_nat h @ ''_95th''))
           (get_current_limit_for_harmonic h (Some row))
      \<and> exceeds (get0 (ah_individual_percentiles rt ah) (''A'' @ str_nat p @ ''h'' @ str_nat h' @ ''_95th''))
           (get_current_limit_for_harmonic h' (Some row)) \<longrightarrow>
      ''Harmonic '' @ str_nat h @ '' > limit'' \<noteq> ''Harmonic '' @ str_nat h' @ '' > limit''
      \<and> lookup_entry (failing_points (evaluate_compliance rt df vh ah nominal_voltage isc il))
            ''Individual Current Harmonics'' (''Harmonic '' @ str_nat h @ '' > limit'')
          = Some \<lparr>phases = [join '', '' (failed_current_phases row (ah_individual_percentiles rt ah) h)],
                  harmonics = []\<rparr>
      \<and> lookup_entry (failing_points (evaluate_compliance rt df vh ah nominal_voltage isc il))
            ''Individual Current Harmonics'' (''Harmonic '' @ str_nat h' @ '' > limit'')
          = Some \<lparr>phases = [join '', '' (failed_current_phases row (ah_individual_percentiles rt ah) h')],
                  harmonics = []\<rparr>
      \<and> ''A'' @ str_nat p \<in> set (failed_current_phases row (ah_individual_percentiles rt ah) h)
      \<and> ''A'' @ str_nat p \<in> set (failed_current_phases row (ah_individual_percentiles rt ah) h')"
  proof
    assume a: "c_limit_row nominal_voltage isc il = Some row \<and> p \<in> {1, 2, 3} \<and> h \<in> {2..<51}
      \<and> h' \<in> {2..<51} \<and> h \<noteq> h'
      \<and> exceeds (get0 (ah_individual_percentiles rt ah) (''A'' @ str_nat p @ ''h'' @ str_nat h @ ''_95th''))
           (get_current_limit_for_harmonic h (Some row))
      \<and> exceeds (get0 (ah_individual_percentiles rt ah) (''A'' @ str_nat p @ ''h'' @ str_nat h' @ ''_95th''))
           (get_current_limit_for_harmonic h' (Some row))"
    then have m1: "''A'' @ str_nat p \<in> set (failed_current_phases row (ah_individual_percentiles rt ah) h)"
      and m2: "''A'' @ str_nat p \<in> set (failed_current_phases row (ah_individual_percentiles rt ah) h')"
      using failed_current_phases_nonempty by blast+
    then have n1: "failed_current_phases row (ah_individual_percentiles rt ah) h \<noteq> []"
      and n2: "failed_current_phases row (ah_individual_percentiles rt ah) h' \<noteq> []" by auto
    from a have d: "''Harmonic '' @ str_nat h @ '' > limit'' \<noteq> ''Harmonic '' @ str_nat h' @ '' > limit''"
      by (auto dest: str_nat_inj)
    from a n1 n2 m1 m2 d show "''Harmonic '' @ str_nat h @ '' > limit'' \<noteq> ''Harmonic '' @ str_nat h' @ '' > limit''
      \<and> lookup_entry (failing_points (evaluate_compliance rt df vh ah nominal_voltage isc il))
            ''Individual Current Harmonics'' (''Harmonic '' @ str_nat h @ '' > limit'')
          = Some \<lparr>phases = [join '', '' (failed_current_phases row (ah_individual_percentiles rt ah) h)],
                  harmonics = []\<rparr>
      \<and> lookup_entry (failing_points (evaluate_compliance rt df vh ah nominal_voltage isc il))
            ''Individual Current Harmonics'' (''Harmonic '' @ str_nat h' @ '' > limit'')
          = Some \<lparr>phases = [join '', '' (failed_current_phases row (ah_individual_percentiles rt ah) h')],
                  harmonics = []\<rparr>
      \<and> ''A'' @ str_nat p \<in> set (failed_current_phases row (ah_individual_percentiles rt ah) h)
      \<and> ''A'' @ str_nat p \<in> set (failed_current_phases row (ah_individual_percentiles rt ah) h')"
      by (simp only: current_harmonic_entry simp_thms)
  qed
next
  show "lookup_entry (failing_points (evaluate_compliance rt df vh ah nominal_voltage isc il)) cat d
        = Some e \<longrightarrow>
      distinct (phases e) \<and> distinct (harmonics e) \<and> harmonics e = []"
    using final_entries_clean [of rt df vh ah nominal_voltage isc il cat d e] by auto
next
  show "analyze_full_data rt dfs nominal_voltage isc il = Inr r \<and> dfs ''Trend'' = Some t
        \<and> dfs ''Vh Harmonic %'' = Some vh \<and> dfs ''Ah Harmonic %'' = Some ah \<longrightarrow>
      failing_points r
        = failing_points (evaluate_compliance rt (clean_trend rt t) vh ah nominal_voltage isc il)"
    using analyze_Inr_fields [of rt dfs nominal_voltage isc il r] by auto
qed

lemma failed_voltage_5_7:
  assumes "h \<in> {5, 7}"
  shows "failed_voltage_phases \<lparr>individual = 5, thd = 8\<rparr> (vh_individual_percentiles rt vh_5_7) h
           = [''V1'']"
proof -
  from assms have hr: "h \<in> {2..<51}" by auto
  have p: "(1::nat) \<in> {1, 2, 3}" "(2::nat) \<in> {1, 2, 3}" "(3::nat) \<in> {1, 2, 3}" by simp_all
  have g: "get_percentile_safe (to_numeric_safe rt [Num 50]) 95 = 50"
    by (rule get_percentile_safe_constant)
       (simp_all add: to_numeric_safe_def fillna_def to_numeric_def)
  from assms show ?thesis
    unfolding failed_voltage_phases_def filter.simps list.map
      vh_percentile_at [OF hr p(1)] vh_percentile_at [OF hr p(2)] vh_percentile_at [OF hr p(3)]
    by (auto simp: str_eval vh_5_7_def g)
qed

lemma failed_current_5_7:
  assumes "h \<in> {5, 7}"
  shows "failed_current_phases
     \<lparr>h_lt_11 = 7.0, h_11_17 = 3.5, h_17_23 = 2.5, h_23_35 = 1.0, h_gt_35 = 0.5, tdd = 8.0\<rparr>
     (ah_individual_percentiles rt ah_5_7) h = [''A1'']"
proof -
  from assms have hr: "h \<in> {2..<51}" by auto
  have p: "(1::nat) \<in> {1, 2, 3}" "(2::nat) \<in> {1, 2, 3}" "(3::nat) \<in> {1, 2, 3}" by simp_all
  have g: "get_percentile_safe (to_numeric_safe rt [Num 50]) 95 = 50"
    by (rule get_percentile_safe_constant)
       (simp_all add: to_numeric_safe_def fillna_def to_numeric_def)
  from assms show ?thesis
    unfolding failed_current_phases_def filter.simps list.map
      ah_percentile_at [OF hr p(1)] ah_percentile_at [OF hr p(2)] ah_percentile_at [OF hr p(3)]
    by (auto simp: str_eval ah_5_7_def g exceeds_def get_current_limit_for_harmonic_def)
qed

text \<open>
  The orders 5 and 7 of phase 1 both exceed the limit of 5 percent at 400 V. They are
  recorded under two descriptions, and no entry of the category lists a harmonic.
\<close>

theorem two_orders_two_descriptions_counterexample:
  "\<exists>r. analyze_full_data sample_runtime (sheets quiet_trend vh_5_7 no_harmonics) 400 1000 50 = Inr r
     \<and> lookup_entry (failing_points r) ''Individual Voltage Harmonics'' ''Harmonic 5 > limit''
         = Some \<lparr>phases = [''V1''], harmonics = []\<rparr>
     \<and> lookup_entry (failing_points r) ''Individual Voltage Harmonics'' ''Harmonic 7 > limit''
         = Some \<lparr>phases = [''V1''], harmonics = []\<rparr>
     \<and> \<not> (\<exists>d e. lookup_entry (failing_points r) ''Individual Voltage Harmonics'' d = Some e
              \<and> harmonics e \<noteq> [])"
proof -
  let ?Q = "clean_trend sample_runtime quiet_trend"
  let ?V = "\<lparr>individual = 5, thd = 8\<rparr> :: v_limits"
  let ?final = "evaluate_compliance sample_runtime ?Q vh_5_7 no_harmonics 400 1000 50"
  obtain r where r: "analyze_full_data sample_runtime (sheets quiet_trend vh_5_7 no_harmonics)
      400 1000 50 = Inr r"
    using analyze_sheets_returns [OF quiet_trend_channels] by blast
  have fp: "failing_points r = failing_points ?final"
    using analyze_Inr_fields [OF r] by simp
  have lim: "v_limit_table 400 = Some ?V" by (rule sample_limits)
  have e5: "lookup_entry (failing_points ?final) ''Individual Voltage Harmonics''
      (''Harmonic '' @ str_nat 5 @ '' > limit'')
      = Some \<lparr>phases = [join '', '' (failed_voltage_phases ?V
                 (vh_individual_percentiles sample_runtime vh_5_7) 5)], harmonics = []\<rparr>"
    by (rule voltage_harmonic_entry [OF lim]) (simp_all add: failed_voltage_5_7)
  have e7: "lookup_entry (failing_points ?final) ''Individual Voltage Harmonics''
      (''Harmonic '' @ str_nat 7 @ '' > limit'')
      = Some \<lparr>phases = [join '', '' (failed_voltage_phases ?V
                 (vh_individual_percentiles sample_runtime vh_5_7) 7)], harmonics = []\<rparr>"
    by (rule voltage_harmonic_entry [OF lim]) (simp_all add: failed_voltage_5_7)
  have no: "\<not> (\<exists>d e. lookup_entry (failing_points ?final) ''Individual Voltage Harmonics'' d = Some e
              \<and> harmonics e \<noteq> [])"
    using final_entries_clean by blast
  from e5 e7 have
    "lookup_entry (failing_points ?final) ''Individual Voltage Harmonics'' ''Harmonic 5 > limit''
       = Some \<lparr>phases = [''V1''], harmonics = []\<rparr>"
    "lookup_entry (failing_points ?final) ''Individual Voltage Harmonics'' ''Harmonic 7 > limit''
       = Some \<lparr>phases = [''V1''], harmonics = []\<rparr>"
    by (simp_all add: failed_voltage_5_7 str_eval)
  with no r fp show ?thesis by (intro exI [of _ r]) simp
qed

theorem harmonic_orders_grouped_by_description_witness:
  "''Harmonic '' @ str_nat 5 @ '' > limit'' \<noteq> ''Harmonic '' @ str_nat 7 @ '' > limit''
   \<and> lookup_entry (failing_points (evaluate_compliance sample_runtime
          (clean_trend sample_runtime loud_trend) vh_5_7 ah_5_7 400 1000 50))
        ''Individual Voltage Harmonics'' ''Harmonic 5 > limit''
      = Some \<lparr>phases = [''V1''], harmonics = []\<rparr>
   \<and> lookup_entry (failing_points (evaluate_compliance sample_runtime
          (clean_trend sample_runtime loud_trend) vh_5_7 ah_5_7 400 1000 50))
        ''Individual Voltage Harmonics'' ''Harmonic 7 > limit''
      = Some \<lparr>phases = [''V1''], harmonics = []\<rparr>
   \<and> lookup_entry (failing_points (evaluate_compliance sample_runtime
          (clean_trend sample_runtime loud_trend) vh_5_7 ah_5_7 400 1000 50))
        ''Individual Current Harmonics'' ''Harmonic 5 > limit''
      = Some \<lparr>phases = [''A1''], harmonics = []\<rparr>
   \<and> lookup_entry (failing_points (evaluate_compliance sample_runtime
          (clean_trend sample_runtime loud_trend) vh_5_7 ah_5_7 400 1000 50))
        ''Individual Current Harmonics'' ''Harmonic 7 > limit''
      = Some \<lparr>phases = [''A1''], harmonics = []\<rparr>
   \<and> distinct (phases \<lparr>phases = [''V1''], harmonics = []\<rparr>)
   \<and> distinct (harmonics \<lparr>phases = [''V1''], harmonics = []\<rparr>)
   \<and> (\<exists>r. analyze_full_data sample_runtime (sheets loud_trend vh_5_7 ah_5_7) 400 1000 50 = Inr r
          \<and> failing_points r = failing_points (evaluate_compliance sample_runtime
               (clean_trend sample_runtime loud_trend) vh_5_7 ah_5_7 400 1000 50))"
proof -
  let ?L = "clean_trend sample_runtime loud_trend"
  let ?V = "\<lparr>individual = 5, thd = 8\<rparr> :: v_limits"
  let ?R = "\<lparr>h_lt_11 = 7.0, h_11_17 = 3.5, h_17_23 = 2.5, h_23_35 = 1.0, h_gt_35 = 0.5, tdd = 8.0\<rparr>
            :: c_limits"
  let ?final = "evaluate_compliance sample_runtime ?L vh_5_7 ah_5_7 400 1000 50"
  note main = harmonic_orders_grouped_by_description
    [where rt = sample_runtime and df = ?L and vh = vh_5_7 and ah = ah_5_7
       and nominal_voltage = 400 and isc = 1000 and il = 50 and vtab = ?V and row = ?R
       and p = 1 and h = 5 and h' = 7
       and dfs = "sheets loud_trend vh_5_7 ah_5_7" and t = loud_trend]
  have lim: "v_limit_table 400 = Some ?V" "c_limit_row 400 1000 50 = Some ?R"
    by (rule sample_limits)+
  have idx: "(1::nat) \<in> {1, 2, 3}" "(5::nat) \<in> {2..<51}" "(7::nat) \<in> {2..<51}" "(5::nat) \<noteq> 7"
    by simp_all
  have vh: "get0 (vh_individual_percentiles sample_runtime vh_5_7)
        (''V'' @ str_nat 1 @ ''h'' @ str_nat 5 @ ''_95th'') > individual ?V"
    "get0 (vh_individual_percentiles sample_runtime vh_5_7)
        (''V'' @ str_nat 1 @ ''h'' @ str_nat 7 @ ''_95th'') > individual ?V"
    using harmonics_5_7 [of 5 sample_runtime] harmonics_5_7 [of 7 sample_runtime] by simp_all
  have ah: "exceeds (get0 (ah_individual_percentiles sample_runtime ah_5_7)
        (''A'' @ str_nat 1 @ ''h'' @ str_nat 5 @ ''_95th'')) (get_current_limit_for_harmonic 5 (Some ?R))"
    "exceeds (get0 (ah_individual_percentiles sample_runtime ah_5_7)
        (''A'' @ str_nat 1 @ ''h'' @ str_nat 7 @ ''_95th'')) (get_current_limit_for_harmonic 7 (Some ?R))"
    using harmonics_5_7 [of 5 sample_runtime] harmonics_5_7 [of 7 sample_runtime]
    by (simp_all add: exceeds_def get_current_limit_for_harmonic_def)
  note v = main [THEN conjunct1, THEN mp, OF conjI [OF lim(1) conjI [OF idx(1) conjI [OF idx(2)
      conjI [OF idx(3) conjI [OF idx(4) conjI [OF vh(1) vh(2)]]]]]]]
  note c = main [THEN conjunct2, THEN conjunct1, THEN mp, OF conjI [OF lim(2) conjI [OF idx(1)
      conjI [OF idx(2) conjI [OF idx(3) conjI [OF idx(4) conjI [OF ah(1) ah(2)]]]]]]]
  have d: "distinct (phases \<lparr>phases = [''V1''], harmonics = []\<rparr>)
      \<and> distinct (harmonics \<lparr>phases = [''V1''], harmonics = []\<rparr>)"
    using main [where cat = "''Individual Voltage Harmonics''" and d = "''Harmonic 5 > limit''",
        THEN conjunct2, THEN conjunct2, THEN conjunct1] by simp
  obtain r where r: "analyze_full_data sample_runtime (sheets loud_trend vh_5_7 ah_5_7) 400 1000 50 = Inr r"
    using analyze_sheets_returns [OF loud_trend_channels] by blast
  have fp: "failing_points r = failing_points ?final"
    using main [where r = r, THEN conjunct2, THEN conjunct2, THEN conjunct2] r by simp
  have s5: "[5::nat, 7] \<noteq> []" "(5::nat) \<in> {5, 7}" "(7::nat) \<in> {5, 7}" by simp_all
  from v c show ?thesis
    unfolding failed_voltage_5_7 [OF s5(2)] failed_voltage_5_7 [OF s5(3)]
      failed_current_5_7 [OF s5(2)] failed_current_5_7 [OF s5(3)]
    using d r fp by (intro conjI exI [of _ r]) (simp_all add: str_eval)
qed

section \<open>Above 69 kV\<close>

lemma voltage_run_leaves_current:
  assumes "\<And>c. c \<in> set cs \<Longrightarrow> \<exists>vtab vp vhp. c \<in> set (voltage_checks vtab vp vhp)"
  shows "current_compliance (run_checks cs st) = current_compliance st
       \<and> (\<forall>cat. map_of (failing_points (run_checks cs st)) cat \<noteq> None \<longrightarrow>
              map_of (failing_points st) cat \<noteq> None
              \<or> cat = ''Voltage THD'' \<or> cat = ''Individual Voltage Harmonics'')"
  using assms
proof (induction cs arbitrary: st)
  case Nil
  then show ?case by simp
next
  case (Cons c cs)
  from Cons.prems [of c] obtain vtab vp vhp where "c \<in> set (voltage_checks vtab vp vhp)" by auto
  from voltage_checks_outcome [OF this] obtain vf pt where
    o: "c = outcome vf False pt" and cat: "\<forall>cat d ph. pt = Some (cat, d, ph) \<longrightarrow>
      cat = ''Voltage THD'' \<or> cat = ''Individual Voltage Harmonics''"
    by blast
  have step: "current_compliance (c st) = current_compliance st
      \<and> (\<forall>cat. map_of (failing_points (c st)) cat \<noteq> None \<longrightarrow>
              map_of (failing_points st) cat \<noteq> None
              \<or> cat = ''Voltage THD'' \<or> cat = ''Individual Voltage Harmonics'')"
  proof (cases pt)
    case None
    with o show ?thesis by simp
  next
    case (Some x)
    obtain c' d' ph where x: "x = (c', d', ph)" by (cases x)
    with Some cat have "c' = ''Voltage THD'' \<or> c' = ''Individual Voltage Harmonics''" by blast
    with o Some x show ?thesis
      using map_of_add_failing_point [of "failing_points st" c' d' ph None] by auto
  qed
  have rest: "current_compliance (run_checks cs (c st)) = current_compliance (c st)
       \<and> (\<forall>cat. map_of (failing_points (run_checks cs (c st))) cat \<noteq> None \<longrightarrow>
              map_of (failing_points (c st)) cat \<noteq> None
              \<or> cat = ''Voltage THD'' \<or> cat = ''Individual Voltage Harmonics'')"
    using Cons.prems by (intro Cons.IH) simp
  from step rest show ?case by (simp only: run_checks_Cons) blast
qed

lemma above_69kV_state:
  assumes "nominal_voltage > 69000"
  shows "current_compliance (evaluate_compliance rt df vh ah nominal_voltage isc il) = ''Pass''
       \<and> (\<forall>cat. map_of (failing_points (evaluate_compliance rt df vh ah nominal_voltage isc il)) cat
                  \<noteq> None \<longrightarrow>
              cat = ''Voltage THD'' \<or> cat = ''Individual Voltage Harmonics'')"
proof -
  have none: "c_limit_row nominal_voltage isc il = None"
    using assms by (rule c_limit_row_above_69kV)
  obtain vtab where vtab: "v_limit_table nominal_voltage = Some vtab"
    using v_limit_table_Some by blast
  have cs: "checks_of_run rt df vh ah nominal_voltage isc il
      = voltage_checks vtab (voltage_thd_percentiles rt df) (vh_individual_percentiles rt vh)"
    by (simp add: checks_of_run_def all_checks_def none vtab)
  have "current_compliance (run_checks (checks_of_run rt df vh ah nominal_voltage isc il) initial_state)
          = current_compliance initial_state
       \<and> (\<forall>cat. map_of (failing_points (run_checks (checks_of_run rt df vh ah nominal_voltage isc il)
                    initial_state)) cat \<noteq> None \<longrightarrow>
              map_of (failing_points initial_state) cat \<noteq> None
              \<or> cat = ''Voltage THD'' \<or> cat = ''Individual Voltage Harmonics'')"
    by (rule voltage_run_leaves_current) (auto simp: cs)
  then show ?thesis
    by (simp add: evaluate_compliance_run initial_state_def)
qed

text \<open>
  Claim C8. For a nominal voltage above 69 kV no current-limit row is selected and no
  current rule is evaluated: in the final state the current verdict is Pass and every
  category of the failing points is one of the two voltage categories, whatever the data.
  So the report says Pass for the current and has none of the three current categories.
\<close>

theorem current_compliance_skipped_above_69kV:
  "nominal_voltage > 69000 \<longrightarrow>
     c_limit_row nominal_voltage isc il = None
     \<and> current_compliance (evaluate_compliance rt df vh ah nominal_voltage isc il) = ''Pass''
     \<and> (\<forall>cat. map_of (failing_points (evaluate_compliance rt df vh ah nominal_voltage isc il)) cat
               \<noteq> None \<longrightarrow>
            cat = ''Voltage THD'' \<or> cat = ''Individual Voltage Harmonics'')
     \<and> (analyze_full_data rt dfs nominal_voltage isc il = Inr r \<longrightarrow>
          current_compliance r = ''Pass''
          \<and> map_of (failing_points r) ''Current TDD'' = None
          \<and> map_of (failing_points r) ''Current THD'' = None
          \<and> map_of (failing_points r) ''Individual Current Harmonics'' = None)"
proof
  assume a: "nominal_voltage > 69000"
  have rep: "analyze_full_data rt dfs nominal_voltage isc il = Inr r \<longrightarrow>
          current_compliance r = ''Pass''
          \<and> map_of (failing_points r) ''Current TDD'' = None
          \<and> map_of (failing_points r) ''Current THD'' = None
          \<and> map_of (failing_points r) ''Individual Current Harmonics'' = None"
  proof
    assume r: "analyze_full_data rt dfs nominal_voltage isc il = Inr r"
    from analyze_Inr_fields [OF r] obtain t vh' ah' where
      c: "current_compliance r
            = current_compliance (evaluate_compliance rt (clean_trend rt t) vh' ah' nominal_voltage isc il)"
      and f: "failing_points r
            = failing_points (evaluate_compliance rt (clean_trend rt t) vh' ah' nominal_voltage isc il)"
      by blast
    from above_69kV_state [OF a, of rt "clean_trend rt t" vh' ah' isc il] c f
    show "current_compliance r = ''Pass''
          \<and> map_of (failing_points r) ''Current TDD'' = None
          \<and> map_of (failing_points r) ''Current THD'' = None
          \<and> map_of (failing_points r) ''Individual Current Harmonics'' = None"
      by (simp only:) auto
  qed
  from a above_69kV_state [OF a, of rt df vh ah isc il] rep
  show "c_limit_row nominal_voltage isc il = None
     \<and> current_compliance (evaluate_compliance rt df vh ah nominal_voltage isc il) = ''Pass''
     \<and> (\<forall>cat. map_of (failing_points (evaluate_compliance rt df vh ah nominal_voltage isc il)) cat
               \<noteq> None \<longrightarrow>
            cat = ''Voltage THD'' \<or> cat = ''Individual Voltage Harmonics'')
     \<and> (analyze_full_data rt dfs nominal_voltage isc il = Inr r \<longrightarrow>
          current_compliance r = ''Pass''
          \<and> map_of (failing_points r) ''Current TDD'' = None
          \<and> map_of (failing_points r) ''Current THD'' = None
          \<and> map_of (failing_points r) ''Individual Current Harmonics'' = None)"
    by (simp only: c_limit_row_above_69kV) blast
qed

text \<open>
  The sample with heavy current distortion, at 100 kV: the current verdict is Pass. The
  same data fail the current rules at 400 V.
\<close>

theorem current_compliance_skipped_above_69kV_witness:
  "c_limit_row 100000 1000 50 = None
   \<and> (\<exists>r. analyze_full_data sample_runtime (sheets loud_trend vh_5_7 ah_5_7) 100000 1000 50 = Inr r
          \<and> current_compliance r = ''Pass''
          \<and> map_of (failing_points r) ''Current TDD'' = None
          \<and> map_of (failing_points r) ''Current THD'' = None
          \<and> map_of (failing_points r) ''Individual Current Harmonics'' = None)
   \<and> current_compliance (evaluate_compliance sample_runtime (clean_trend sample_runtime loud_trend)
        vh_5_7 ah_5_7 400 1000 50) = ''Fail''"
proof -
  have v: "(100000::real) > 69000" by simp
  obtain r where r: "analyze_full_data sample_runtime (sheets loud_trend vh_5_7 ah_5_7)
      100000 1000 50 = Inr r"
    using analyze_sheets_returns [OF loud_trend_channels] by blast
  note main = current_compliance_skipped_above_69kV
    [where nominal_voltage = 100000 and isc = 1000 and il = 50 and rt = sample_runtime
       and dfs = "sheets loud_trend vh_5_7 ah_5_7" and r = r, THEN mp, OF v]
  have a: "c_limit_row 100000 1000 50 = None" using main by blast
  have b: "current_compliance r = ''Pass''
          \<and> map_of (failing_points r) ''Current TDD'' = None
          \<and> map_of (failing_points r) ''Current THD'' = None
          \<and> map_of (failing_points r) ''Individual Current Harmonics'' = None"
    using main r by blast
  have c: "current_compliance (evaluate_compliance sample_runtime (clean_trend sample_runtime loud_trend)
        vh_5_7 ah_5_7 400 1000 50) = ''Fail''"
    using rule_tdd [OF sample_limits(2), of sample_runtime "clean_trend sample_runtime loud_trend"
        vh_5_7 ah_5_7] loud_tdd_large by simp
  from a b c r show ?thesis by blast
qed

section \<open>A run without violations\<close>

lemma select_subset: "set (select m xs) \<subseteq> set xs"
  by (auto simp: select_def dest: set_zip_rightD)

lemma clean_column_cells:
  assumes "columns (clean_trend rt t) c = Some cells'"
  shows "\<exists>cells. t c = Some cells \<and> set cells' \<subseteq> set cells"
proof -
  from assms have c: "c \<noteq> ''Timestamp''" by (auto simp: clean_column_kept)
  with assms obtain cells where t: "t c = Some cells"
    and s: "cells' = select (kept_mask [] (row_stamps rt t)) cells"
    by (auto simp: clean_column_kept)
  from s have "set cells' \<subseteq> set cells" using select_subset by simp
  with t show ?thesis by blast
qed

lemma coerced_zero_series:
  "\<forall>x\<in>set cells. nan_to_zero (to_numeric rt x) = 0 \<Longrightarrow> set (to_numeric_safe rt cells) \<subseteq> {Some 0}"
  by (auto simp: to_numeric_safe_def fillna_def nan_to_zero_def split: option.splits)

lemma zero_thd_percentiles:
  assumes "\<And>p cells. p \<in> {1, 2, 3} \<Longrightarrow> t (thd_type @ str_nat p @ '' THD'') = Some cells \<Longrightarrow>
             \<forall>x\<in>set cells. nan_to_zero (to_numeric rt x) = 0"
  shows "all_zero (calculate_thd_percentiles rt (clean_trend rt t) thd_type True True)"
proof (rule calculate_thd_percentiles_zero)
  fix p :: nat and cells'
  assume p: "p \<in> {1, 2, 3}"
    and c: "columns (clean_trend rt t) (thd_type @ str_nat p @ '' THD'') = Some cells'"
  from clean_column_cells [OF c] obtain cells where
    t: "t (thd_type @ str_nat p @ '' THD'') = Some cells" and s: "set cells' \<subseteq> set cells" by blast
  from assms [OF p t] s have "\<forall>x\<in>set cells'. nan_to_zero (to_numeric rt x) = 0" by blast
  then show "set (to_numeric_safe rt cells') \<subseteq> {Some 0}" by (rule coerced_zero_series)
qed

lemma run_checks_id: "(\<And>c s. c \<in> set cs \<Longrightarrow> c s = s) \<Longrightarrow> run_checks cs st = st"
  by (induction cs arbitrary: st) simp_all

lemma outcome_nothing: "outcome False False None s = s"
  by (simp add: outcome_def)

lemma quiet_state:
  assumes u: "all_zero (voltage_thd_percentiles rt df)"
    and a: "all_zero (current_thd_percentiles rt df)"
    and vh: "\<And>h p. h \<in> {2..<51} \<Longrightarrow> p \<in> {1, 2, 3} \<Longrightarrow>
       get0 (vh_individual_percentiles rt vh) (''V'' @ str_nat p @ ''h'' @ str_nat h @ ''_95th'') \<le> 5"
    and ah: "\<And>h p. h \<in> {2..<51} \<Longrightarrow> p \<in> {1, 2, 3} \<Longrightarrow>
       \<not> exceeds (get0 (ah_individual_percentiles rt ah) (''A'' @ str_nat p @ ''h'' @ str_nat h @ ''_95th''))
            (get_current_limit_for_harmonic h (c_limit_row 400 1000 50))"
  shows "evaluate_compliance rt df vh ah 400 1000 50 = initial_state"
proof -
  let ?V = "\<lparr>individual = 5, thd = 8\<rparr> :: v_limits"
  let ?R = "\<lparr>h_lt_11 = 7.0, h_11_17 = 3.5, h_17_23 = 2.5, h_23_35 = 1.0, h_gt_35 = 0.5, tdd = 8.0\<rparr>
            :: c_limits"
  let ?vp = "voltage_thd_percentiles rt df" and ?cp = "current_thd_percentiles rt df"
  let ?vhp = "vh_individual_percentiles rt vh" and ?ahp = "ah_individual_percentiles rt ah"
  have tdd0: "tdd_of rt df 50 = 0"
    using get0_all_zero [OF a] by (simp add: tdd_of_def compute_tdd_def)
  have cs: "checks_of_run rt df vh ah 400 1000 50
      = voltage_checks ?V ?vp ?vhp @ current_checks ?R 0 ?cp ?ahp"
    by (simp add: checks_of_run_def all_checks_def sample_limits tdd0)
  have fv: "\<And>h. h \<in> {2..<51} \<Longrightarrow> failed_voltage_phases ?V ?vhp h = []"
  proof -
    fix h :: nat assume h: "h \<in> {2..<51}"
    have "\<And>p. p \<in> {1, 2, 3} \<Longrightarrow>
        \<not> get0 ?vhp (''V'' @ str_nat p @ ''h'' @ str_nat h @ ''_95th'') > 5"
      using vh [OF h] by (simp add: not_less)
    then show "failed_voltage_phases ?V ?vhp h = []"
      by (simp add: failed_voltage_phases_def)
  qed
  have fc: "\<And>h. h \<in> {2..<51} \<Longrightarrow> failed_current_phases ?R ?ahp h = []"
  proof -
    fix h :: nat assume h: "h \<in> {2..<51}"
    have "\<And>p. p \<in> {1, 2, 3} \<Longrightarrow>
        \<not> exceeds (get0 ?ahp (''A'' @ str_nat p @ ''h'' @ str_nat h @ ''_95th''))
              (get_current_limit_for_harmonic h (Some ?R))"
      using ah [OF h] by (simp add: sample_limits)
    then show "failed_current_phases ?R ?ahp h = []"
      by (simp add: failed_current_phases_def)
  qed
  have v_id: "\<And>c s. c \<in> set (voltage_checks ?V ?vp ?vhp) \<Longrightarrow> c s = s"
  proof -
    fix c s assume "c \<in> set (voltage_checks ?V ?vp ?vhp)"
    then consider (x) p where "c = check_thdv_99th_3s ?V ?vp p"
      | (y) p where "c = check_thdv_95th_10min ?V ?vp p"
      | (z) h where "h \<in> {2..<51}" "c = check_voltage_harmonic ?V ?vhp h"
      by (auto simp: voltage_checks_def simp del: upt_rec_numeral)
    then show "c s = s"
    proof cases
      case x
      then show ?thesis
        by (simp add: check_thdv_99th_3s_outcome get0_all_zero [OF u] outcome_nothing)
    next
      case y
      then show ?thesis
        by (simp add: check_thdv_95th_10min_outcome get0_all_zero [OF u] outcome_nothing)
    next
      case z
      then show ?thesis
        by (simp add: check_voltage_harmonic_outcome fv outcome_nothing)
    qed
  qed
  have c_id: "\<And>c s. c \<in> set (current_checks ?R 0 ?cp ?ahp) \<Longrightarrow> c s = s"
  proof -
    fix c s assume "c \<in> set (current_checks ?R 0 ?cp ?ahp)"
    then consider (t) "c = check_tdd ?R 0"
      | (x) p where "c = check_thdi_99th_3s ?R ?cp p"
      | (y) p where "c = check_thdi_95th_10min ?R ?cp p"
      | (w) p where "c = check_thdi_99th_10min ?R ?cp p"
      | (z) h where "h \<in> {2..<51}" "c = check_current_harmonic ?R ?ahp h"
      by (auto simp: current_checks_def simp del: upt_rec_numeral)
    then show "c s = s"
    proof cases
      case t
      then show ?thesis by (simp add: check_tdd_outcome outcome_nothing)
    next
      case x
      then show ?thesis
        by (simp add: check_thdi_99th_3s_outcome get0_all_zero [OF a] outcome_nothing)
    next
      case y
      then show ?thesis
        by (simp add: check_thdi_95th_10min_outcome get0_all_zero [OF a] outcome_nothing)
    next
      case w
      then show ?thesis
        by (simp add: check_thdi_99th_10min_outcome get0_all_zero [OF a] outcome_nothing)
    next
      case z
      show ?thesis
        unfolding z(2) check_current_harmonic_outcome Let_def fc [OF z(1)]
        by (simp add: outcome_nothing)
    qed
  qed
  show ?thesis
    unfolding evaluate_compliance_run cs
    by (rule run_checks_id) (use v_id c_id in auto)
qed

lemma six_thd_columns:
  assumes "\<forall>c\<in>{''U1 THD'', ''U2 THD'', ''U3 THD'', ''A1 THD'', ''A2 THD'', ''A3 THD''}.
             \<forall>cells. t c = Some cells \<longrightarrow> (\<forall>x\<in>set cells. nan_to_zero (to_numeric rt x) = 0)"
  shows "all_zero (voltage_thd_percentiles rt (clean_trend rt t))
       \<and> all_zero (current_thd_percentiles rt (clean_trend rt t))"
proof -
  have u: "\<And>p cells. p \<in> {1, 2, 3} \<Longrightarrow> t (''U'' @ str_nat p @ '' THD'') = Some cells \<Longrightarrow>
             \<forall>x\<in>set cells. nan_to_zero (to_numeric rt x) = 0"
    using assms by (auto simp: str_eval)
  have a: "\<And>p cells. p \<in> {1, 2, 3} \<Longrightarrow> t (''A'' @ str_nat p @ '' THD'') = Some cells \<Longrightarrow>
             \<forall>x\<in>set cells. nan_to_zero (to_numeric rt x) = 0"
    using assms by (auto simp: str_eval)
  have "all_zero (calculate_thd_percentiles rt (clean_trend rt t) ''U'' True True)"
  proof (rule zero_thd_percentiles)
    fix p :: nat and cells
    assume "p \<in> {1, 2, 3}" "t (''U'' @ str_nat p @ '' THD'') = Some cells"
    then show "\<forall>x\<in>set cells. nan_to_zero (to_numeric rt x) = 0" by (rule u)
  qed
  moreover have "all_zero (calculate_thd_percentiles rt (clean_trend rt t) ''A'' True True)"
  proof (rule zero_thd_percentiles)
    fix p :: nat and cells
    assume "p \<in> {1, 2, 3}" "t (''A'' @ str_nat p @ '' THD'') = Some cells"
    then show "\<forall>x\<in>set cells. nan_to_zero (to_numeric rt x) = 0" by (rule a)
  qed
  ultimately show ?thesis
    by (simp add: voltage_thd_percentiles_def current_thd_percentiles_def)
qed

lemma quiet_report:
  assumes thd: "\<forall>c\<in>{''U1 THD'', ''U2 THD'', ''U3 THD'', ''A1 THD'', ''A2 THD'', ''A3 THD''}.
             \<forall>cells. t c = Some cells \<longrightarrow> (\<forall>x\<in>set cells. nan_to_zero (to_numeric rt x) = 0)"
    and vh: "\<forall>h\<in>{2..<51}. \<forall>p\<in>{1, 2, 3}.
       get0 (vh_individual_percentiles rt vh) (''V'' @ str_nat p @ ''h'' @ str_nat h @ ''_95th'') \<le> 5"
    and ah: "\<forall>h\<in>{2..<51}. \<forall>p\<in>{1, 2, 3}.
       \<not> exceeds (get0 (ah_individual_percentiles rt ah) (''A'' @ str_nat p @ ''h'' @ str_nat h @ ''_95th''))
            (get_current_limit_for_harmonic h (c_limit_row 400 1000 50))"
    and ch: "\<forall>c\<in>set chart_columns. t c \<noteq> None"
  shows "\<exists>r. analyze_full_data rt (sheets t vh ah) 400 1000 50 = Inr r
           \<and> voltage_compliance r = ''Pass'' \<and> current_compliance r = ''Pass''
           \<and> failing_points r = []
           \<and> power_factor_avg (summary_stats r)
               = nan_to_zero (mean (power_factors rt (clean_trend rt t)))
           \<and> recommendations r = generate_recommendations ''Pass'' ''Pass''
                (Some (nan_to_zero (mean (power_factors rt (clean_trend rt t)))))"
proof -
  obtain r where r: "analyze_full_data rt (sheets t vh ah) 400 1000 50 = Inr r"
    using analyze_sheets_returns [OF ch] by blast
  have q: "evaluate_compliance rt (clean_trend rt t) vh ah 400 1000 50 = initial_state"
    using six_thd_columns [OF thd] vh ah by (intro quiet_state) blast+
  from analyze_Inr_fields [OF r] q have
    "voltage_compliance r = ''Pass''" "current_compliance r = ''Pass''" "failing_points r = []"
    "summary_stats r = summary_of rt (clean_trend rt t) (thdv_overall_of rt (clean_trend rt t))
                             (thdi_overall_of rt (clean_trend rt t))"
    "recommendations r = generate_recommendations (voltage_compliance r) (current_compliance r)
                             (Some (power_factor_avg (summary_stats r)))"
    by (simp_all add: initial_state_def)
  then have "voltage_compliance r = ''Pass'' \<and> current_compliance r = ''Pass''
           \<and> failing_points r = []
           \<and> power_factor_avg (summary_stats r)
               = nan_to_zero (mean (power_factors rt (clean_trend rt t)))
           \<and> recommendations r = generate_recommendations ''Pass'' ''Pass''
                (Some (nan_to_zero (mean (power_factors rt (clean_trend rt t)))))"
    by (simp add: summary_of_def)
  with r show ?thesis by blast
qed

lemma healthy_recommendation:
  "0.95 \<le> pf \<Longrightarrow> generate_recommendations ''Pass'' ''Pass'' (Some pf)
     = [''System power quality appears to be in good condition. Continuous monitoring is recommended.'']"
  by (simp add: generate_recommendations_def)

lemma power_factor_recommendation:
  "pf < 0.95 \<Longrightarrow> generate_recommendations ''Pass'' ''Pass'' (Some pf)
     = [''Improve power factor by installing capacitor banks or using active power factor correction (PFC).'']"
  by (simp add: generate_recommendations_def)

lemma zero_never_exceeds:
  "\<not> exceeds 0 (get_current_limit_for_harmonic h (c_limit_row 400 1000 50))"
  by (simp add: sample_limits get_current_limit_for_harmonic_def exceeds_def)

lemma no_harmonics_quiet:
  assumes "h \<in> {2..<51}" "p \<in> {1, 2, 3}"
  shows "get0 (vh_individual_percentiles rt no_harmonics)
           (''V'' @ str_nat p @ ''h'' @ str_nat h @ ''_95th'') = 0"
    and "get0 (ah_individual_percentiles rt no_harmonics)
           (''A'' @ str_nat p @ ''h'' @ str_nat h @ ''_95th'') = 0"
  unfolding vh_percentile_at [OF assms] ah_percentile_at [OF assms]
  by (simp_all add: no_harmonics_def)

lemma no_harmonics_within_limits:
  "\<forall>h\<in>{2..<51}. \<forall>p\<in>{1, 2, 3}.
      get0 (vh_individual_percentiles rt no_harmonics)
        (''V'' @ str_nat p @ ''h'' @ str_nat h @ ''_95th'') \<le> 5"
  "\<forall>h\<in>{2..<51}. \<forall>p\<in>{1, 2, 3}.
      \<not> exceeds (get0 (ah_individual_percentiles rt no_harmonics)
                   (''A'' @ str_nat p @ ''h'' @ str_nat h @ ''_95th''))
           (get_current_limit_for_harmonic h (c_limit_row 400 1000 50))"
proof -
  show "\<forall>h\<in>{2..<51}. \<forall>p\<in>{1, 2, 3}.
      get0 (vh_individual_percentiles rt no_harmonics)
        (''V'' @ str_nat p @ ''h'' @ str_nat h @ ''_95th'') \<le> 5"
  proof (intro ballI)
    fix h p :: nat assume hp: "h \<in> {2..<51}" "p \<in> {1, 2, 3}"
    show "get0 (vh_individual_percentiles rt no_harmonics)
        (''V'' @ str_nat p @ ''h'' @ str_nat h @ ''_95th'') \<le> 5"
      unfolding no_harmonics_quiet(1) [OF hp] by simp
  qed
  show "\<forall>h\<in>{2..<51}. \<forall>p\<in>{1, 2, 3}.
      \<not> exceeds (get0 (ah_individual_percentiles rt no_harmonics)
                   (''A'' @ str_nat p @ ''h'' @ str_nat h @ ''_95th''))
           (get_current_limit_for_harmonic h (c_limit_row 400 1000 50))"
  proof (intro ballI)
    fix h p :: nat assume hp: "h \<in> {2..<51}" "p \<in> {1, 2, 3}"
    show "\<not> exceeds (get0 (ah_individual_percentiles rt no_harmonics)
                   (''A'' @ str_nat p @ ''h'' @ str_nat h @ ''_95th''))
           (get_current_limit_for_harmonic h (c_limit_row 400 1000 50))"
      unfolding no_harmonics_quiet(2) [OF hp] by (rule zero_never_exceeds)
  qed
qed

lemma sample_thd_cells:
  "\<forall>c\<in>{''U1 THD'', ''U2 THD'', ''U3 THD'', ''A1 THD'', ''A2 THD'', ''A3 THD''}.
     \<forall>cells. map_of (sample_stamps @ [(''U1 RMS'', [Num 230, Num 230])] @ zero_thd @ rest) c
               = Some cells \<longrightarrow> (\<forall>x\<in>set cells. nan_to_zero (to_numeric rt x) = 0)"
  by (auto simp: sample_stamps_def zero_thd_def to_numeric_def nan_to_zero_def)

lemma sample_clean_column:
  assumes "t ''Date'' = Some [Text ''01/01/2566'', Text ''01/01/2566'']"
    and "t ''Time'' = Some [Text ''00:00:00'', Text ''00:00:03'']"
    and "c \<noteq> ''Timestamp''" "t c = Some [x, y]"
  shows "columns (clean_trend sample_runtime t) c = Some [x, y]"
  by (rule two_rows_column [OF sample_row_stamps [OF assms(1,2)] _ assms(3,4)]) simp

lemma powerless_power_factor:
  "nan_to_zero (mean (power_factors sample_runtime (clean_trend sample_runtime powerless_trend))) = 0"
proof -
  have d: "powerless_trend ''Date'' = Some [Text ''01/01/2566'', Text ''01/01/2566'']"
    "powerless_trend ''Time'' = Some [Text ''00:00:00'', Text ''00:00:03'']"
    by (simp_all add: powerless_trend_def sample_stamps_def)
  have w: "powerless_trend ''W Total'' = Some [Blank, Blank]"
    "powerless_trend ''VA Total'' = Some [Blank, Blank]"
    by (simp_all add: powerless_trend_def sample_stamps_def zero_thd_def blank_channels_def
        chart_columns_eval)
  have c: "columns (clean_trend sample_runtime powerless_trend) ''W Total'' = Some [Blank, Blank]"
    "columns (clean_trend sample_runtime powerless_trend) ''VA Total'' = Some [Blank, Blank]"
    by (rule sample_clean_column [OF d]; simp add: w)+
  show ?thesis
    by (simp add: power_factors_def get_numeric_def c to_numeric_safe_def fillna_def to_numeric_def
        where_nonzero_def divide_series_def mean_def numbers_def dropna_def nan_to_zero_def)
qed

lemma quiet_power_factor:
  "nan_to_zero (mean (power_factors sample_runtime (clean_trend sample_runtime quiet_trend))) = 0.95"
proof -
  have d: "quiet_trend ''Date'' = Some [Text ''01/01/2566'', Text ''01/01/2566'']"
    "quiet_trend ''Time'' = Some [Text ''00:00:00'', Text ''00:00:03'']"
    by (simp_all add: quiet_trend_def sample_stamps_def)
  have w: "quiet_trend ''W Total'' = Some [Num 950, Num 950]"
    "quiet_trend ''VA Total'' = Some [Num 1000, Num 1000]"
    by (simp_all add: quiet_trend_def sample_stamps_def zero_thd_def)
  have c: "columns (clean_trend sample_runtime quiet_trend) ''W Total'' = Some [Num 950, Num 950]"
    "columns (clean_trend sample_runtime quiet_trend) ''VA Total'' = Some [Num 1000, Num 1000]"
    by (rule sample_clean_column [OF d]; simp add: w)+
  show ?thesis
    by (simp add: power_factors_def get_numeric_def c to_numeric_safe_def fillna_def to_numeric_def
        where_nonzero_def divide_series_def mean_def numbers_def dropna_def nan_to_zero_def)
qed

text \<open>
  Claim C2, as amended. A trend table in which every cell of the six THD columns is 0 (or
  holds no number), with every charted channel present and an average power factor of at
  least 0.95, analysed together with harmonic tables in which no individual harmonic has a
  95th percentile above its limit, under a nominal voltage of 400 V, Isc = 1000 A and
  Il = 50 A, gives a report with both verdicts Pass, no failing point and the one
  recommendation that the system is in good condition, whatever the U1 RMS is.
\<close>

theorem quiet_system_report:
  assumes "\<forall>c\<in>set chart_columns. t c \<noteq> None"
    and "\<forall>c\<in>{''U1 THD'', ''U2 THD'', ''U3 THD'', ''A1 THD'', ''A2 THD'', ''A3 THD''}.
           \<forall>cells. t c = Some cells \<longrightarrow> (\<forall>x\<in>set cells. nan_to_zero (to_numeric rt x) = 0)"
    and "\<forall>h\<in>{2..<51}. \<forall>p\<in>{1, 2, 3}.
           get0 (vh_individual_percentiles rt vh) (''V'' @ str_nat p @ ''h'' @ str_nat h @ ''_95th'') \<le> 5"
    and "\<forall>h\<in>{2..<51}. \<forall>p\<in>{1, 2, 3}.
           \<not> exceeds (get0 (ah_individual_percentiles rt ah)
                        (''A'' @ str_nat p @ ''h'' @ str_nat h @ ''_95th''))
                (get_current_limit_for_harmonic h (c_limit_row 400 1000 50))"
    and "0.95 \<le> nan_to_zero (mean (power_factors rt (clean_trend rt t)))"
  shows "\<exists>r. analyze_full_data rt (sheets t vh ah) 400 1000 50 = Inr r
           \<and> voltage_compliance r = ''Pass'' \<and> current_compliance r = ''Pass''
           \<and> failing_points r = []
           \<and> power_factor_avg (summary_stats r) = nan_to_zero (mean (power_factors rt (clean_trend rt t)))
           \<and> recommendations r =
               [''System power quality appears to be in good condition. Continuous monitoring is recommended.'']"
  using quiet_report [OF assms(2,3,4,1)] healthy_recommendation [OF assms(5)] by auto

text \<open>
  The scenario without power data: constant U1 RMS of 230 V, no distortion on any phase,
  every other charted channel without data. The average power factor of the report is 0
  and its one recommendation is to improve the power factor.
\<close>

theorem quiet_scenario_without_power_data_counterexample:
  "powerless_trend ''U1 RMS'' = Some [Num 230, Num 230]
   \<and> map powerless_trend [''U1 THD'', ''U2 THD'', ''U3 THD'', ''A1 THD'', ''A2 THD'', ''A3 THD'']
       = [Some [Num 0, Num 0], Some [Num 0, Num 0], Some [Num 0, Num 0],
          Some [Num 0, Num 0], Some [Num 0, Num 0], Some [Num 0, Num 0]]
   \<and> (\<exists>r. analyze_full_data sample_runtime (sheets powerless_trend no_harmonics no_harmonics)
             400 1000 50 = Inr r
         \<and> voltage_compliance r = ''Pass'' \<and> current_compliance r = ''Pass''
         \<and> failing_points r = []
         \<and> power_factor_avg (summary_stats r) = 0
         \<and> recommendations r =
             [''Improve power factor by installing capacitor banks or using active power factor correction (PFC).'']
         \<and> recommendations r \<noteq>
             [''System power quality appears to be in good condition. Continuous monitoring is recommended.''])"
proof -
  have a: "powerless_trend ''U1 RMS'' = Some [Num 230, Num 230]"
    by (simp add: powerless_trend_def sample_stamps_def)
  have b: "map powerless_trend [''U1 THD'', ''U2 THD'', ''U3 THD'', ''A1 THD'', ''A2 THD'', ''A3 THD'']
       = [Some [Num 0, Num 0], Some [Num 0, Num 0], Some [Num 0, Num 0],
          Some [Num 0, Num 0], Some [Num 0, Num 0], Some [Num 0, Num 0]]"
    by (simp add: powerless_trend_def sample_stamps_def zero_thd_def)
  have thd: "\<forall>c\<in>{''U1 THD'', ''U2 THD'', ''U3 THD'', ''A1 THD'', ''A2 THD'', ''A3 THD''}.
      \<forall>cells. powerless_trend c = Some cells \<longrightarrow>
        (\<forall>x\<in>set cells. nan_to_zero (to_numeric sample_runtime x) = 0)"
    unfolding powerless_trend_def by (rule sample_thd_cells)
  note vh = no_harmonics_within_limits(1) [of sample_runtime]
  note ah = no_harmonics_within_limits(2) [of sample_runtime]
  from quiet_report [OF thd vh ah powerless_trend_channels] obtain r where
    r: "analyze_full_data sample_runtime (sheets powerless_trend no_harmonics no_harmonics)
          400 1000 50 = Inr r"
      "voltage_compliance r = ''Pass''" "current_compliance r = ''Pass''" "failing_points r = []"
      "power_factor_avg (summary_stats r)
         = nan_to_zero (mean (power_factors sample_runtime (clean_trend sample_runtime powerless_trend)))"
      "recommendations r = generate_recommendations ''Pass'' ''Pass''
         (Some (nan_to_zero (mean (power_factors sample_runtime
                                     (clean_trend sample_runtime powerless_trend)))))"
    by blast
  have pf: "power_factor_avg (summary_stats r) = 0" using r(5) powerless_power_factor by simp
  have rec: "recommendations r =
      [''Improve power factor by installing capacitor banks or using active power factor correction (PFC).'']"
    unfolding r(6) powerless_power_factor by (rule power_factor_recommendation) simp
  have ne: "recommendations r \<noteq>
      [''System power quality appears to be in good condition. Continuous monitoring is recommended.'']"
    unfolding rec by simp
  from a b r(1-4) pf rec ne show ?thesis by blast
qed

theorem quiet_system_report_witness:
  "quiet_trend ''U1 RMS'' = Some [Num 230, Num 230]
   \<and> (\<exists>r. analyze_full_data sample_runtime (sheets quiet_trend no_harmonics no_harmonics)
             400 1000 50 = Inr r
         \<and> voltage_compliance r = ''Pass'' \<and> current_compliance r = ''Pass''
         \<and> failing_points r = []
         \<and> power_factor_avg (summary_stats r) = 0.95
         \<and> recommendations r =
             [''System power quality appears to be in good condition. Continuous monitoring is recommended.''])"
proof -
  have a: "quiet_trend ''U1 RMS'' = Some [Num 230, Num 230]"
    by (simp add: quiet_trend_def sample_stamps_def)
  have thd: "\<forall>c\<in>{''U1 THD'', ''U2 THD'', ''U3 THD'', ''A1 THD'', ''A2 THD'', ''A3 THD''}.
      \<forall>cells. quiet_trend c = Some cells \<longrightarrow>
        (\<forall>x\<in>set cells. nan_to_zero (to_numeric sample_runtime x) = 0)"
    unfolding quiet_trend_def by (rule sample_thd_cells)
  note vh = no_harmonics_within_limits(1) [of sample_runtime]
  note ah = no_harmonics_within_limits(2) [of sample_runtime]
  have pf: "0.95 \<le> nan_to_zero (mean (power_factors sample_runtime
                                         (clean_trend sample_runtime quiet_trend)))"
    by (simp only: quiet_power_factor)
  from quiet_system_report [OF quiet_trend_channels thd vh ah pf] a
  show ?thesis by (simp only: quiet_power_factor)
qed
section \<open>The overall figures and the phases\<close>

lemma clean_trend_agree:
  assumes "\<forall>c. c \<notin> {''U2 THD'', ''U3 THD'', ''A2 THD'', ''A3 THD''} \<longrightarrow> t1 c = t2 c"
  shows "row_stamps rt t1 = row_stamps rt t2"
    and "index (clean_trend rt t1) = index (clean_trend rt t2)"
    and "c \<notin> {''U2 THD'', ''U3 THD'', ''A2 THD'', ''A3 THD''} \<Longrightarrow>
         columns (clean_trend rt t1) c = columns (clean_trend rt t2) c"
proof -
  have d: "t1 ''Date'' = t2 ''Date''" "t1 ''Time'' = t2 ''Time''" using assms by simp_all
  show s: "row_stamps rt t1 = row_stamps rt t2" unfolding row_stamps_def d by (rule refl)
  show "index (clean_trend rt t1) = index (clean_trend rt t2)"
    by (simp add: clean_trend_def Let_def s)
  assume "c \<notin> {''U2 THD'', ''U3 THD'', ''A2 THD'', ''A3 THD''}"
  with assms have "t1 c = t2 c" by blast
  then show "columns (clean_trend rt t1) c = columns (clean_trend rt t2) c"
    by (simp add: clean_column_kept s)
qed

lemma thd_col_other_key:
  "k \<notin> {col @ ''_99th_3s'', col @ ''_95th_10min'', col @ ''_99th_10min''} \<Longrightarrow>
   thd_col_percentiles rt df p95 p99 results col k = results k"
  by (simp add: thd_col_percentiles_def Let_def split: option.splits)

lemma thd_col_cong:
  "index df = index df' \<Longrightarrow> columns df col = columns df' col \<Longrightarrow>
   thd_col_percentiles rt df p95 p99 results col = thd_col_percentiles rt df' p95 p99 results col"
proof -
  assume a: "index df = index df'" "columns df col = columns df' col"
  show ?thesis unfolding thd_col_percentiles_def a by (rule refl)
qed

lemma thd_phase_1:
  "calculate_thd_percentiles rt df thd_type p95 p99 (thd_type @ ''1 THD_95th_10min'')
     = thd_col_percentiles rt df p95 p99 Map.empty (thd_type @ ''1 THD'')
         (thd_type @ ''1 THD_95th_10min'')"
proof -
  have "calculate_thd_percentiles rt df thd_type p95 p99
      = thd_col_percentiles rt df p95 p99
          (thd_col_percentiles rt df p95 p99
             (thd_col_percentiles rt df p95 p99 Map.empty (thd_type @ ''1 THD''))
             (thd_type @ ''2 THD''))
          (thd_type @ ''3 THD'')"
    by (simp add: calculate_thd_percentiles_def str_eval)
  then show ?thesis by (simp add: thd_col_other_key)
qed

lemma overall_thd_agree:
  assumes "index df = index df'" "columns df (thd_type @ ''1 THD'') = columns df' (thd_type @ ''1 THD'')"
  shows "get0 (calculate_thd_percentiles rt df thd_type True True) (thd_type @ ''1 THD_95th_10min'')
       = get0 (calculate_thd_percentiles rt df' thd_type True True) (thd_type @ ''1 THD_95th_10min'')"
  by (simp add: get0_def thd_phase_1 thd_col_cong [OF assms])

lemma overall_figures_agree:
  assumes "\<forall>c. c \<notin> {''U2 THD'', ''U3 THD'', ''A2 THD'', ''A3 THD''} \<longrightarrow> t1 c = t2 c"
  shows "thdv_overall_of rt (clean_trend rt t1) = thdv_overall_of rt (clean_trend rt t2)"
    and "thdi_overall_of rt (clean_trend rt t1) = thdi_overall_of rt (clean_trend rt t2)"
    and "tdd_of rt (clean_trend rt t1) il = tdd_of rt (clean_trend rt t2) il"
proof -
  note i = clean_trend_agree(2) [OF assms, of rt]
  have u: "columns (clean_trend rt t1) (''U'' @ ''1 THD'') = columns (clean_trend rt t2) (''U'' @ ''1 THD'')"
    by (rule clean_trend_agree(3) [OF assms]) simp
  have a: "columns (clean_trend rt t1) (''A'' @ ''1 THD'') = columns (clean_trend rt t2) (''A'' @ ''1 THD'')"
    by (rule clean_trend_agree(3) [OF assms]) simp
  have r: "columns (clean_trend rt t1) ''A1 RMS'' = columns (clean_trend rt t2) ''A1 RMS''"
    by (rule clean_trend_agree(3) [OF assms]) simp
  show v: "thdv_overall_of rt (clean_trend rt t1) = thdv_overall_of rt (clean_trend rt t2)"
    using overall_thd_agree [OF i u, of rt]
    by (simp add: thdv_overall_of_def voltage_thd_percentiles_def)
  show c: "thdi_overall_of rt (clean_trend rt t1) = thdi_overall_of rt (clean_trend rt t2)"
    using overall_thd_agree [OF i a, of rt]
    by (simp add: thdi_overall_of_def current_thd_percentiles_def)
  have "avg_of rt (clean_trend rt t1) ''A1 RMS'' = avg_of rt (clean_trend rt t2) ''A1 RMS''"
    by (simp add: avg_of_def get_numeric_def r)
  with c show "tdd_of rt (clean_trend rt t1) il = tdd_of rt (clean_trend rt t2) il"
    by (simp add: tdd_of_def summary_of_def thdi_overall_of_def)
qed

lemma report_overall_figures:
  assumes "analyze_full_data rt dfs nominal_voltage isc il = Inr r" "dfs ''Trend'' = Some t"
  shows "thdv_percent r = thdv_overall_of rt (clean_trend rt t)"
    and "thdi_percent_avg (summary_stats r) = thdi_overall_of rt (clean_trend rt t)"
    and "tdd_percent r = tdd_of rt (clean_trend rt t) il"
  using analyze_Inr_fields [OF assms(1)] assms(2)
  by (auto simp: summary_of_def nan_to_zero_def)

text \<open>
  Claim C10. Two runs whose inputs differ only in the columns \<open>U2 THD\<close>, \<open>U3 THD\<close>,
  \<open>A2 THD\<close> and \<open>A3 THD\<close> of the trend table, and that both return a report, report the
  same overall THDv, the same overall THDi and the same TDD: the first two are the entries
  \<open>U1 THD_95th_10min\<close> and \<open>A1 THD_95th_10min\<close> of the percentile dictionaries, 0 when
  absent, and these entries are computed from the columns \<open>U1 THD\<close> and \<open>A1 THD\<close> alone.
\<close>

theorem overall_figures_read_phase_1_only:
  assumes "\<forall>c. c \<notin> {''U2 THD'', ''U3 THD'', ''A2 THD'', ''A3 THD''} \<longrightarrow> t1 c = t2 c"
    and "dfs ''Trend'' = Some t1"
    and "analyze_full_data rt dfs nominal_voltage isc il = Inr r1"
    and "analyze_full_data rt (dfs(''Trend'' \<mapsto> t2)) nominal_voltage isc il = Inr r2"
  shows "thdv_percent r1 = thdv_percent r2
       \<and> thdi_percent_avg (summary_stats r1) = thdi_percent_avg (summary_stats r2)
       \<and> tdd_percent r1 = tdd_percent r2
       \<and> thdv_percent r1
           = get0 (thd_col_percentiles rt (clean_trend rt t1) True True Map.empty ''U1 THD'')
               ''U1 THD_95th_10min''
       \<and> thdi_percent_avg (summary_stats r1)
           = get0 (thd_col_percentiles rt (clean_trend rt t1) True True Map.empty ''A1 THD'')
               ''A1 THD_95th_10min''"
proof -
  have t2: "(dfs(''Trend'' \<mapsto> t2)) ''Trend'' = Some t2" by simp
  note f1 = report_overall_figures [OF assms(3) assms(2)]
  note f2 = report_overall_figures [OF assms(4) t2]
  note e = overall_figures_agree [OF assms(1), of rt]
  have v: "thdv_overall_of rt (clean_trend rt t1)
      = get0 (thd_col_percentiles rt (clean_trend rt t1) True True Map.empty ''U1 THD'')
          ''U1 THD_95th_10min''"
    using thd_phase_1 [of rt "clean_trend rt t1" "''U''" True True]
    by (simp add: thdv_overall_of_def voltage_thd_percentiles_def get0_def)
  have c: "thdi_overall_of rt (clean_trend rt t1)
      = get0 (thd_col_percentiles rt (clean_trend rt t1) True True Map.empty ''A1 THD'')
          ''A1 THD_95th_10min''"
    using thd_phase_1 [of rt "clean_trend rt t1" "''A''" True True]
    by (simp add: thdi_overall_of_def current_thd_percentiles_def get0_def)
  show ?thesis
    unfolding f1 f2 using e(1,2) e(3) [of il] v c by simp
qed

lemma single_phase_differs:
  "\<forall>c. c \<notin> {''U2 THD'', ''U3 THD'', ''A2 THD'', ''A3 THD''} \<longrightarrow> loud_trend c = single_phase_trend c"
  by (simp add: single_phase_trend_def)

lemma single_phase_trend_channels: "\<forall>c\<in>set chart_columns. single_phase_trend c \<noteq> None"
  using loud_trend_channels by (simp add: single_phase_trend_def)

theorem overall_figures_read_phase_1_only_witness:
  "loud_trend ''U2 THD'' = Some [Num 100, Num 100]
   \<and> single_phase_trend ''U2 THD'' = Some [Num 0, Num 0]
   \<and> (\<exists>r1 r2.
        analyze_full_data sample_runtime (sheets loud_trend no_harmonics no_harmonics) 400 1000 50
          = Inr r1
      \<and> analyze_full_data sample_runtime (sheets single_phase_trend no_harmonics no_harmonics)
          400 1000 50 = Inr r2
      \<and> thdv_percent r1 = 100 \<and> thdv_percent r2 = 100
      \<and> thdi_percent_avg (summary_stats r1) = 100 \<and> thdi_percent_avg (summary_stats r2) = 100
      \<and> tdd_percent r1 = 200 / sqrt 2 \<and> tdd_percent r2 = 200 / sqrt 2)"
proof -
  have a: "loud_trend ''U2 THD'' = Some [Num 100, Num 100]"
    by (simp add: loud_trend_def sample_stamps_def)
  have b: "single_phase_trend ''U2 THD'' = Some [Num 0, Num 0]"
    by (simp add: single_phase_trend_def)
  obtain r1 where r1: "analyze_full_data sample_runtime (sheets loud_trend no_harmonics no_harmonics)
      400 1000 50 = Inr r1"
    using analyze_sheets_returns [OF loud_trend_channels] by blast
  obtain r2 where r2: "analyze_full_data sample_runtime
      (sheets single_phase_trend no_harmonics no_harmonics) 400 1000 50 = Inr r2"
    using analyze_sheets_returns [OF single_phase_trend_channels] by blast
  have s: "(sheets loud_trend no_harmonics no_harmonics)(''Trend'' \<mapsto> single_phase_trend)
      = sheets single_phase_trend no_harmonics no_harmonics"
    by (rule ext) (simp add: sheets_def)
  have t: "sheets loud_trend no_harmonics no_harmonics ''Trend'' = Some loud_trend" by simp
  note main = overall_figures_read_phase_1_only [OF single_phase_differs t r1 r2 [folded s]]
  have v: "thdv_percent r1 = 100"
    using report_overall_figures(1) [OF r1 t] loud_voltage_percentiles [of 1]
    by (simp add: thdv_overall_of_def str_eval)
  have c: "thdi_percent_avg (summary_stats r1) = 100"
    using report_overall_figures(2) [OF r1 t] loud_current_percentiles [of 1]
    by (simp add: thdi_overall_of_def str_eval)
  have d: "tdd_percent r1 = 200 / sqrt 2"
    using report_overall_figures(3) [OF r1 t] by (simp add: loud_tdd)
  from main v c d have "thdv_percent r2 = 100" "thdi_percent_avg (summary_stats r2) = 100"
    "tdd_percent r2 = 200 / sqrt 2" by simp_all
  with a b r1 r2 v c d show ?thesis by blast
qed

end
